theory Spec2Isabelle
  imports Main
begin

section \<open>Document trees\<close>

text \<open>
  The trees of the program are lxml elements: a tag, an attribute dictionary (kept in
  insertion order), the text before the first child (None when there is none), the
  child elements, and the tail, the text that follows the element inside its parent.
\<close>

datatype element =
  Element (tag: string) (attrib: "(string \<times> string) list") (etext: "string option")
    (children: "element list") (tail: "string option")

lemma size_children [termination_simp]: "size_list size (children e) < size e"
  by (cases e) simp

text \<open>
  A loop that edits the children of one parent in document order is modelled with the
  state it edits: the parent's text and the children already passed, as they stand.
\<close>

type_synonym siblings = "string option \<times> element list"

definition set_tail :: "string option \<Rightarrow> element \<Rightarrow> element" where
  "set_tail s e = Element (tag e) (attrib e) (etext e) (children e) s"

definition rebuild :: "element \<Rightarrow> siblings \<Rightarrow> element" where
  "rebuild e ctx = Element (tag e) (attrib e) (fst ctx) (snd ctx) (tail e)"

definition retag :: "string \<Rightarrow> element \<Rightarrow> element" where
  "retag t e = Element t (attrib e) (etext e) (children e) (tail e)"

text \<open>\<open>element.set(key, value)\<close>: an existing key keeps its place.\<close>

fun set_attr :: "string \<Rightarrow> string \<Rightarrow> (string \<times> string) list \<Rightarrow> (string \<times> string) list" where
  "set_attr k v [] = [(k, v)]"
| "set_attr k v (p # ps) = (if fst p = k then (k, v) # ps else p # set_attr k v ps)"

definition set_attrib :: "string \<Rightarrow> string \<Rightarrow> element \<Rightarrow> element" where
  "set_attrib k v e = Element (tag e) (set_attr k v (attrib e)) (etext e) (children e) (tail e)"

text \<open>\<open>element.iter()\<close>: the element and its descendants in document order.\<close>

fun iter :: "element \<Rightarrow> element list" where
  "iter (Element t a x cs ta) = Element t a x cs ta # concat (map iter cs)"

text \<open>
  \<open>element.itertext()\<close>: every text and tail below the element in document order; the
  tail of the element itself is not part of it.
\<close>

fun itertext :: "element \<Rightarrow> string list" where
  "itertext (Element t a x cs ta) =
     (case x of None \<Rightarrow> [] | Some s \<Rightarrow> [s]) @
     concat (map (\<lambda>c. itertext c @ (case tail c of None \<Rightarrow> [] | Some s \<Rightarrow> [s])) cs)"

text \<open>
  \<open>etree.strip_tags(tree, *tags)\<close>: every descendant with one of the tags is replaced
  by its content. Its text joins the text before it (the tail of the element before it,
  or the parent's text), its children take its place, and its tail follows its last
  child. The element passed is never stripped itself.
\<close>

definition opt_append :: "string option \<Rightarrow> string option \<Rightarrow> string option" where
  "opt_append a b =
     (case a of None \<Rightarrow> b | Some x \<Rightarrow> (case b of None \<Rightarrow> Some x | Some y \<Rightarrow> Some (x @ y)))"

definition append_text :: "siblings \<Rightarrow> string option \<Rightarrow> siblings" where
  "append_text ctx s =
     (case ctx of (ptext, prev) \<Rightarrow>
        if prev = [] then (opt_append ptext s, [])
        else (ptext, butlast prev @ [set_tail (opt_append (tail (last prev)) s) (last prev)]))"

fun strip_tags_list :: "string list \<Rightarrow> siblings \<Rightarrow> element list \<Rightarrow> siblings" where
  "strip_tags_list tags ctx [] = ctx"
| "strip_tags_list tags ctx (c # cs) =
     (if tag c \<in> set tags
      then strip_tags_list tags
             (append_text (strip_tags_list tags (append_text ctx (etext c)) (children c)) (tail c)) cs
      else strip_tags_list tags
             (fst ctx, snd ctx @ [rebuild c (strip_tags_list tags (etext c, []) (children c))]) cs)"

definition strip_tags :: "string list \<Rightarrow> element \<Rightarrow> element" where
  "strip_tags tags e = rebuild e (strip_tags_list tags (etext e, []) (children e))"

section \<open>Elements in their document\<close>

text \<open>
  An element that the program finds in the document and then edits or removes is
  followed by its location, the indices of the children from the root down to it.
  \<open>located\<close> lists the elements of a tree with their locations in document order; an
  XPath query is a predicate on the locations of a document, and its result is the list
  of the elements it holds for, in document order.
\<close>

fun located_from :: "nat \<Rightarrow> element list \<Rightarrow> (nat list \<times> element) list" where
  "located_from i [] = []"
| "located_from i (c # cs) =
     ([i], c) # map (\<lambda>le. (i # fst le, snd le)) (located_from 0 (children c)) @
     located_from (Suc i) cs"

definition located :: "element \<Rightarrow> (nat list \<times> element) list" where
  "located t = ([], t) # located_from 0 (children t)"

definition xpath ::
  "('q \<Rightarrow> element \<Rightarrow> nat list \<Rightarrow> bool) \<Rightarrow> 'q \<Rightarrow> element \<Rightarrow> (nat list \<times> element) list" where
  "xpath matches expr t = filter (\<lambda>le. matches expr t (fst le)) (located t)"

text \<open>
  \<open>put_at\<close> is the document once the element at a location has been edited in place.
  \<open>remove_at\<close> is \<open>subtree.getparent().remove(subtree)\<close>: the element leaves its parent
  with its subtree and its tail; the root has no parent, then \<open>getparent()\<close> is None and
  the call raises AttributeError, which is the value None here.
\<close>

fun put_at :: "nat list \<Rightarrow> element \<Rightarrow> element \<Rightarrow> element" where
  "put_at [] s t = s"
| "put_at (i # l) s t =
     (if i < length (children t)
      then Element (tag t) (attrib t) (etext t)
             ((children t)[i := put_at l s (children t ! i)]) (tail t)
      else t)"

fun remove_at :: "nat list \<Rightarrow> element \<Rightarrow> element option" where
  "remove_at [] t = None"
| "remove_at [i] t =
     (if i < length (children t)
      then Some (Element (tag t) (attrib t) (etext t)
                   (take i (children t) @ drop (Suc i) (children t)) (tail t))
      else None)"
| "remove_at (i # j # l) t =
     (if i < length (children t)
      then (case remove_at (j # l) (children t ! i) of
              None \<Rightarrow> None
            | Some c \<Rightarrow>
                Some (Element (tag t) (attrib t) (etext t) ((children t)[i := c]) (tail t)))
      else None)"


section \<open>xml.py: merging elements, plain text, TEI\<close>

text \<open>xml.py, replace_element_text, lines 158-167.\<close>

definition replace_element_text :: "element \<Rightarrow> string" where
  "replace_element_text e =
     (case (etext e, tail e) of
        (Some x, Some t) \<Rightarrow> x @ '' '' @ t
      | (Some x, None) \<Rightarrow> x
      | (None, Some t) \<Rightarrow> t
      | (None, None) \<Rightarrow> [])"

text \<open>
  xml.py, merge_with_parent, lines 170-189, for an element that has a parent: the
  state is the parent's text and the siblings that stand before the element.
  \<open>parent.remove(element)\<close> takes the element out with its tail and everything below
  it, so the element is not added to the siblings. (For an element without a parent
  the function returns at once; the root is never handed to this model.)
\<close>

definition join_text :: "string option \<Rightarrow> string \<Rightarrow> string option" where
  "join_text old full_text =
     (case old of Some t \<Rightarrow> Some (t @ '' '' @ full_text) | None \<Rightarrow> Some full_text)"

definition merge_with_parent :: "siblings \<Rightarrow> element \<Rightarrow> siblings" where
  "merge_with_parent ctx e =
     (let full_text = replace_element_text e in
      case ctx of (ptext, prev) \<Rightarrow>
        if prev \<noteq> []
        then (ptext, butlast prev @ [set_tail (join_text (tail (last prev)) full_text) (last prev)])
        else (join_text ptext full_text, []))"

text \<open>
  xml.py, xmltotxt, lines 197-199: the loop over \<open>xmloutput.xpath('//hi|//link')\<close>.
  The query lists the elements before the loop starts, in document order. An element
  of the list that lies below a removed one is merged into a parent that is no longer
  part of the tree, which leaves the tree as it is; the recursion therefore does not
  descend into a removed element. \<open>xmloutput\<close> is the root of its tree at every call
  site, and a root has no parent to be merged into.
\<close>

fun merge_hi_link :: "siblings \<Rightarrow> element list \<Rightarrow> siblings" where
  "merge_hi_link ctx [] = ctx"
| "merge_hi_link ctx (c # cs) =
     (if tag c = ''hi'' \<or> tag c = ''link''
      then merge_hi_link (merge_with_parent ctx c) cs
      else merge_hi_link
             (fst ctx, snd ctx @ [rebuild c (merge_hi_link (etext c, []) (children c))]) cs)"

text \<open>
  xml.py, xmltotxt, lines 201-220. \<open>sanitize\<close> (utils.py) is not among the sources and is
  a parameter. The model returns the string and the tree as the call leaves it.
\<close>

definition NL :: string where
  "NL = [CHR 0x0A]"

definition txt_pieces :: "element \<Rightarrow> string list" where
  "txt_pieces e =
     (if etext e = None \<and> tail e = None
      then (if tag e \<in> {''row'', ''table''} then [NL] else [])
      else let textelement = replace_element_text e in
        if tag e \<in> {''code'', ''fw'', ''head'', ''lb'', ''list'', ''p'', ''quote'', ''row'', ''table''}
        then [NL, textelement, NL]
        else if tag e = ''item'' then [NL @ ''- '', textelement, NL]
        else if tag e = ''cell'' then [''|'', textelement, ''|'']
        else if tag e = ''comments'' then [NL @ NL]
        else [textelement, '' ''])"

definition xmltotxt :: "(string \<Rightarrow> string) \<Rightarrow> element \<Rightarrow> string \<times> element" where
  "xmltotxt sanitize xmloutput =
     (let merged = rebuild xmloutput (merge_hi_link (etext xmloutput, []) (children xmloutput));
          returnlist = concat (map txt_pieces (iter merged))
      in (sanitize (concat returnlist), merged))"

text \<open>xml.py, lines 24-26.\<close>

definition TEI_VALID_TAGS :: "string list" where
  "TEI_VALID_TAGS = [''body'', ''cell'', ''code'', ''del'', ''div'', ''fw'', ''head'', ''hi'',
     ''item'', ''lb'', ''list'', ''p'', ''quote'', ''row'', ''table'']"

definition TEI_VALID_ATTRS :: "string list" where
  "TEI_VALID_ATTRS = [''rend'', ''rendition'', ''role'', ''type'']"

text \<open>xml.py, check_tei, lines 121-123: every \<open>head\<close> becomes \<open>fw\<close> with type header.\<close>

fun convert_heads :: "element \<Rightarrow> element" where
  "convert_heads (Element t a x cs ta) =
     (if t = ''head''
      then Element ''fw'' (set_attr ''type'' ''header'' a) x (map convert_heads cs) ta
      else Element t a x (map convert_heads cs) ta)"

text \<open>
  xml.py, check_tei, lines 125-137: the loop over \<open>tei.xpath('//text/body//*')\<close>, the
  elements below a \<open>body\<close> that is a child of a \<open>text\<close>. \<open>sel\<close> says that the siblings
  at hand are in that list, \<open>ptext\<close> that their parent's tag is \<open>text\<close>. As in
  xmltotxt, the list is fixed before the loop and an element below a removed one has no
  effect on the tree.
\<close>

definition pop_invalid_attrs :: "element \<Rightarrow> element" where
  "pop_invalid_attrs e =
     Element (tag e) (filter (\<lambda>kv. fst kv \<in> set TEI_VALID_ATTRS) (attrib e)) (etext e)
       (children e) (tail e)"

fun check_tei_list :: "bool \<Rightarrow> bool \<Rightarrow> siblings \<Rightarrow> element list \<Rightarrow> siblings" where
  "check_tei_list sel ptext ctx [] = ctx"
| "check_tei_list sel ptext ctx (c # cs) =
     (if sel \<and> tag c \<notin> set TEI_VALID_TAGS
      then check_tei_list sel ptext (merge_with_parent ctx c) cs
      else check_tei_list sel ptext
             (fst ctx, snd ctx @
               [rebuild (if sel then pop_invalid_attrs c else c)
                  (check_tei_list (sel \<or> (tag c = ''body'' \<and> ptext)) (tag c = ''text'')
                     (etext c, []) (children c))]) cs)"

definition check_tei :: "element \<Rightarrow> element" where
  "check_tei tei =
     (let t = convert_heads tei
      in rebuild t (check_tei_list False (tag t = ''text'') (etext t, []) (children t)))"

text \<open>The elements \<open>tei.xpath('//text/body//*')\<close> returns, in document order.\<close>

fun text_body_desc :: "bool \<Rightarrow> bool \<Rightarrow> element list \<Rightarrow> element list" where
  "text_body_desc sel ptext [] = []"
| "text_body_desc sel ptext (c # cs) =
     (if sel then [c] else []) @
     text_body_desc (sel \<or> (tag c = ''body'' \<and> ptext)) (tag c = ''text'') (children c) @
     text_body_desc sel ptext cs"

definition xpath_text_body_desc :: "element \<Rightarrow> element list" where
  "xpath_text_body_desc t = text_body_desc False (tag t = ''text'') (children t)"

text \<open>xml.py, clean_attributes, lines 46-51.\<close>

fun clean_attributes :: "element \<Rightarrow> element" where
  "clean_attributes (Element t a x cs ta) =
     Element t (if t \<notin> {''del'', ''hi''} then [] else a) x (map clean_attributes cs) ta"

text \<open>
  xml.py, write_teitree, lines 223-244, and build_tei_output, lines 108-115. The header
  element that write_fullheader fills from the metadata is a parameter: it lies outside
  \<open>text/body\<close>.
\<close>

definition write_teitree :: "element \<Rightarrow> element \<Rightarrow> element option \<Rightarrow> element" where
  "write_teitree header postbody commentsbody =
     (let post = set_attrib ''type'' ''entry'' (retag ''div'' (clean_attributes postbody));
          comments =
            (case commentsbody of
               None \<Rightarrow> []
             | Some cb \<Rightarrow>
                 if length (children cb) > 0
                 then [set_attrib ''type'' ''comments'' (retag ''div'' (clean_attributes cb))]
                 else [])
      in Element ''TEI'' [(''xmlns'', ''http://www.tei-c.org/ns/1.0'')] None
           [header,
            Element ''text'' [] None [Element ''body'' [] None (post # comments) None] None]
           None)"

definition build_tei_output :: "element \<Rightarrow> element \<Rightarrow> element option \<Rightarrow> element" where
  "build_tei_output header postbody commentsbody =
     check_tei (write_teitree header postbody commentsbody)"

section \<open>core.py: Step 1 of compare_extraction\<close>

text \<open>
  core.py, compare_extraction, lines 408-420. The if/elif chain sets \<open>algo_flag\<close>;
  the model returns the arm that ran together with the flag it set. The inputs of the
  chain are the two lengths, the result of the query \<open>body.xpath('//p//text()')\<close>
  (\<open>p_text\<close> is True when the query returns a non-empty list) and the constant
  MIN_EXTRACTED_SIZE of settings.py, which is not among the sources and is therefore a
  parameter.
\<close>

datatype arm = Arm1 | Arm2 | Arm3 | Arm4 | Arm5 | Arm6

definition compare_step1 :: "nat \<Rightarrow> nat \<Rightarrow> bool \<Rightarrow> nat \<Rightarrow> arm \<times> bool" where
  "compare_step1 len_text len_algo p_text MIN_EXTRACTED_SIZE =
     (if len_algo = 0 \<or> len_algo = len_text then (Arm1, False)
      else if len_text = 0 \<and> len_algo > 0 then (Arm2, True)
      else if len_text > 2 * len_algo then (Arm3, False)
      else if len_algo > 2 * len_text then (Arm4, True)
      else if \<not> p_text \<and> len_algo > MIN_EXTRACTED_SIZE then (Arm5, True)
      else (Arm6, False))"

text \<open>
  The decision table as the specification words it: the condition of each rule taken
  alone, the outcome of each rule (True: use the generic result), and the rules that
  come before a rule. A rule applies when its condition holds and the condition of no
  earlier rule does.
\<close>

fun rule_cond :: "arm \<Rightarrow> nat \<Rightarrow> nat \<Rightarrow> bool \<Rightarrow> nat \<Rightarrow> bool" where
  "rule_cond Arm1 len_text len_algo p_text m = (len_algo = 0 \<or> len_algo = len_text)"
| "rule_cond Arm2 len_text len_algo p_text m = (len_text = 0 \<and> len_algo > 0)"
| "rule_cond Arm3 len_text len_algo p_text m = (len_text > 2 * len_algo)"
| "rule_cond Arm4 len_text len_algo p_text m = (len_algo > 2 * len_text)"
| "rule_cond Arm5 len_text len_algo p_text m = (\<not> p_text \<and> len_algo > m)"
| "rule_cond Arm6 len_text len_algo p_text m = True"

fun rule_uses_generic :: "arm \<Rightarrow> bool" where
  "rule_uses_generic Arm1 = False"
| "rule_uses_generic Arm2 = True"
| "rule_uses_generic Arm3 = False"
| "rule_uses_generic Arm4 = True"
| "rule_uses_generic Arm5 = True"
| "rule_uses_generic Arm6 = False"

fun earlier_rules :: "arm \<Rightarrow> arm list" where
  "earlier_rules Arm1 = []"
| "earlier_rules Arm2 = [Arm1]"
| "earlier_rules Arm3 = [Arm1, Arm2]"
| "earlier_rules Arm4 = [Arm1, Arm2, Arm3]"
| "earlier_rules Arm5 = [Arm1, Arm2, Arm3, Arm4]"
| "earlier_rules Arm6 = [Arm1, Arm2, Arm3, Arm4, Arm5]"

definition rule_applies :: "arm \<Rightarrow> nat \<Rightarrow> nat \<Rightarrow> bool \<Rightarrow> nat \<Rightarrow> bool" where
  "rule_applies r len_text len_algo p_text m =
     (rule_cond r len_text len_algo p_text m \<and>
      list_all (\<lambda>r'. \<not> rule_cond r' len_text len_algo p_text m) (earlier_rules r))"

section \<open>core.py: bare_extraction and extract\<close>

text \<open>
  Exceptions are values: a function that can raise returns \<open>pyexn + 'a\<close>, with \<open>Inl\<close>
  for the exception. Metadata records are Python dictionaries from field names to
  None, a string or a list of strings.
\<close>

datatype pyexn = ValueError | KeyError | TypeError | AttributeError | IndexError
  | SerialisationError | Unparseable | OtherError

datatype pyval = PyNone | PyStr string | PyList "string list"

type_synonym metadata = "string \<rightharpoonup> pyval"

text \<open>The keyword arguments of bare_extraction (core.py, lines 543-547).\<close>

record ('f, 'dp) arguments =
  arg_filecontent :: 'f
  arg_url :: "string option"
  arg_no_fallback :: bool
  arg_include_comments :: bool
  arg_output_format :: string
  arg_target_language :: "string option"
  arg_include_tables :: bool
  arg_include_formatting :: bool
  arg_deduplicate :: bool
  arg_date_extraction_params :: 'dp
  arg_with_metadata :: bool
  arg_max_tree_size :: "int option"
  arg_url_blacklist :: "pyval set"

text \<open>
  What bare_extraction and extract call. The functions and constants of the modules
  that are not among the sources (utils, metadata, htmlprocessing, filters, settings)
  are fields of a record, and so are the stages defined in core.py itself, whose own
  models follow in later sections: the statements about the orchestration then hold for
  whatever the stages compute. Every stage is a function of the values it is handed; the
  changes that a stage makes in place to the loaded tree are not followed, and no
  statement below depends on them.
\<close>

record ('f, 'dp) collaborators =
  c_load_html :: "'f \<Rightarrow> element option"
  c_extract_metadata :: "element \<Rightarrow> string option \<Rightarrow> 'dp \<Rightarrow> metadata"
  c_METADATA_LIST :: "string list"
  c_tree_cleaning :: "element \<Rightarrow> bool \<Rightarrow> element"
  c_convert_tags :: "element \<Rightarrow> bool \<Rightarrow> bool \<Rightarrow> element"
  c_extract_comments :: "element \<Rightarrow> bool \<Rightarrow> element \<times> string \<times> nat \<times> element"
  c_extract_content :: "element \<Rightarrow> bool \<Rightarrow> bool \<Rightarrow> element \<times> string \<times> nat \<times> bool"
  c_compare_extraction ::
    "element \<Rightarrow> element option \<Rightarrow> string option \<Rightarrow> element \<Rightarrow> string \<Rightarrow> nat \<Rightarrow> string option \<Rightarrow> bool
       \<Rightarrow> element \<times> string \<times> nat"
  c_baseline :: "'f \<Rightarrow> element \<times> string \<times> nat"
  c_MIN_EXTRACTED_SIZE :: nat
  c_MIN_OUTPUT_SIZE :: nat
  c_MIN_OUTPUT_COMM_SIZE :: nat
  c_duplicate_test :: "element \<Rightarrow> bool"
  c_language_filter :: "string \<Rightarrow> string \<Rightarrow> string \<Rightarrow> metadata \<Rightarrow> bool"
  c_content_fingerprint :: "string \<Rightarrow> string"
  c_determine_returnstring ::
    "metadata \<Rightarrow> element \<Rightarrow> element option \<Rightarrow> string \<Rightarrow> bool \<Rightarrow> string"

text \<open>The local variables of bare_extraction when the tree size check is reached.\<close>

record harvest =
  h_docmeta :: metadata
  h_postbody :: element
  h_temp_text :: string
  h_len_text :: nat
  h_commentsbody :: "element option"
  h_temp_comments :: string
  h_len_comments :: nat

text \<open>
  core.py, lines 561-573. \<open>dict.fromkeys(METADATA_LIST)\<close> maps every key to None; a
  subscript with a key that the dictionary lacks raises KeyError.
\<close>

definition fromkeys :: "string list \<Rightarrow> metadata" where
  "fromkeys ks = map_of (map (\<lambda>k. (k, PyNone)) ks)"

definition metadata_step ::
  "('f, 'dp) collaborators \<Rightarrow> ('f, 'dp) arguments \<Rightarrow> element \<Rightarrow> pyexn + metadata" where
  "metadata_step c a tree =
     (if arg_output_format a \<noteq> ''txt''
      then let docmeta = c_extract_metadata c tree (arg_url a) (arg_date_extraction_params a) in
        case docmeta ''url'' of
          None \<Rightarrow> Inl KeyError
        | Some u \<Rightarrow>
            if u \<in> arg_url_blacklist a then Inl ValueError
            else if arg_with_metadata a
            then (case docmeta ''date'' of
                    None \<Rightarrow> Inl KeyError
                  | Some d \<Rightarrow>
                      (case docmeta ''title'' of
                         None \<Rightarrow> Inl KeyError
                       | Some t \<Rightarrow>
                           if d = PyNone \<or> t = PyNone \<or> u = PyNone then Inl ValueError
                           else Inr docmeta))
            else Inr docmeta
      else Inr (fromkeys (c_METADATA_LIST c)))"

text \<open>core.py, lines 555-558 and 576-601.\<close>

definition extraction_step ::
  "('f, 'dp) collaborators \<Rightarrow> ('f, 'dp) arguments \<Rightarrow> element \<Rightarrow> metadata \<Rightarrow> harvest" where
  "extraction_step c a tree docmeta =
     (let backup_tree = (if \<not> arg_no_fallback a then Some tree else None);
          cleaned_tree = c_tree_cleaning c tree (arg_include_tables a);
          cleaned_tree = c_convert_tags c cleaned_tree (arg_include_formatting a) (arg_include_tables a);
          (commentsbody, temp_comments, len_comments, cleaned_tree) =
            (if arg_include_comments a
             then (case c_extract_comments c cleaned_tree (arg_deduplicate a) of
                     (cb, tc, lc, ct) \<Rightarrow> (Some cb, tc, lc, ct))
             else (None, [], 0, cleaned_tree));
          (postbody, temp_text, len_text, sure_thing) =
            c_extract_content c cleaned_tree (arg_include_tables a) (arg_deduplicate a);
          (postbody, temp_text, len_text) =
            (if \<not> arg_no_fallback a
             then c_compare_extraction c tree backup_tree (arg_url a) postbody temp_text len_text
                    (arg_target_language a) (arg_include_formatting a)
             else if \<not> sure_thing \<and> len_text < c_MIN_EXTRACTED_SIZE c
             then c_baseline c (arg_filecontent a)
             else (postbody, temp_text, len_text))
      in \<lparr> h_docmeta = docmeta, h_postbody = postbody, h_temp_text = temp_text,
           h_len_text = len_text, h_commentsbody = commentsbody,
           h_temp_comments = temp_comments, h_len_comments = len_comments \<rparr>)"

text \<open>
  core.py, lines 604-610. \<open>len(postbody)\<close> is the number of child elements of the
  body; \<open>etree.strip_tags(postbody, 'hi')\<close> changes the body in place, so the stripped
  body is the one the later steps see.
\<close>

definition tree_size_check :: "int option \<Rightarrow> element \<Rightarrow> pyexn + element" where
  "tree_size_check max_tree_size postbody =
     (case max_tree_size of
        None \<Rightarrow> Inr postbody
      | Some m \<Rightarrow>
          if int (length (children postbody)) > m
          then (let stripped = strip_tags [''hi''] postbody
                in if int (length (children stripped)) > m then Inl ValueError else Inr stripped)
          else Inr postbody)"

text \<open>core.py, lines 612-625 and the return of line 630.\<close>

definition final_checks ::
  "('f, 'dp) collaborators \<Rightarrow> ('f, 'dp) arguments \<Rightarrow> harvest \<Rightarrow> element
     \<Rightarrow> pyexn + metadata \<times> string \<times> element \<times> element option" where
  "final_checks c a h postbody =
     (if h_len_text h < c_MIN_OUTPUT_SIZE c \<and> h_len_comments h < c_MIN_OUTPUT_COMM_SIZE c
      then Inl ValueError
      else if arg_deduplicate a \<and> c_duplicate_test c postbody then Inl ValueError
      else if (case arg_target_language a of
                 None \<Rightarrow> False
               | Some l \<Rightarrow> c_language_filter c (h_temp_text h) (h_temp_comments h) l (h_docmeta h))
      then Inl ValueError
      else Inr (h_docmeta h, h_temp_text h, postbody, h_commentsbody h))"

text \<open>
  The body of the \<open>try\<close> (lines 550-625), and bare_extraction with its handler (lines
  627-630): a ValueError becomes the tuple of four None, any other exception passes.
\<close>

definition bare_extraction_try ::
  "('f, 'dp) collaborators \<Rightarrow> ('f, 'dp) arguments
     \<Rightarrow> pyexn + metadata \<times> string \<times> element \<times> element option" where
  "bare_extraction_try c a =
     (case c_load_html c (arg_filecontent a) of
        None \<Rightarrow> Inl ValueError
      | Some tree \<Rightarrow>
          (case metadata_step c a tree of
             Inl e \<Rightarrow> Inl e
           | Inr docmeta \<Rightarrow>
               (let h = extraction_step c a tree docmeta in
                case tree_size_check (arg_max_tree_size a) (h_postbody h) of
                  Inl e \<Rightarrow> Inl e
                | Inr postbody \<Rightarrow> final_checks c a h postbody)))"

definition bare_extraction ::
  "('f, 'dp) collaborators \<Rightarrow> ('f, 'dp) arguments
     \<Rightarrow> pyexn + metadata option \<times> string option \<times> element option \<times> element option" where
  "bare_extraction c a =
     (case bare_extraction_try c a of
        Inl e \<Rightarrow> if e = ValueError then Inr (None, None, None, None) else Inl e
      | Inr (docmeta, temp_text, postbody, commentsbody) \<Rightarrow>
          Inr (Some docmeta, Some temp_text, Some postbody, commentsbody))"




section \<open>xml.py: build_json_output\<close>

text \<open>
  xml.py, build_json_output, lines 32-42. \<open>outputdict = docmeta\<close> binds a second name
  to the caller's dictionary, so every assignment below changes that dictionary; the
  model returns it as the call leaves it, with the two trees as xmltotxt leaves them.
  \<open>dict.pop\<close> and a subscript raise KeyError on a missing key; \<open>';'.join\<close> raises
  TypeError on None, joins the items of a list and the characters of a string;
  \<open>xmltotxt(None)\<close> raises AttributeError. \<open>json.dumps\<close> is a parameter.
\<close>

definition dict_pop :: "metadata \<Rightarrow> string \<Rightarrow> pyexn + pyval \<times> metadata" where
  "dict_pop d k = (case d k of None \<Rightarrow> Inl KeyError | Some v \<Rightarrow> Inr (v, d(k := None)))"

fun str_join :: "string \<Rightarrow> string list \<Rightarrow> string" where
  "str_join sep [] = []"
| "str_join sep [x] = x"
| "str_join sep (x # y # ys) = x @ sep @ str_join sep (y # ys)"

definition py_join :: "string \<Rightarrow> pyval \<Rightarrow> pyexn + string" where
  "py_join sep v =
     (case v of
        PyNone \<Rightarrow> Inl TypeError
      | PyStr s \<Rightarrow> Inr (str_join sep (map (\<lambda>ch. [ch]) s))
      | PyList xs \<Rightarrow> Inr (str_join sep xs))"

definition join_field :: "metadata \<Rightarrow> string \<Rightarrow> pyexn + metadata" where
  "join_field d k =
     (case d k of
        None \<Rightarrow> Inl KeyError
      | Some v \<Rightarrow> (case py_join '';'' v of Inl e \<Rightarrow> Inl e | Inr s \<Rightarrow> Inr (d(k \<mapsto> PyStr s))))"

definition rename_field :: "metadata \<Rightarrow> string \<Rightarrow> string \<Rightarrow> pyexn + metadata" where
  "rename_field d old new =
     (case dict_pop d old of Inl e \<Rightarrow> Inl e | Inr (v, d') \<Rightarrow> Inr (d'(new \<mapsto> v)))"

definition rename_and_join :: "metadata \<Rightarrow> pyexn + metadata" where
  "rename_and_join docmeta =
     (case rename_field docmeta ''url'' ''source'' of Inl e \<Rightarrow> Inl e | Inr d1 \<Rightarrow>
      case rename_field d1 ''hostname'' ''source-hostname'' of Inl e \<Rightarrow> Inl e | Inr d2 \<Rightarrow>
      case rename_field d2 ''description'' ''excerpt'' of Inl e \<Rightarrow> Inl e | Inr d3 \<Rightarrow>
      case join_field d3 ''categories'' of Inl e \<Rightarrow> Inl e | Inr d4 \<Rightarrow>
      join_field d4 ''tags'')"

definition build_json_output ::
  "(string \<Rightarrow> string) \<Rightarrow> (metadata \<Rightarrow> 'j) \<Rightarrow> metadata \<Rightarrow> element \<Rightarrow> element option
     \<Rightarrow> pyexn + 'j \<times> metadata \<times> element \<times> element" where
  "build_json_output sanitize json_dumps docmeta postbody commentsbody =
     (case rename_and_join docmeta of Inl e \<Rightarrow> Inl e | Inr d5 \<Rightarrow>
      case xmltotxt sanitize postbody of (posttext, postbody') \<Rightarrow>
      let d6 = d5(''text'' \<mapsto> PyStr posttext) in
      case commentsbody of None \<Rightarrow> Inl AttributeError | Some cb \<Rightarrow>
      case xmltotxt sanitize cb of (commentstext, commentsbody') \<Rightarrow>
      let outputdict = d6(''comments'' \<mapsto> PyStr commentstext) in
      Inr (json_dumps outputdict, outputdict, postbody', commentsbody'))"


section \<open>external.py and compare_extraction\<close>

text \<open>
  What the fallback helpers call: the body of the \<open>try\<close> in try_readability (the
  readability document's summary and its parsing), the serialisation of the tree by
  \<open>html.tostring\<close>, the table JUSTEXT_LANGUAGES (settings.py), the stop list lookup
  \<open>justext.get_stoplist\<close>, the justext classifier, \<open>trim\<close> (utils.py), the threshold of
  settings.py, and sanitize_tree, which is taken as a function that returns. A call that
  can raise returns \<open>pyexn + 'a\<close>.
\<close>

record ('l, 'sl, 'h) algorithms =
  a_readability :: "element \<Rightarrow> string option \<Rightarrow> pyexn + element"
  a_tostring :: "element \<Rightarrow> pyexn + 'h"
  a_JUSTEXT_LANGUAGES :: "string \<rightharpoonup> 'l"
  a_get_stoplist :: "'l \<Rightarrow> pyexn + 'sl"
  a_JT_STOPLIST :: 'sl
  a_justext :: "'h \<Rightarrow> 'sl \<Rightarrow> pyexn + (string \<times> bool) list"
  a_trim :: "string \<Rightarrow> string"
  a_sanitize_tree :: "element \<Rightarrow> bool \<Rightarrow> element \<times> string \<times> nat"
  a_MIN_EXTRACTED_SIZE :: nat

text \<open>external.py, line 43: the tags of the query SANITIZED_XPATH.\<close>

definition SANITIZED_XPATH :: "string list" where
  "SANITIZED_XPATH = [''aside'', ''audio'', ''button'', ''fieldset'', ''figure'', ''footer'',
     ''iframe'', ''img'', ''image'', ''input'', ''label'', ''link'', ''nav'', ''noindex'',
     ''noscript'', ''object'', ''option'', ''select'', ''source'', ''svg'', ''time'']"

text \<open>
  external.py, try_readability, lines 55-68: the handler catches SerialisationError
  and Unparseable and returns an empty \<open>div\<close>; any other exception passes.
\<close>

definition try_readability ::
  "('l, 'sl, 'h) algorithms \<Rightarrow> element \<Rightarrow> string option \<Rightarrow> pyexn + element" where
  "try_readability alg htmlinput url' =
     (case a_readability alg htmlinput url' of
        Inr e \<Rightarrow> Inr e
      | Inl ex \<Rightarrow>
          if ex = SerialisationError \<or> ex = Unparseable
          then Inr (Element ''div'' [] None [] None)
          else Inl ex)"

text \<open>
  external.py, try_justext, lines 78-101. The serialisation of line 81 and the stop
  list of lines 83-88 come before the \<open>try\<close> of line 90: what they raise leaves
  try_justext. The \<open>try\<close> holds the classifier call only; a ValueError there makes the
  result None, and otherwise the paragraphs that are not boilerplate become the \<open>p\<close>
  children of a new body. A paragraph is its text and its boilerplate flag.
\<close>

definition justext_stoplist ::
  "('l, 'sl, 'h) algorithms \<Rightarrow> string option \<Rightarrow> pyexn + 'sl" where
  "justext_stoplist alg target_language =
     (case target_language of
        None \<Rightarrow> Inr (a_JT_STOPLIST alg)
      | Some l \<Rightarrow>
          (case a_JUSTEXT_LANGUAGES alg l of
             None \<Rightarrow> Inr (a_JT_STOPLIST alg)
           | Some langsetting \<Rightarrow> a_get_stoplist alg langsetting))"

definition try_justext ::
  "('l, 'sl, 'h) algorithms \<Rightarrow> element \<Rightarrow> string option \<Rightarrow> string option
     \<Rightarrow> pyexn + element option" where
  "try_justext alg tree url' target_language =
     (case a_tostring alg tree of
        Inl ex \<Rightarrow> Inl ex
      | Inr justtextstring \<Rightarrow>
          (case justext_stoplist alg target_language of
             Inl ex \<Rightarrow> Inl ex
           | Inr stoplist \<Rightarrow>
               (case a_justext alg justtextstring stoplist of
                  Inl ex \<Rightarrow> if ex = ValueError then Inr None else Inl ex
                | Inr paragraphs \<Rightarrow>
                    Inr (Some (Element ''body'' [] None
                           (map (\<lambda>p. Element ''p'' [] (Some (fst p)) [] None)
                              (filter (\<lambda>p. \<not> snd p) paragraphs))
                           None)))))"

text \<open>external.py, justext_rescue, lines 104-114.\<close>

definition justext_rescue ::
  "('l, 'sl, 'h) algorithms \<Rightarrow> element \<Rightarrow> string option \<Rightarrow> string option \<Rightarrow> element \<Rightarrow> nat \<Rightarrow> string
     \<Rightarrow> pyexn + element \<times> string \<times> nat \<times> bool" where
  "justext_rescue alg tree url' target_language postbody len_text text' =
     (case try_justext alg tree url' target_language of
        Inl ex \<Rightarrow> Inl ex
      | Inr None \<Rightarrow> Inr (postbody, text', len_text, False)
      | Inr (Some temppost_algo) \<Rightarrow>
          (let temp_text = a_trim alg (str_join '' '' (itertext temppost_algo));
               len_algo = length temp_text
           in if len_algo > len_text then Inr (temppost_algo, temp_text, len_algo, True)
              else Inr (postbody, text', len_text, False)))"

text \<open>
  The queries of compare_extraction on the body, which is the root of its tree:
  \<open>//p//text()\<close>, the texts and tails below the \<open>p\<close> elements, and SANITIZED_XPATH, the
  elements with one of its tags. Only whether they return anything is used.
\<close>

definition xpath_p_text :: "element \<Rightarrow> string list" where
  "xpath_p_text body = concat (map itertext (filter (\<lambda>e. tag e = ''p'') (iter body)))"

definition xpath_sanitized :: "element \<Rightarrow> element list" where
  "xpath_sanitized body = filter (\<lambda>e. tag e \<in> set SANITIZED_XPATH) (iter body)"

text \<open>core.py, compare_extraction, lines 395-452; Step 1 is \<open>compare_step1\<close>.\<close>

definition compare_extraction ::
  "('l, 'sl, 'h) algorithms \<Rightarrow> element \<Rightarrow> element \<Rightarrow> string option \<Rightarrow> element \<Rightarrow> string \<Rightarrow> nat
     \<Rightarrow> string option \<Rightarrow> bool \<Rightarrow> pyexn + element \<times> string \<times> nat" where
  "compare_extraction alg tree backup_tree url' body text' len_text target_language
     include_formatting =
     (case try_readability alg backup_tree url' of
        Inl ex \<Rightarrow> Inl ex
      | Inr temppost_algo \<Rightarrow>
          (let algo_text = a_trim alg (str_join '' '' (itertext temppost_algo));
               len_algo = length algo_text;
               algo_flag = snd (compare_step1 len_text len_algo (xpath_p_text body \<noteq> [])
                                  (a_MIN_EXTRACTED_SIZE alg));
               (body, text', len_text) =
                 (if algo_flag then (temppost_algo, algo_text, len_algo)
                  else (body, text', len_text))
           in if xpath_sanitized body \<noteq> []
              then (case justext_rescue alg tree url' target_language body 0 [] of
                      Inl ex \<Rightarrow> Inl ex
                    | Inr (body2, text2, len_text2, jt_result) \<Rightarrow>
                        if jt_result then Inr (body2, text2, len_text2)
                        else Inr (a_sanitize_tree alg body include_formatting))
              else if len_text < a_MIN_EXTRACTED_SIZE alg
              then (case justext_rescue alg tree url' target_language body len_text text' of
                      Inl ex \<Rightarrow> Inl ex
                    | Inr (body2, text2, len_text2, jt_result) \<Rightarrow>
                        if \<not> jt_result then Inr (a_sanitize_tree alg body2 include_formatting)
                        else Inr (body2, text2, len_text2))
              else if algo_flag then Inr (a_sanitize_tree alg body include_formatting)
              else Inr (body, text', len_text)))"


section \<open>core.py: handle_table\<close>

text \<open>
  core.py, handle_table, lines 198-236. \<open>process_node\<close> (htmlprocessing.py) is taken
  as a function from the element to the processed element, None when it rejects it; it
  changes no tag and no child, so the elements that the loop visits are those of the
  table after \<open>strip_tags\<close>. The loop runs over \<open>table_elem.iter()\<close> with the counter
  \<open>i\<close>, the rows appended to the new table and the cells of the row being filled; it
  stops at an element \<open>table\<close> that is not the first element visited. Only the new
  table is returned.
\<close>

definition new_row :: "element list \<Rightarrow> element" where
  "new_row cells = Element ''row'' [] None cells None"

definition new_cell :: "element \<Rightarrow> string option \<Rightarrow> element" where
  "new_cell subelement s =
     Element ''cell'' (if tag subelement = ''th'' then [(''role'', ''head'')] else []) s [] None"

fun table_loop ::
  "(element \<Rightarrow> element option) \<Rightarrow> nat \<Rightarrow> element list \<Rightarrow> element list \<times> element list \<Rightarrow>
   element list \<times> element list" where
  "table_loop process_node i [] (newtable, newrow) = (newtable, newrow)"
| "table_loop process_node i (subelement # rest) (newtable, newrow) =
     (if tag subelement = ''tr''
      then (if newrow \<noteq> []
            then table_loop process_node (i + 1) rest (newtable @ [new_row newrow], [])
            else table_loop process_node (i + 1) rest (newtable, newrow))
      else if tag subelement = ''td'' \<or> tag subelement = ''th''
      then (case process_node subelement of
              None \<Rightarrow> table_loop process_node (i + 1) rest (newtable, newrow)
            | Some processed_cell \<Rightarrow>
                if etext processed_cell = None \<or> etext processed_cell = Some []
                then table_loop process_node (i + 1) rest (newtable, newrow)
                else table_loop process_node (i + 1) rest
                       (newtable, newrow @ [new_cell subelement (etext processed_cell)]))
      else if tag subelement = ''table'' \<and> i + 1 > 1
      then (newtable, newrow)
      else table_loop process_node (i + 1) rest (newtable, newrow))"

definition handle_table :: "(element \<Rightarrow> element option) \<Rightarrow> element \<Rightarrow> element option" where
  "handle_table process_node table_elem =
     (case table_loop process_node 0
             (iter (strip_tags [''thead'', ''tbody'', ''tfoot''] table_elem)) ([], []) of
        (newtable, newrow) \<Rightarrow>
          let newtable = (if newrow \<noteq> [] then newtable @ [new_row newrow] else newtable)
          in if newtable \<noteq> [] then Some (Element ''table'' [] None newtable None) else None)"


section \<open>core.py: extract_comments\<close>

text \<open>
  core.py, extract_comments, lines 362-392. The queries of COMMENTS_XPATH (xpaths.py)
  and their evaluation, \<open>discard_unwanted_comments\<close> (htmlprocessing.py), TAG_CATALOG
  (settings.py) and \<open>trim\<close> (utils.py) are parameters. The pruning works on the matched
  subtree in place and returns it. Lines 382-383 call process_comments_node on the
  elements of \<open>.//*\<close> and move what it returns to the comments body; what this leaves of
  the subtree depends on \<open>handle_textnode\<close> (htmlprocessing.py), so both together are
  the function \<open>k_process_comments\<close>, from the subtree to the elements added and the
  subtree as it is left. When \<open>.//*\<close> is empty nothing is called.
\<close>

record 'q comments_steps =
  k_COMMENTS_XPATH :: "'q list"
  k_matches :: "'q \<Rightarrow> element \<Rightarrow> nat list \<Rightarrow> bool"
  k_discard_unwanted_comments :: "element \<Rightarrow> element"
  k_TAG_CATALOG :: "string set"
  k_process_comments :: "string set \<Rightarrow> bool \<Rightarrow> element \<Rightarrow> element list \<times> element"
  k_trim :: "string \<Rightarrow> string"

definition comments_of_subtree ::
  "'q comments_steps \<Rightarrow> bool \<Rightarrow> element \<Rightarrow> element list \<times> element" where
  "comments_of_subtree k dedupbool subtree =
     (let subtree = k_discard_unwanted_comments k subtree;
          subtree = strip_tags [''a'', ''link'', ''span''] subtree
      in if children subtree = [] then ([], subtree)
         else k_process_comments k (k_TAG_CATALOG k) dedupbool subtree)"

fun comments_loop ::
  "'q comments_steps \<Rightarrow> bool \<Rightarrow> 'q list \<Rightarrow> element list \<Rightarrow> element \<Rightarrow>
   pyexn + element list \<times> element" where
  "comments_loop k dedupbool [] comments_body t = Inr (comments_body, t)"
| "comments_loop k dedupbool (expr # exprs) comments_body t =
     (case xpath (k_matches k) expr t of
        [] \<Rightarrow> comments_loop k dedupbool exprs comments_body t
      | match # others \<Rightarrow>
          (case comments_of_subtree k dedupbool (snd match) of
             (processed_elems, subtree) \<Rightarrow>
               if comments_body @ processed_elems \<noteq> []
               then (case remove_at (fst match) (put_at (fst match) subtree t) of
                       None \<Rightarrow> Inl AttributeError
                     | Some t' \<Rightarrow> Inr (comments_body @ processed_elems, t'))
               else comments_loop k dedupbool exprs (comments_body @ processed_elems)
                      (put_at (fst match) subtree t)))"

definition extract_comments ::
  "'q comments_steps \<Rightarrow> element \<Rightarrow> bool \<Rightarrow> pyexn + element \<times> string \<times> nat \<times> element" where
  "extract_comments k t dedupbool =
     (case comments_loop k dedupbool (k_COMMENTS_XPATH k) [] t of
        Inl e \<Rightarrow> Inl e
      | Inr (elems, t') \<Rightarrow>
          let comments_body = Element ''body'' [] None elems None;
              temp_comments = k_trim k (str_join '' '' (itertext comments_body))
          in Inr (comments_body, temp_comments, length temp_comments, t'))"


section \<open>core.py: extract_content\<close>

text \<open>
  core.py, extract_content, lines 279-345, and recover_wild_paragraphs, lines 239-248.
  The queries of BODY_XPATH (xpaths.py) and their evaluation, \<open>discard_unwanted\<close> and
  the link density tests (htmlprocessing.py), TAG_CATALOG and MIN_EXTRACTED_SIZE
  (settings.py) and \<open>trim\<close> (utils.py) are parameters. The pruning of line 293 and the
  removals by link density of lines 295-307 work on the matched subtree in place. Lines
  319-321 call handle_textelem on the elements of \<open>.//*\<close> and line 246 calls
  handle_paragraphs on the paragraph elements of the document; what these calls return
  and what they leave of the tree depends on \<open>process_node\<close> and \<open>handle_textnode\<close>
  (htmlprocessing.py), so each list comprehension is a function, from the potential
  tags, the deduplication flag and the tree to the elements that are not None and the
  tree as it is left. Over an empty list nothing is called. The query \<open>//p//text()\<close> of
  line 312 is absolute: it is evaluated on the whole document, whose root is \<open>tree\<close>.
\<close>

record 'q content_steps =
  b_BODY_XPATH :: "'q list"
  b_matches :: "'q \<Rightarrow> element \<Rightarrow> nat list \<Rightarrow> bool"
  b_discard_unwanted :: "element \<Rightarrow> element"
  b_link_density_removal :: "bool \<Rightarrow> element \<Rightarrow> element"
  b_TAG_CATALOG :: "string set"
  b_handle_textelems :: "string set \<Rightarrow> bool \<Rightarrow> element \<Rightarrow> element list \<times> element"
  b_handle_paragraphs :: "string set \<Rightarrow> bool \<Rightarrow> element \<Rightarrow> element list \<times> element"
  b_trim :: "string \<Rightarrow> string"
  b_MIN_EXTRACTED_SIZE :: nat

text \<open>
  Lines 323-328: the trailing \<open>head\<close> elements without tail are removed from the end of
  the body; when the body runs empty, \<open>result_body[-1]\<close> raises IndexError, the value
  None here.
\<close>

function remove_trailing_titles :: "element list \<Rightarrow> element list option" where
  "remove_trailing_titles result_body =
     (if result_body = [] then None
      else if tag (last result_body) = ''head'' \<and> tail (last result_body) = None
      then remove_trailing_titles (butlast result_body)
      else Some result_body)"
  by pat_completeness auto

termination remove_trailing_titles
  by (relation "measure length") auto

declare remove_trailing_titles.simps [simp del]

text \<open>
  The body of the loop over BODY_XPATH for one query, lines 287-328, from the children
  of \<open>result_body\<close> and the document to what they are when the body of the loop is
  left, by \<open>continue\<close> or at the test of line 330.
\<close>

datatype flow = Continue | Fallthrough

definition content_step ::
  "'q content_steps \<Rightarrow> bool \<Rightarrow> bool \<Rightarrow> 'q \<Rightarrow> element list \<Rightarrow> element
     \<Rightarrow> flow \<times> element list \<times> element" where
  "content_step b include_tables deduplicate expr result_body t =
     (case xpath (b_matches b) expr t of
        [] \<Rightarrow> (Continue, result_body, t)
      | match # others \<Rightarrow>
          (let subtree = b_discard_unwanted b (snd match);
               subtree = b_link_density_removal b include_tables subtree;
               t = put_at (fst match) subtree t
           in if children subtree = [] then (Continue, result_body, t)
              else
                (let potential_tags =
                       b_TAG_CATALOG b \<union> (if include_tables then {''table''} else {}) \<union>
                       (if xpath_p_text t = [] then {''div''} else {});
                     subtree = strip_tags [''link'', ''span''] subtree;
                     harvest = (if children subtree = [] then ([], subtree)
                                else b_handle_textelems b potential_tags deduplicate subtree);
                     result_body = result_body @ fst harvest;
                     t = put_at (fst match) (snd harvest) t
                 in (case remove_trailing_titles result_body of
                       None \<Rightarrow> (Continue, [], t)
                     | Some result_body \<Rightarrow> (Fallthrough, result_body, t)))))"

fun content_loop ::
  "'q content_steps \<Rightarrow> bool \<Rightarrow> bool \<Rightarrow> 'q list \<Rightarrow> element list \<Rightarrow> bool \<Rightarrow> element
     \<Rightarrow> element list \<times> bool \<times> element" where
  "content_loop b include_tables deduplicate [] result_body sure_thing t =
     (result_body, sure_thing, t)"
| "content_loop b include_tables deduplicate (expr # exprs) result_body sure_thing t =
     (case content_step b include_tables deduplicate expr result_body t of
        (Continue, result_body, t) \<Rightarrow>
          content_loop b include_tables deduplicate exprs result_body sure_thing t
      | (Fallthrough, result_body, t) \<Rightarrow>
          if length result_body > 0 then (result_body, True, t)
          else content_loop b include_tables deduplicate exprs result_body sure_thing t)"

text \<open>core.py, recover_wild_paragraphs, lines 239-248, with the default potential tags.\<close>

definition recover_wild_paragraphs ::
  "'q content_steps \<Rightarrow> element \<Rightarrow> element list \<Rightarrow> bool \<Rightarrow> element list \<times> element" where
  "recover_wild_paragraphs b t result_body deduplicate =
     (let search_tree = b_discard_unwanted b t;
          search_tree = strip_tags [''a'', ''link'', ''span''] search_tree;
          processed =
            (if filter (\<lambda>e. tag e \<in> {''blockquote'', ''code'', ''p'', ''pre'', ''q'', ''quote''})
                  (iter search_tree) = []
             then ([], search_tree)
             else b_handle_paragraphs b (b_TAG_CATALOG b) deduplicate search_tree)
      in (result_body @ fst processed, snd processed))"

text \<open>
  \<open>etree.strip_elements(tree, tag)\<close>: the elements with the tag below the root are
  removed with their subtree and their tail.
\<close>

fun strip_elements_list :: "string \<Rightarrow> element list \<Rightarrow> element list" where
  "strip_elements_list tg [] = []"
| "strip_elements_list tg (c # cs) =
     (if tag c = tg then strip_elements_list tg cs
      else Element (tag c) (attrib c) (etext c) (strip_elements_list tg (children c)) (tail c) #
           strip_elements_list tg cs)"

definition strip_elements :: "string \<Rightarrow> element \<Rightarrow> element" where
  "strip_elements tg e =
     Element (tag e) (attrib e) (etext e) (strip_elements_list tg (children e)) (tail e)"

text \<open>
  extract_content: the loop, the recovery of lines 335-340, the filter of lines 342-343.
  The document as it is left is returned after the four values of the tuple.
\<close>

definition extract_content ::
  "'q content_steps \<Rightarrow> element \<Rightarrow> bool \<Rightarrow> bool
     \<Rightarrow> element \<times> string \<times> nat \<times> bool \<times> element" where
  "extract_content b t include_tables deduplicate =
     (case content_loop b include_tables deduplicate (b_BODY_XPATH b) [] False t of
        (result_body, sure_thing, t) \<Rightarrow>
          (let temp_text =
                 b_trim b (str_join '' '' (itertext (Element ''body'' [] None result_body None)));
               len_text = length temp_text;
               recovered =
                 (if length result_body = 0 \<or> len_text < b_MIN_EXTRACTED_SIZE b
                  then (case recover_wild_paragraphs b t result_body deduplicate of
                          (result_body, t) \<Rightarrow>
                            (let temp_text = b_trim b (str_join '' ''
                                   (itertext (Element ''body'' [] None result_body None)))
                             in (result_body, temp_text, length temp_text, t)))
                  else (result_body, temp_text, len_text, t))
           in (case recovered of
                 (result_body, temp_text, len_text, t) \<Rightarrow>
                   (strip_tags [''div'']
                      (strip_elements ''done'' (Element ''body'' [] None result_body None)),
                    temp_text, len_text, sure_thing, t))))"

section \<open>Observations on trees\<close>

text \<open>
  The functions of this section are not part of the program; the properties are stated
  with them. The total text of an element is the concatenation of \<open>itertext\<close>; two
  texts are equal up to the space join when they agree after their spaces are removed.
\<close>

definition opt_str :: "string option \<Rightarrow> string" where
  "opt_str s = (case s of None \<Rightarrow> [] | Some x \<Rightarrow> x)"

definition elem_text :: "element \<Rightarrow> string" where
  "elem_text e = concat (itertext e)"

definition siblings_text :: "element list \<Rightarrow> string" where
  "siblings_text cs = concat (map (\<lambda>c. elem_text c @ opt_str (tail c)) cs)"

definition ctx_text :: "siblings \<Rightarrow> string" where
  "ctx_text ctx = opt_str (fst ctx) @ siblings_text (snd ctx)"

definition nonspace :: "string \<Rightarrow> string" where
  "nonspace s = filter (\<lambda>c. c \<noteq> CHR '' '') s"

text \<open>The tags of all elements of a forest, in document order, and their number.\<close>

definition tags_below :: "element list \<Rightarrow> string list" where
  "tags_below cs = map tag (concat (map iter cs))"

fun node_count :: "element list \<Rightarrow> nat" where
  "node_count [] = 0"
| "node_count (c # cs) = Suc (node_count (children c) + node_count cs)"

text \<open>
  What is left of the text of a forest when every \<open>hi\<close> and \<open>link\<close> element keeps its
  own text and tail and loses what is below it.
\<close>

fun kept_hi_link :: "element list \<Rightarrow> string" where
  "kept_hi_link [] = []"
| "kept_hi_link (c # cs) =
     (if tag c = ''hi'' \<or> tag c = ''link''
      then opt_str (etext c) @ opt_str (tail c)
      else opt_str (etext c) @ kept_hi_link (children c) @ opt_str (tail c)) @ kept_hi_link cs"

text \<open>
  The same for the elements that check_tei removes: the elements of the query
  \<open>//text/body//*\<close> whose tag is not a TEI tag. \<open>tei_kept_elems\<close> lists the elements of
  the query that are neither removed nor below a removed element.
\<close>

fun tei_kept_text :: "bool \<Rightarrow> bool \<Rightarrow> element list \<Rightarrow> string" where
  "tei_kept_text sel ptext [] = []"
| "tei_kept_text sel ptext (c # cs) =
     (if sel \<and> tag c \<notin> set TEI_VALID_TAGS
      then opt_str (etext c) @ opt_str (tail c)
      else opt_str (etext c) @
           tei_kept_text (sel \<or> (tag c = ''body'' \<and> ptext)) (tag c = ''text'') (children c) @
           opt_str (tail c)) @
     tei_kept_text sel ptext cs"

fun tei_kept_elems :: "bool \<Rightarrow> bool \<Rightarrow> element list \<Rightarrow> element list" where
  "tei_kept_elems sel ptext [] = []"
| "tei_kept_elems sel ptext (c # cs) =
     (if sel \<and> tag c \<notin> set TEI_VALID_TAGS then []
      else (if sel then [c] else []) @
           tei_kept_elems (sel \<or> (tag c = ''body'' \<and> ptext)) (tag c = ''text'') (children c)) @
     tei_kept_elems sel ptext cs"

definition tei_surviving_text :: "element \<Rightarrow> string" where
  "tei_surviving_text t = opt_str (etext t) @ tei_kept_text False (tag t = ''text'') (children t)"

definition tei_surviving_elems :: "element \<Rightarrow> element list" where
  "tei_surviving_elems t = tei_kept_elems False (tag t = ''text'') (children t)"

definition tag_attrib :: "element \<Rightarrow> string \<times> (string \<times> string) list" where
  "tag_attrib e = (tag e, attrib e)"

definition tag_valid_attrib :: "element \<Rightarrow> string \<times> (string \<times> string) list" where
  "tag_valid_attrib e = (tag e, filter (\<lambda>kv. fst kv \<in> set TEI_VALID_ATTRS) (attrib e))"


section \<open>The discard conditions\<close>








text \<open>Inputs for the examples.\<close>

definition example_collaborators :: "(element option, unit) collaborators" where
  "example_collaborators =
     \<lparr> c_load_html = (\<lambda>f. f),
       c_extract_metadata = (\<lambda>t u dp.
          [''url'' \<mapsto> (case u of None \<Rightarrow> PyNone | Some s \<Rightarrow> PyStr s),
           ''date'' \<mapsto> PyNone, ''title'' \<mapsto> PyStr ''T'']),
       c_METADATA_LIST = [''title'', ''author'', ''url'', ''date''],
       c_tree_cleaning = (\<lambda>t b. t),
       c_convert_tags = (\<lambda>t b1 b2. t),
       c_extract_comments = (\<lambda>t d. (Element ''body'' [] None [] None, [], 0, t)),
       c_extract_content = (\<lambda>t it d.
          (Element ''body'' [] None (children t) None, elem_text t, length (elem_text t), True)),
       c_compare_extraction = (\<lambda>t backup u body tx len lang fmt. (body, tx, len)),
       c_baseline = (\<lambda>f. (Element ''body'' [] None [] None, [], 0)),
       c_MIN_EXTRACTED_SIZE = 200,
       c_MIN_OUTPUT_SIZE = 3,
       c_MIN_OUTPUT_COMM_SIZE = 3,
       c_duplicate_test = (\<lambda>e. False),
       c_language_filter = (\<lambda>tx tc l d. False),
       c_content_fingerprint = (\<lambda>s. s),
       c_determine_returnstring = (\<lambda>d p cb fmt tv. elem_text p) \<rparr>"

definition example_arguments ::
  "element option \<Rightarrow> string \<Rightarrow> int option \<Rightarrow> (element option, unit) arguments" where
  "example_arguments f fmt cap =
     \<lparr> arg_filecontent = f, arg_url = Some ''http://a'', arg_no_fallback = False,
       arg_include_comments = True, arg_output_format = fmt, arg_target_language = None,
       arg_include_tables = True, arg_include_formatting = False, arg_deduplicate = False,
       arg_date_extraction_params = (), arg_with_metadata = True, arg_max_tree_size = cap,
       arg_url_blacklist = {} \<rparr>"

definition example_page :: element where
  "example_page =
     Element ''html'' [] None
       [Element ''hi'' [] (Some ''bold'') [] None, Element ''p'' [] (Some ''text'') [] None] None"

definition example_deep_page :: element where
  "example_deep_page =
     Element ''html'' [] None
       [Element ''p'' [] None
          [Element ''hi'' [] (Some ''one'') [] None, Element ''hi'' [] (Some ''two'') [] None,
           Element ''hi'' [] (Some ''three'') [] None] None] None"

section \<open>The metadata record after build_json_output\<close>

text \<open>
  The record that lines 35-39 leave, from the record they are given: the function
  returns exactly when the three keys are present and the two values can be joined.
\<close>

definition renamed_and_joined :: "metadata \<Rightarrow> metadata \<Rightarrow> bool" where
  "renamed_and_joined docmeta d \<longleftrightarrow>
     (\<exists>u h de c t cs ts.
        docmeta ''url'' = Some u \<and> docmeta ''hostname'' = Some h \<and>
        docmeta ''description'' = Some de \<and>
        docmeta ''categories'' = Some c \<and> py_join '';'' c = Inr cs \<and>
        docmeta ''tags'' = Some t \<and> py_join '';'' t = Inr ts \<and>
        d = docmeta(''url'' := None, ''source'' \<mapsto> u, ''hostname'' := None,
              ''source-hostname'' \<mapsto> h, ''description'' := None, ''excerpt'' \<mapsto> de,
              ''categories'' \<mapsto> PyStr cs, ''tags'' \<mapsto> PyStr ts))"

definition example_docmeta :: metadata where
  "example_docmeta =
     [''title'' \<mapsto> PyStr ''T'', ''url'' \<mapsto> PyStr ''http://a'', ''hostname'' \<mapsto> PyStr ''a'',
      ''description'' \<mapsto> PyNone, ''categories'' \<mapsto> PyList [''x'', ''y''],
      ''tags'' \<mapsto> PyList []]"


text \<open>
  Algorithms for the examples: what readability, the stop list lookup and the
  classifier give is chosen, the one configured language is \<open>uk\<close>, and the content
  needs 200 characters.
\<close>

definition example_algorithms ::
  "(pyexn + element) \<Rightarrow> (pyexn + unit) \<Rightarrow> (pyexn + (string \<times> bool) list)
     \<Rightarrow> (string, unit, element) algorithms" where
  "example_algorithms r s j =
     \<lparr> a_readability = (\<lambda>t u. r), a_tostring = (\<lambda>t. Inr t),
       a_JUSTEXT_LANGUAGES = [''uk'' \<mapsto> ''Ukrainian''],
       a_get_stoplist = (\<lambda>l. s), a_JT_STOPLIST = (),
       a_justext = (\<lambda>t sl. j), a_trim = (\<lambda>s. s),
       a_sanitize_tree = (\<lambda>t f. (t, str_join '' '' (itertext t), length (str_join '' '' (itertext t)))),
       a_MIN_EXTRACTED_SIZE = 200 \<rparr>"

section \<open>The rows of a table\<close>

text \<open>
  The table that handle_table builds, read row by row. The elements in scope are the
  table element and its descendants in document order up to the first nested table; the
  \<open>tr\<close> elements split them into rows; a \<open>td\<close> or \<open>th\<close> element whose processed text is
  not empty gives one cell, with the role \<open>head\<close> when it is a \<open>th\<close>; the rows without a
  cell are left out.
\<close>

definition table_scope :: "element \<Rightarrow> element list" where
  "table_scope t = t # takeWhile (\<lambda>e. tag e \<noteq> ''table'') (concat (map iter (children t)))"

fun split_at_tr :: "element list \<Rightarrow> element list list" where
  "split_at_tr [] = [[]]"
| "split_at_tr (e # es) =
     (if tag e = ''tr'' then [] # split_at_tr es
      else (e # hd (split_at_tr es)) # tl (split_at_tr es))"

definition processed_text :: "(element \<Rightarrow> element option) \<Rightarrow> element \<Rightarrow> string" where
  "processed_text process_node e =
     (case process_node e of None \<Rightarrow> [] | Some c \<Rightarrow> opt_str (etext c))"

definition cell_of :: "(element \<Rightarrow> element option) \<Rightarrow> element \<Rightarrow> element list" where
  "cell_of process_node e =
     (if (tag e = ''td'' \<or> tag e = ''th'') \<and> processed_text process_node e \<noteq> []
      then [Element ''cell'' (if tag e = ''th'' then [(''role'', ''head'')] else [])
              (Some (processed_text process_node e)) [] None]
      else [])"

definition cells_of :: "(element \<Rightarrow> element option) \<Rightarrow> element list \<Rightarrow> element list" where
  "cells_of process_node es = concat (map (cell_of process_node) es)"

definition table_rows :: "(element \<Rightarrow> element option) \<Rightarrow> element list \<Rightarrow> element list list" where
  "table_rows process_node es =
     filter (\<lambda>r. r \<noteq> []) (map (cells_of process_node) (split_at_tr es))"

text \<open>
  The table as the specification words it: a row at each row boundary of the table, and
  only the nested tables met after the first row boundary left out, with what is below
  them; the walk goes on after a nested table. \<open>claimed_scope\<close> walks a forest in
  document order and carries whether a \<open>tr\<close> has been met.
\<close>

fun claimed_scope :: "bool \<Rightarrow> element list \<Rightarrow> element list \<times> bool" where
  "claimed_scope seen [] = ([], seen)"
| "claimed_scope seen (c # cs) =
     (if tag c = ''table'' \<and> seen then claimed_scope seen cs
      else (case claimed_scope (seen \<or> tag c = ''tr'') (children c) of
              (below, seen') \<Rightarrow>
                (case claimed_scope seen' cs of
                   (rest, seen'') \<Rightarrow> (c # below @ rest, seen''))))"

definition table_as_claimed :: "(element \<Rightarrow> element option) \<Rightarrow> element \<Rightarrow> element option" where
  "table_as_claimed process_node table_elem =
     (let s = strip_tags [''thead'', ''tbody'', ''tfoot''] table_elem;
          rows = table_rows process_node (s # fst (claimed_scope (tag s = ''tr'') (children s)))
      in if rows = [] then None
         else Some (Element ''table'' [] None (map new_row rows) None))"

text \<open>
  A stand-in for \<open>process_node\<close> that rejects an element without child, text and tail,
  and four tables: a header row with an empty cell above a data row, a table nested in
  the second cell of a row, a table whose only cell is empty, and a table nested in the
  caption, before the first row.
\<close>

definition example_process_node :: "element \<Rightarrow> element option" where
  "example_process_node e =
     (if children e = [] \<and> opt_str (etext e) = [] \<and> opt_str (tail e) = [] then None else Some e)"

definition example_table :: element where
  "example_table =
     Element ''table'' [] None
       [Element ''thead'' [] None
          [Element ''tr'' [] None
             [Element ''th'' [] (Some ''Name'') [] None, Element ''th'' [] None [] None] None] None,
        Element ''tbody'' [] None
          [Element ''tr'' [] None
             [Element ''td'' [] (Some ''ab'') [] None, Element ''td'' [] (Some ''12'') [] None] None]
          None] None"

definition example_nested_table :: element where
  "example_nested_table =
     Element ''table'' [] None
       [Element ''tr'' [] None
          [Element ''td'' [] (Some ''a'') [] None,
           Element ''td'' [] None
             [Element ''table'' [] None
                [Element ''tr'' [] None [Element ''td'' [] (Some ''b'') [] None] None] None] None]
          None,
        Element ''tr'' [] None [Element ''td'' [] (Some ''c'') [] None] None] None"

definition example_empty_table :: element where
  "example_empty_table =
     Element ''table'' [] None
       [Element ''tbody'' [] None
          [Element ''tr'' [] None [Element ''td'' [] None [] None] None] None] None"

definition example_caption_table :: element where
  "example_caption_table =
     Element ''table'' [] None
       [Element ''caption'' [] None
          [Element ''table'' [] None
             [Element ''tr'' [] None [Element ''td'' [] (Some ''x'') [] None] None] None] None,
        Element ''tr'' [] None [Element ''td'' [] (Some ''y'') [] None] None] None"

text \<open>The rows of the new table once the row being filled is appended.\<close>

definition flush :: "element list \<times> element list \<Rightarrow> element list" where
  "flush st = (if snd st \<noteq> [] then fst st @ [new_row (snd st)] else fst st)"


section \<open>The queries of extract_comments\<close>

text \<open>
  What a query does to the element it matched, written out step by step. The subtree
  is pruned by \<open>discard_unwanted_comments\<close> and its \<open>a\<close>, \<open>link\<close> and \<open>span\<close> tags are
  stripped: \<open>stripped_subtree\<close>. If it has no child element then, nothing is found and
  it stays as it is; otherwise the processing of its elements gives the elements found
  and the subtree as it is left.
\<close>

definition stripped_subtree :: "'q comments_steps \<Rightarrow> element \<Rightarrow> element" where
  "stripped_subtree k subtree =
     strip_tags [''a'', ''link'', ''span''] (k_discard_unwanted_comments k subtree)"

definition found_comments :: "'q comments_steps \<Rightarrow> bool \<Rightarrow> element \<Rightarrow> element list" where
  "found_comments k d subtree =
     (if children (stripped_subtree k subtree) = [] then []
      else fst (k_process_comments k (k_TAG_CATALOG k) d (stripped_subtree k subtree)))"

definition left_subtree :: "'q comments_steps \<Rightarrow> bool \<Rightarrow> element \<Rightarrow> element" where
  "left_subtree k d subtree =
     (if children (stripped_subtree k subtree) = [] then stripped_subtree k subtree
      else snd (k_process_comments k (k_TAG_CATALOG k) d (stripped_subtree k subtree)))"

text \<open>
  A query yields when it matches and the first element matched gives a processed
  element. \<open>prune_match\<close> is the document after a query that did not yield: unchanged
  when there is no match, and otherwise with the matched subtree as pruning, stripping
  and processing left it. \<open>none_yields\<close> holds when no query of the list yields, each on
  the document as the queries before it left it.
\<close>

definition yields :: "'q comments_steps \<Rightarrow> bool \<Rightarrow> 'q \<Rightarrow> element \<Rightarrow> bool" where
  "yields k d expr t =
     (case xpath (k_matches k) expr t of
        [] \<Rightarrow> False
      | m # ms \<Rightarrow> found_comments k d (snd m) \<noteq> [])"

definition prune_match :: "'q comments_steps \<Rightarrow> bool \<Rightarrow> 'q \<Rightarrow> element \<Rightarrow> element" where
  "prune_match k d expr t =
     (case xpath (k_matches k) expr t of
        [] \<Rightarrow> t
      | m # ms \<Rightarrow> put_at (fst m) (left_subtree k d (snd m)) t)"

fun prune_matches :: "'q comments_steps \<Rightarrow> bool \<Rightarrow> 'q list \<Rightarrow> element \<Rightarrow> element" where
  "prune_matches k d [] t = t"
| "prune_matches k d (expr # exprs) t = prune_matches k d exprs (prune_match k d expr t)"

fun none_yields :: "'q comments_steps \<Rightarrow> bool \<Rightarrow> 'q list \<Rightarrow> element \<Rightarrow> bool" where
  "none_yields k d [] t = True"
| "none_yields k d (expr # exprs) t =
     (\<not> yields k d expr t \<and> none_yields k d exprs (prune_match k d expr t))"

text \<open>
  Example queries, on an attribute of the element, with a pruning that removes the
  \<open>form\<close> children of the subtree and a processing that keeps the elements of
  TAG_CATALOG that have a text; and four pages: one whose comments section holds a link
  only, one without comments section, one with two comments sections, and one whose
  comments section holds a form and a notice in a \<open>span\<close>.
\<close>

definition has_attr :: "string \<times> string \<Rightarrow> element \<Rightarrow> nat list \<Rightarrow> bool" where
  "has_attr kv t l = (\<exists>e\<in>set (map snd (filter (\<lambda>le. fst le = l) (located t))). kv \<in> set (attrib e))"

definition example_comments_steps :: "(string \<times> string) comments_steps" where
  "example_comments_steps =
     \<lparr> k_COMMENTS_XPATH = [(''id'', ''comments''), (''class'', ''comment-list'')],
       k_matches = has_attr,
       k_discard_unwanted_comments = (\<lambda>subtree.
          Element (tag subtree) (attrib subtree) (etext subtree)
            (filter (\<lambda>c. tag c \<noteq> ''form'') (children subtree)) (tail subtree)),
       k_TAG_CATALOG = {''p'', ''head'', ''list'', ''quote'', ''hi'', ''lb''},
       k_process_comments = (\<lambda>tags dedupbool subtree.
          (map (\<lambda>e. Element (tag e) [] (etext e) [] (tail e))
             (filter (\<lambda>e. tag e \<in> tags \<and> etext e \<noteq> None) (tl (iter subtree))), subtree)),
       k_trim = (\<lambda>s. s) \<rparr>"

definition example_links_page :: element where
  "example_links_page =
     Element ''html'' [] None
       [Element ''body'' [] None
          [Element ''p'' [] (Some ''Article'') [] None,
           Element ''div'' [(''id'', ''comments'')] None
             [Element ''a'' [(''href'', ''/login'')] (Some ''Log in to comment'') [] None] None]
          None] None"

definition example_plain_page :: element where
  "example_plain_page =
     Element ''html'' [] None
       [Element ''body'' [] None [Element ''p'' [] (Some ''Article'') [] None] None] None"

definition example_comments_page :: element where
  "example_comments_page =
     Element ''html'' [] None
       [Element ''body'' [] None
          [Element ''p'' [] (Some ''Article'') [] None,
           Element ''div'' [(''id'', ''comments'')] None
             [Element ''p'' [] (Some ''First'') [] None] (Some ''after''),
           Element ''div'' [(''class'', ''comment-list'')] None
             [Element ''p'' [] (Some ''Second'') [] None] None]
          None] None"

definition example_closed_page :: element where
  "example_closed_page =
     Element ''html'' [] None
       [Element ''body'' [] None
          [Element ''p'' [] (Some ''Article'') [] None,
           Element ''div'' [(''id'', ''comments'')] None
             [Element ''form'' [] None [Element ''input'' [] None [] None] None,
              Element ''span'' [] (Some ''Comments are closed'') [] None] None]
          None] None"

section \<open>The candidates of extract_content\<close>

text \<open>
  The content tree that one query produces on a document, written out step by step:
  nothing when the query matches no element; otherwise the first match is pruned;
  nothing when it has no child element then; otherwise its \<open>link\<close> and \<open>span\<close> tags
  are stripped and the text elements below it are handled, with \<open>table\<close> among the
  potential tags when tables are included and \<open>div\<close> when no paragraph of the document
  has a text; the trailing \<open>head\<close> elements without tail are left out.
\<close>

definition without_trailing_titles :: "element list \<Rightarrow> element list" where
  "without_trailing_titles es =
     rev (dropWhile (\<lambda>e. tag e = ''head'' \<and> tail e = None) (rev es))"

definition pruned_content :: "'q content_steps \<Rightarrow> bool \<Rightarrow> element \<Rightarrow> element" where
  "pruned_content b include_tables subtree =
     b_link_density_removal b include_tables (b_discard_unwanted b subtree)"

definition candidate_tags :: "'q content_steps \<Rightarrow> bool \<Rightarrow> element \<Rightarrow> string set" where
  "candidate_tags b include_tables t =
     b_TAG_CATALOG b \<union> (if include_tables then {''table''} else {}) \<union>
     (if xpath_p_text t = [] then {''div''} else {})"

definition candidate_tree ::
  "'q content_steps \<Rightarrow> bool \<Rightarrow> bool \<Rightarrow> 'q \<Rightarrow> element \<Rightarrow> element list" where
  "candidate_tree b include_tables d expr t =
     (case xpath (b_matches b) expr t of
        [] \<Rightarrow> []
      | m # ms \<Rightarrow>
          if children (pruned_content b include_tables (snd m)) = [] then []
          else if children (strip_tags [''link'', ''span'']
                    (pruned_content b include_tables (snd m))) = [] then []
          else without_trailing_titles
                 (fst (b_handle_textelems b
                    (candidate_tags b include_tables
                       (put_at (fst m) (pruned_content b include_tables (snd m)) t))
                    d (strip_tags [''link'', ''span''] (pruned_content b include_tables (snd m))))))"

text \<open>The confidence flag of the tuple that extract_content returns.\<close>

definition sure_thing_of :: "element \<times> string \<times> nat \<times> bool \<times> element \<Rightarrow> bool" where
  "sure_thing_of r = fst (snd (snd (snd r)))"

text \<open>
  Example steps: queries on an attribute of the element, no pruning, a handling that
  keeps the elements among the potential tags that have a text, a recovery that keeps
  the \<open>p\<close> elements that have a text, and a minimum of five characters. And three pages:
  an article in a section that the first query matches, a page with a paragraph outside
  of every section, and a page whose section holds a title only.
\<close>

definition example_content_steps :: "(string \<times> string) content_steps" where
  "example_content_steps =
     \<lparr> b_BODY_XPATH = [(''class'', ''post-content''), (''id'', ''main'')],
       b_matches = has_attr,
       b_discard_unwanted = (\<lambda>subtree. subtree),
       b_link_density_removal = (\<lambda>include_tables subtree. subtree),
       b_TAG_CATALOG = {''p'', ''head'', ''list'', ''quote'', ''hi'', ''lb''},
       b_handle_textelems = (\<lambda>tags deduplicate subtree.
          (map (\<lambda>e. Element (tag e) [] (etext e) [] None)
             (filter (\<lambda>e. tag e \<in> tags \<and> etext e \<noteq> None) (tl (iter subtree))), subtree)),
       b_handle_paragraphs = (\<lambda>tags deduplicate t.
          (map (\<lambda>e. Element (tag e) [] (etext e) [] None)
             (filter (\<lambda>e. tag e = ''p'' \<and> etext e \<noteq> None) (iter t)), t)),
       b_trim = (\<lambda>s. s),
       b_MIN_EXTRACTED_SIZE = 5 \<rparr>"

definition example_article_page :: element where
  "example_article_page =
     Element ''html'' [] None
       [Element ''body'' [] None
          [Element ''div'' [(''class'', ''post-content'')] None
             [Element ''p'' [] (Some ''Main text'') [] None] None] None] None"

definition example_wild_page :: element where
  "example_wild_page =
     Element ''html'' [] None
       [Element ''body'' [] None [Element ''p'' [] (Some ''Wild text'') [] None] None] None"

definition example_title_page :: element where
  "example_title_page =
     Element ''html'' [] None
       [Element ''body'' [] None
          [Element ''div'' [(''id'', ''main'')] None
             [Element ''head'' [] (Some ''Title'') [] None] None,
           Element ''p'' [] (Some ''Wild text'') [] None] None] None"

section \<open>Text and tags under merge_with_parent\<close>

lemma concat_concat_map: "concat (concat (map f xs)) = concat (map (\<lambda>x. concat (f x)) xs)"
  by (induction xs) simp_all

lemma elem_text_eq: "elem_text e = opt_str (etext e) @ siblings_text (children e)"
proof (cases e)
  case (Element t a x cs ta)
  have "(\<lambda>c. concat (itertext c) @ concat (case tail c of None \<Rightarrow> [] | Some s \<Rightarrow> [s])) =
        (\<lambda>c. concat (itertext c) @ opt_str (tail c))"
    by (rule ext) (simp add: opt_str_def split: option.splits)
  with Element show ?thesis
    by (simp add: elem_text_def siblings_text_def opt_str_def concat_concat_map split: option.splits)
qed

lemma siblings_text_simps [simp]:
  "siblings_text [] = []"
  "siblings_text (c # cs) = elem_text c @ opt_str (tail c) @ siblings_text cs"
  "siblings_text (xs @ ys) = siblings_text xs @ siblings_text ys"
  by (simp_all add: siblings_text_def)

lemma nonspace_simps [simp]:
  "nonspace [] = []"
  "nonspace (xs @ ys) = nonspace xs @ nonspace ys"
  "nonspace (CHR '' '' # xs) = nonspace xs"
  by (simp_all add: nonspace_def)

lemma elem_text_set_tail [simp]: "elem_text (set_tail s e) = elem_text e"
  by (simp add: elem_text_eq set_tail_def)

lemma tail_set_tail [simp]: "tail (set_tail s e) = s"
  by (simp add: set_tail_def)

lemma elem_text_rebuild [simp]: "elem_text (rebuild c r) = ctx_text r"
  by (simp add: elem_text_eq rebuild_def ctx_text_def)

lemma tail_rebuild [simp]: "tail (rebuild c r) = tail c"
  by (simp add: rebuild_def)

lemma nonspace_replace_element_text:
  "nonspace (replace_element_text e) = nonspace (opt_str (etext e)) @ nonspace (opt_str (tail e))"
  by (simp add: replace_element_text_def opt_str_def split: option.splits)

lemma nonspace_join_text:
  "nonspace (opt_str (join_text old s)) = nonspace (opt_str old) @ nonspace s"
  by (simp add: join_text_def opt_str_def split: option.splits)

lemma siblings_text_snoc_tail:
  "prev \<noteq> [] \<Longrightarrow>
   siblings_text (butlast prev @ [set_tail s (last prev)]) =
   siblings_text (butlast prev) @ elem_text (last prev) @ opt_str s"
  by simp

lemma siblings_text_butlast:
  "prev \<noteq> [] \<Longrightarrow>
   siblings_text prev = siblings_text (butlast prev) @ elem_text (last prev) @ opt_str (tail (last prev))"
proof -
  assume "prev \<noteq> []"
  then have "prev = butlast prev @ [last prev]" by simp
  then have "siblings_text prev = siblings_text (butlast prev @ [last prev])" by simp
  then show ?thesis by (simp del: append_butlast_last_id)
qed

lemma nonspace_merge_with_parent:
  "nonspace (ctx_text (merge_with_parent ctx e)) =
   nonspace (ctx_text ctx) @ nonspace (opt_str (etext e)) @ nonspace (opt_str (tail e))"
proof (cases "snd ctx = []")
  case True
  then show ?thesis
    by (cases ctx)
      (simp add: merge_with_parent_def ctx_text_def nonspace_join_text nonspace_replace_element_text)
next
  case False
  obtain ptext prev where ctx: "ctx = (ptext, prev)" by (cases ctx)
  with False have ne: "prev \<noteq> []" by simp
  have "nonspace (siblings_text prev) =
        nonspace (siblings_text (butlast prev)) @ nonspace (elem_text (last prev)) @
        nonspace (opt_str (tail (last prev)))"
    using siblings_text_butlast [OF ne] by simp
  with ne ctx show ?thesis
    by (simp add: merge_with_parent_def ctx_text_def nonspace_join_text nonspace_replace_element_text)
qed

lemma nonspace_merge_hi_link:
  "nonspace (ctx_text (merge_hi_link ctx cs)) = nonspace (ctx_text ctx) @ nonspace (kept_hi_link cs)"
proof (induction ctx cs rule: merge_hi_link.induct)
  case (1 ctx)
  then show ?case by simp
next
  case (2 ctx c cs)
  show ?case
  proof (cases "tag c = ''hi'' \<or> tag c = ''link''")
    case True
    with 2 show ?thesis by (simp add: nonspace_merge_with_parent)
  next
    case False
    with 2 show ?thesis by (simp add: ctx_text_def)
  qed
qed

lemma iter_eq: "iter e = e # concat (map iter (children e))"
  by (cases e) simp

lemma tags_below_simps [simp]:
  "tags_below [] = []"
  "tags_below (c # cs) = tag c # tags_below (children c) @ tags_below cs"
  "tags_below (xs @ ys) = tags_below xs @ tags_below ys"
  by (simp_all add: tags_below_def iter_eq [of c])

lemma rebuild_simps [simp]:
  "tag (rebuild c r) = tag c"
  "children (rebuild c r) = snd r"
  "etext (rebuild c r) = fst r"
  "attrib (rebuild c r) = attrib c"
  by (simp_all add: rebuild_def)

lemma set_tail_simps [simp]:
  "tag (set_tail s e) = tag e"
  "children (set_tail s e) = children e"
  "etext (set_tail s e) = etext e"
  "attrib (set_tail s e) = attrib e"
  by (simp_all add: set_tail_def)

lemma rebuild_self [simp]: "rebuild c (etext c, children c) = c"
  by (cases c) (simp add: rebuild_def)

lemma tags_below_snoc_tail:
  "prev \<noteq> [] \<Longrightarrow> tags_below (butlast prev @ [set_tail s (last prev)]) = tags_below prev"
proof -
  assume ne: "prev \<noteq> []"
  have "tags_below (butlast prev @ [set_tail s (last prev)]) = tags_below (butlast prev @ [last prev])"
    by simp
  with ne show ?thesis by simp
qed

lemma tags_below_merge_with_parent [simp]:
  "tags_below (snd (merge_with_parent ctx e)) = tags_below (snd ctx)"
proof (cases "snd ctx = []")
  case True
  then show ?thesis by (cases ctx) (simp add: merge_with_parent_def)
next
  case False
  then have "tags_below (butlast (snd ctx) @
      [set_tail (join_text (tail (last (snd ctx))) (replace_element_text e)) (last (snd ctx))]) =
      tags_below (snd ctx)"
    by (rule tags_below_snoc_tail)
  with False show ?thesis by (cases ctx) (simp add: merge_with_parent_def)
qed

lemma tags_merge_hi_link:
  "set (tags_below (snd (merge_hi_link ctx cs))) \<subseteq>
   set (tags_below (snd ctx)) \<union> (set (tags_below cs) - {''hi'', ''link''})"
proof (induction ctx cs rule: merge_hi_link.induct)
  case (1 ctx)
  then show ?case by simp
next
  case (2 ctx c cs)
  show ?case
  proof (cases "tag c = ''hi'' \<or> tag c = ''link''")
    case True
    with 2 show ?thesis by auto
  next
    case False
    with 2 show ?thesis by auto
  qed
qed

lemma count_merge_hi_link:
  "length (tags_below (snd (merge_hi_link ctx cs))) \<le>
   length (tags_below (snd ctx)) + length (tags_below cs)"
proof (induction ctx cs rule: merge_hi_link.induct)
  case (1 ctx)
  then show ?case by simp
next
  case (2 ctx c cs)
  show ?case
  proof (cases "tag c = ''hi'' \<or> tag c = ''link''")
    case True
    with 2 show ?thesis by simp
  next
    case False
    with 2 show ?thesis by simp
  qed
qed

lemma count_merge_hi_link_less:
  "''hi'' \<in> set (tags_below cs) \<or> ''link'' \<in> set (tags_below cs) \<Longrightarrow>
   length (tags_below (snd (merge_hi_link ctx cs))) <
   length (tags_below (snd ctx)) + length (tags_below cs)"
proof (induction ctx cs rule: merge_hi_link.induct)
  case (1 ctx)
  then show ?case by simp
next
  case (2 ctx c cs)
  show ?case
  proof (cases "tag c = ''hi'' \<or> tag c = ''link''")
    case True
    have "length (tags_below (snd (merge_hi_link (merge_with_parent ctx c) cs))) \<le>
          length (tags_below (snd ctx)) + length (tags_below cs)"
      using count_merge_hi_link [of "merge_with_parent ctx c" cs] by simp
    with True show ?thesis by simp
  next
    case False
    let ?r = "merge_hi_link (etext c, []) (children c)"
    let ?ctx' = "(fst ctx, snd ctx @ [rebuild c ?r])"
    from False 2(4) consider
        (inner) "''hi'' \<in> set (tags_below (children c)) \<or> ''link'' \<in> set (tags_below (children c))"
      | (rest) "''hi'' \<in> set (tags_below cs) \<or> ''link'' \<in> set (tags_below cs)"
      by auto
    then show ?thesis
    proof cases
      case inner
      from 2(2) [OF False inner] have "length (tags_below (snd ?r)) < length (tags_below (children c))"
        by simp
      moreover have "length (tags_below (snd (merge_hi_link ?ctx' cs))) \<le>
          length (tags_below (snd ?ctx')) + length (tags_below cs)"
        by (rule count_merge_hi_link)
      ultimately show ?thesis using False by simp
    next
      case rest
      have "length (tags_below (snd ?r)) \<le> length (tags_below (children c))"
        using count_merge_hi_link [of "(etext c, [])" "children c"] by simp
      moreover from 2(3) [OF False rest]
      have "length (tags_below (snd (merge_hi_link ?ctx' cs))) <
          length (tags_below (snd ?ctx')) + length (tags_below cs)" .
      ultimately show ?thesis using False by simp
    qed
  qed
qed

lemma merge_hi_link_unchanged:
  "''hi'' \<notin> set (tags_below cs) \<Longrightarrow> ''link'' \<notin> set (tags_below cs) \<Longrightarrow>
   merge_hi_link ctx cs = (fst ctx, snd ctx @ cs)"
proof (induction ctx cs rule: merge_hi_link.induct)
  case (1 ctx)
  then show ?case by simp
next
  case (2 ctx c cs)
  from 2(4,5) have keep: "\<not> (tag c = ''hi'' \<or> tag c = ''link'')" by auto
  from 2(4,5) have inner: "''hi'' \<notin> set (tags_below (children c))"
      "''link'' \<notin> set (tags_below (children c))" by auto
  from 2(4,5) have rest: "''hi'' \<notin> set (tags_below cs)" "''link'' \<notin> set (tags_below cs)"
    by auto
  from 2(2) [OF keep inner] have r: "merge_hi_link (etext c, []) (children c) = (etext c, children c)"
    by simp
  from 2(3) [OF keep rest] r keep show ?case by simp
qed


section \<open>xmltotxt\<close>

text \<open>
  C10. For every tree and every \<open>sanitize\<close>: in the tree that xmltotxt leaves, no
  element below the root is a \<open>hi\<close> or a \<open>link\<close>; the text of the tree is, up to the
  space join, the text before with the own text and tail of every \<open>hi\<close> and \<open>link\<close>
  folded into the text around it (what lies below such an element goes with it); and
  the tree is left as it was exactly when it had no \<open>hi\<close> and no \<open>link\<close> below its
  root, so the serialization alters every tree that has one.
\<close>

theorem xmltotxt_merges_hi_link:
  "''hi'' \<notin> set (tags_below (children (snd (xmltotxt sanitize t)))) \<and>
   ''link'' \<notin> set (tags_below (children (snd (xmltotxt sanitize t)))) \<and>
   nonspace (elem_text (snd (xmltotxt sanitize t))) =
     nonspace (opt_str (etext t) @ kept_hi_link (children t)) \<and>
   (snd (xmltotxt sanitize t) = t \<longleftrightarrow>
      ''hi'' \<notin> set (tags_below (children t)) \<and> ''link'' \<notin> set (tags_below (children t)))"
proof -
  let ?r = "merge_hi_link (etext t, []) (children t)"
  have res: "snd (xmltotxt sanitize t) = rebuild t ?r"
    by (simp add: xmltotxt_def Let_def)
  have tags: "''hi'' \<notin> set (tags_below (snd ?r))" "''link'' \<notin> set (tags_below (snd ?r))"
    using tags_merge_hi_link [of "(etext t, [])" "children t"] by auto
  have folded: "nonspace (ctx_text ?r) = nonspace (opt_str (etext t) @ kept_hi_link (children t))"
    using nonspace_merge_hi_link [of "(etext t, [])" "children t"] by (simp add: ctx_text_def)
  have same: "rebuild t ?r = t"
    if "''hi'' \<notin> set (tags_below (children t))" "''link'' \<notin> set (tags_below (children t))"
    using merge_hi_link_unchanged [OF that, of "(etext t, [])"] by simp
  have changed: "rebuild t ?r \<noteq> t"
    if "''hi'' \<in> set (tags_below (children t)) \<or> ''link'' \<in> set (tags_below (children t))"
  proof
    assume "rebuild t ?r = t"
    then have "children (rebuild t ?r) = children t" by simp
    then have "snd ?r = children t" by simp
    with count_merge_hi_link_less [OF that, of "(etext t, [])"] show False by simp
  qed
  from tags folded same changed show ?thesis
    unfolding res by (simp only: rebuild_simps elem_text_rebuild) blast
qed

text \<open>
  The theorem at a body whose paragraph holds a \<open>hi\<close> element: the element is gone, its
  text and tail are in the paragraph's text, and the tree is not the one passed in.
\<close>

theorem xmltotxt_merges_hi_link_witness:
  "snd (xmltotxt (\<lambda>s. s) (Element ''body'' [] None
      [Element ''p'' [] (Some ''a'') [Element ''hi'' [] (Some ''b'') [] (Some ''c'')] (Some ''d'')]
      None)) =
     Element ''body'' [] None [Element ''p'' [] (Some ''a b c'') [] (Some ''d'')] None \<and>
   ''hi'' \<notin> set (tags_below (children (snd (xmltotxt (\<lambda>s. s) (Element ''body'' [] None
      [Element ''p'' [] (Some ''a'') [Element ''hi'' [] (Some ''b'') [] (Some ''c'')] (Some ''d'')]
      None))))) \<and>
   snd (xmltotxt (\<lambda>s. s) (Element ''body'' [] None
      [Element ''p'' [] (Some ''a'') [Element ''hi'' [] (Some ''b'') [] (Some ''c'')] (Some ''d'')]
      None)) \<noteq>
     Element ''body'' [] None
      [Element ''p'' [] (Some ''a'') [Element ''hi'' [] (Some ''b'') [] (Some ''c'')] (Some ''d'')]
      None"
proof -
  let ?t = "Element ''body'' [] None
      [Element ''p'' [] (Some ''a'') [Element ''hi'' [] (Some ''b'') [] (Some ''c'')] (Some ''d'')]
      None"
  have ev: "snd (xmltotxt (\<lambda>s. s) ?t) =
     Element ''body'' [] None [Element ''p'' [] (Some ''a b c'') [] (Some ''d'')] None"
    by code_simp
  have has: "''hi'' \<in> set (tags_below (children ?t))"
    by simp
  from xmltotxt_merges_hi_link [of "\<lambda>s. s" ?t] has
  have "''hi'' \<notin> set (tags_below (children (snd (xmltotxt (\<lambda>s. s) ?t))))"
    and "snd (xmltotxt (\<lambda>s. s) ?t) \<noteq> ?t"
    by blast+
  with ev show ?thesis by (intro conjI)
qed

section \<open>check_tei\<close>

lemma ctx_text_snoc:
  "ctx_text (fst ctx, snd ctx @ [rebuild c r]) = ctx_text ctx @ ctx_text r @ opt_str (tail c)"
  by (simp add: ctx_text_def)

lemma tail_pop_invalid_attrs [simp]: "tail (pop_invalid_attrs c) = tail c"
  by (simp add: pop_invalid_attrs_def)

lemma nonspace_check_tei_list:
  "nonspace (ctx_text (check_tei_list sel ptext ctx cs)) =
   nonspace (ctx_text ctx) @ nonspace (tei_kept_text sel ptext cs)"
proof (induction sel ptext ctx cs rule: check_tei_list.induct)
  case (1 sel ptext ctx)
  then show ?case by simp
next
  case (2 sel ptext ctx c cs)
  show ?case
  proof (cases "sel \<and> tag c \<notin> set TEI_VALID_TAGS")
    case True
    with 2(1) show ?thesis by (simp add: nonspace_merge_with_parent)
  next
    case False
    define r where "r = check_tei_list (sel \<or> (tag c = ''body'' \<and> ptext)) (tag c = ''text'')
       (etext c, []) (children c)"
    define n where "n = rebuild (if sel then pop_invalid_attrs c else c) r"
    have step: "check_tei_list sel ptext ctx (c # cs) =
                check_tei_list sel ptext (fst ctx, snd ctx @ [n]) cs"
      unfolding n_def r_def by (simp only: check_tei_list.simps if_not_P [OF False])
    have inner: "nonspace (ctx_text r) =
       nonspace (opt_str (etext c)) @
       nonspace (tei_kept_text (sel \<or> (tag c = ''body'' \<and> ptext)) (tag c = ''text'') (children c))"
      using 2(2) [OF False] unfolding r_def by (simp add: ctx_text_def)
    have new: "ctx_text (fst ctx, snd ctx @ [n]) = ctx_text ctx @ ctx_text r @ opt_str (tail c)"
      unfolding n_def by (simp add: ctx_text_snoc)
    have outer: "nonspace (ctx_text (check_tei_list sel ptext (fst ctx, snd ctx @ [n]) cs)) =
       nonspace (ctx_text (fst ctx, snd ctx @ [n])) @ nonspace (tei_kept_text sel ptext cs)"
      using 2(3) [OF False] unfolding n_def r_def .
    have kept: "tei_kept_text sel ptext (c # cs) =
       opt_str (etext c) @
       tei_kept_text (sel \<or> (tag c = ''body'' \<and> ptext)) (tag c = ''text'') (children c) @
       opt_str (tail c) @ tei_kept_text sel ptext cs"
      by (simp only: tei_kept_text.simps if_not_P [OF False] append_assoc)
    show ?thesis
      unfolding step kept outer new by (simp add: inner)
  qed
qed

lemma tei_kept_text_keep:
  "\<not> (sel \<and> tag c \<notin> set TEI_VALID_TAGS) \<Longrightarrow>
   tei_kept_text sel ptext (c # cs) =
     opt_str (etext c) @
     tei_kept_text (sel \<or> (tag c = ''body'' \<and> ptext)) (tag c = ''text'') (children c) @
     opt_str (tail c) @ tei_kept_text sel ptext cs"
  by (cases sel) simp_all

lemma tei_kept_text_drop:
  "sel \<and> tag c \<notin> set TEI_VALID_TAGS \<Longrightarrow>
   tei_kept_text sel ptext (c # cs) = opt_str (etext c) @ opt_str (tail c) @ tei_kept_text sel ptext cs"
  by simp

lemma tei_kept_text_leaves:
  "(\<And>e. e \<in> set (text_body_desc sel ptext cs) \<Longrightarrow> tag e \<notin> set TEI_VALID_TAGS \<Longrightarrow> children e = []) \<Longrightarrow>
   tei_kept_text sel ptext cs = siblings_text cs"
proof (induction sel ptext cs rule: tei_kept_text.induct)
  case (1 sel ptext)
  then show ?case by simp
next
  case (2 sel ptext c cs)
  have rest: "tei_kept_text sel ptext cs = siblings_text cs"
    by (rule 2(2)) (auto intro: 2(3))
  show ?case
  proof (cases "sel \<and> tag c \<notin> set TEI_VALID_TAGS")
    case True
    then have "children c = []" by (auto intro: 2(3))
    with rest show ?thesis
      unfolding tei_kept_text_drop [OF True] by (simp add: elem_text_eq)
  next
    case False
    have "tei_kept_text (sel \<or> (tag c = ''body'' \<and> ptext)) (tag c = ''text'') (children c) =
          siblings_text (children c)"
      by (rule 2(1) [OF False]) (auto intro: 2(3))
    with rest show ?thesis
      unfolding tei_kept_text_keep [OF False] by (simp add: elem_text_eq)
  qed
qed

lemma convert_heads_simps [simp]:
  "tag (convert_heads c) = (if tag c = ''head'' then ''fw'' else tag c)"
  "etext (convert_heads c) = etext c"
  "tail (convert_heads c) = tail c"
  "children (convert_heads c) = map convert_heads (children c)"
  by (cases c; simp)+

lemma convert_heads_tag_facts:
  "tag (convert_heads c) \<in> set TEI_VALID_TAGS \<longleftrightarrow> tag c \<in> set TEI_VALID_TAGS"
  "tag (convert_heads c) = ''body'' \<longleftrightarrow> tag c = ''body''"
  "tag (convert_heads c) = ''text'' \<longleftrightarrow> tag c = ''text''"
  by (simp_all add: TEI_VALID_TAGS_def)

lemma tei_kept_text_convert_heads:
  "tei_kept_text sel ptext (map convert_heads cs) = tei_kept_text sel ptext cs"
proof (induction sel ptext cs rule: tei_kept_text.induct)
  case (1 sel ptext)
  then show ?case by simp
next
  case (2 sel ptext c cs)
  show ?case
  proof (cases "sel \<and> tag c \<notin> set TEI_VALID_TAGS")
    case True
    then have "sel \<and> tag (convert_heads c) \<notin> set TEI_VALID_TAGS"
      using convert_heads_tag_facts(1) [of c] by blast
    from tei_kept_text_drop [OF this] tei_kept_text_drop [OF True] 2(2) show ?thesis
      by (simp del: tei_kept_text.simps convert_heads_simps(1))
  next
    case False
    then have "\<not> (sel \<and> tag (convert_heads c) \<notin> set TEI_VALID_TAGS)"
      using convert_heads_tag_facts(1) [of c] by blast
    from tei_kept_text_keep [OF this] tei_kept_text_keep [OF False] 2(1) [OF False] 2(2)
    show ?thesis
      by (simp del: tei_kept_text.simps convert_heads_simps(1) add: convert_heads_tag_facts)
  qed
qed

lemma siblings_text_convert_heads:
  "siblings_text (map convert_heads cs) = siblings_text cs"
  by (induction cs rule: node_count.induct) (simp_all add: elem_text_eq)

lemma elem_text_convert_heads: "elem_text (convert_heads t) = elem_text t"
  by (simp add: elem_text_eq siblings_text_convert_heads)

lemma text_body_desc_append:
  "text_body_desc sel ptext (xs @ ys) = text_body_desc sel ptext xs @ text_body_desc sel ptext ys"
  by (induction xs) simp_all

lemma text_body_desc_set_tail:
  "map tag_attrib (text_body_desc sel ptext [set_tail s e]) =
   map tag_attrib (text_body_desc sel ptext [e])"
  by (simp add: tag_attrib_def)

lemma text_body_desc_snoc_tail:
  assumes "prev \<noteq> []"
  shows "map tag_attrib (text_body_desc sel ptext (butlast prev @ [set_tail s (last prev)])) =
         map tag_attrib (text_body_desc sel ptext prev)"
proof -
  have "map tag_attrib (text_body_desc sel ptext (butlast prev @ [set_tail s (last prev)])) =
        map tag_attrib (text_body_desc sel ptext (butlast prev)) @
        map tag_attrib (text_body_desc sel ptext [set_tail s (last prev)])"
    by (simp only: text_body_desc_append map_append)
  also have "\<dots> = map tag_attrib (text_body_desc sel ptext (butlast prev)) @
        map tag_attrib (text_body_desc sel ptext [last prev])"
    by (simp only: text_body_desc_set_tail)
  also have "\<dots> = map tag_attrib (text_body_desc sel ptext (butlast prev @ [last prev]))"
    by (simp only: text_body_desc_append map_append)
  also have "\<dots> = map tag_attrib (text_body_desc sel ptext prev)"
    using assms by simp
  finally show ?thesis .
qed

lemma text_body_desc_merge_with_parent:
  "map tag_attrib (text_body_desc sel ptext (snd (merge_with_parent ctx e))) =
   map tag_attrib (text_body_desc sel ptext (snd ctx))"
proof (cases "snd ctx = []")
  case True
  then show ?thesis by (cases ctx) (simp add: merge_with_parent_def)
next
  case False
  from text_body_desc_snoc_tail [OF False] False show ?thesis
    by (cases ctx) (simp add: merge_with_parent_def)
qed

lemma check_tei_list_keep:
  "\<not> (sel \<and> tag c \<notin> set TEI_VALID_TAGS) \<Longrightarrow>
   check_tei_list sel ptext ctx (c # cs) =
   check_tei_list sel ptext
     (fst ctx, snd ctx @
        [rebuild (if sel then pop_invalid_attrs c else c)
           (check_tei_list (sel \<or> (tag c = ''body'' \<and> ptext)) (tag c = ''text'')
              (etext c, []) (children c))]) cs"
  by (cases sel) simp_all

lemma tei_kept_elems_keep:
  "\<not> (sel \<and> tag c \<notin> set TEI_VALID_TAGS) \<Longrightarrow>
   tei_kept_elems sel ptext (c # cs) =
   (if sel then [c] else []) @
   tei_kept_elems (sel \<or> (tag c = ''body'' \<and> ptext)) (tag c = ''text'') (children c) @
   tei_kept_elems sel ptext cs"
  by (cases sel) simp_all

lemma pop_invalid_attrs_simps [simp]:
  "tag (pop_invalid_attrs c) = tag c"
  "attrib (pop_invalid_attrs c) = filter (\<lambda>kv. fst kv \<in> set TEI_VALID_ATTRS) (attrib c)"
  by (simp_all add: pop_invalid_attrs_def)

lemma attribs_check_tei_list:
  "map tag_attrib (text_body_desc sel ptext (snd (check_tei_list sel ptext ctx cs))) =
   map tag_attrib (text_body_desc sel ptext (snd ctx)) @
   map tag_valid_attrib (tei_kept_elems sel ptext cs)"
proof (induction sel ptext ctx cs rule: check_tei_list.induct)
  case (1 sel ptext ctx)
  then show ?case by simp
next
  case (2 sel ptext ctx c cs)
  show ?case
  proof (cases "sel \<and> tag c \<notin> set TEI_VALID_TAGS")
    case True
    with 2(1) show ?thesis by (simp add: text_body_desc_merge_with_parent)
  next
    case False
    define sel' where "sel' = (sel \<or> (tag c = ''body'' \<and> ptext))"
    define r where "r = check_tei_list sel' (tag c = ''text'') (etext c, []) (children c)"
    define n where "n = rebuild (if sel then pop_invalid_attrs c else c) r"
    have step: "check_tei_list sel ptext ctx (c # cs) =
                check_tei_list sel ptext (fst ctx, snd ctx @ [n]) cs"
      unfolding n_def r_def sel'_def by (rule check_tei_list_keep [OF False])
    have inner: "map tag_attrib (text_body_desc sel' (tag c = ''text'') (snd r)) =
       map tag_valid_attrib (tei_kept_elems sel' (tag c = ''text'') (children c))"
      using 2(2) [OF False] unfolding r_def sel'_def by simp
    have tagn: "tag n = tag c" unfolding n_def by simp
    have "text_body_desc sel ptext [n] =
        (if sel then [n] else []) @ text_body_desc sel' (tag c = ''text'') (snd r)"
      unfolding sel'_def using tagn by (simp add: n_def)
    then have new: "map tag_attrib (text_body_desc sel ptext [n]) =
        (if sel then [tag_valid_attrib c] else []) @
        map tag_valid_attrib (tei_kept_elems sel' (tag c = ''text'') (children c))"
      using inner by (simp add: n_def tag_attrib_def tag_valid_attrib_def)
    have outer: "map tag_attrib (text_body_desc sel ptext
         (snd (check_tei_list sel ptext (fst ctx, snd ctx @ [n]) cs))) =
       map tag_attrib (text_body_desc sel ptext (snd ctx @ [n])) @
       map tag_valid_attrib (tei_kept_elems sel ptext cs)"
      using 2(3) [OF False] unfolding n_def r_def sel'_def by simp
    have kept: "tei_kept_elems sel ptext (c # cs) =
       (if sel then [c] else []) @ tei_kept_elems sel' (tag c = ''text'') (children c) @
       tei_kept_elems sel ptext cs"
      unfolding sel'_def by (rule tei_kept_elems_keep [OF False])
    show ?thesis
      unfolding step kept outer text_body_desc_append map_append new by simp
  qed
qed

lemma tei_kept_elems_valid:
  "e \<in> set (tei_kept_elems sel ptext cs) \<Longrightarrow> tag e \<in> set TEI_VALID_TAGS"
proof (induction sel ptext cs rule: tei_kept_elems.induct)
  case (1 sel ptext)
  then show ?case by simp
next
  case (2 sel ptext c cs)
  show ?case
  proof (cases "sel \<and> tag c \<notin> set TEI_VALID_TAGS")
    case True
    with 2(2,3) show ?thesis by simp
  next
    case False
    from 2(3) have "e \<in> set ((if sel then [c] else []) @
       tei_kept_elems (sel \<or> (tag c = ''body'' \<and> ptext)) (tag c = ''text'') (children c) @
       tei_kept_elems sel ptext cs)"
      unfolding tei_kept_elems_keep [OF False] .
    then consider "sel \<and> e = c"
      | "e \<in> set (tei_kept_elems (sel \<or> (tag c = ''body'' \<and> ptext)) (tag c = ''text'') (children c))"
      | "e \<in> set (tei_kept_elems sel ptext cs)"
      by (auto split: if_splits)
    then show ?thesis
    proof cases
      case 1
      with False show ?thesis by blast
    next
      case 2
      then show ?thesis by (rule "2.IH"(1) [OF False])
    next
      case 3
      then show ?thesis by (rule "2.IH"(2))
    qed
  qed
qed


text \<open>
  C3, as amended. For every tree handed to check_tei: every element below \<open>text/body\<close>
  whose tag is outside the TEI tag set is merged into its neighbourhood, its own text
  and tail going to the tail of the sibling before it or, without one, to the parent's
  text, and is removed together with everything below it. The total text afterwards is,
  up to the space join, the text of the elements that stay and the own text and tail
  of the removed ones; it is the total text before whenever no removed element has
  children. The elements of the query that stay keep their tag (after the conversion
  of \<open>head\<close>) and exactly their attributes of the allowed set, so that afterwards every
  element below \<open>text/body\<close> has a TEI tag and allowed attributes only.
\<close>

theorem check_tei_keeps_own_text:
  "nonspace (elem_text (check_tei t)) = nonspace (tei_surviving_text t) \<and>
   ((\<forall>e \<in> set (xpath_text_body_desc t). tag e \<notin> set TEI_VALID_TAGS \<longrightarrow> children e = []) \<longrightarrow>
      nonspace (elem_text (check_tei t)) = nonspace (elem_text t)) \<and>
   map tag_attrib (xpath_text_body_desc (check_tei t)) =
     map tag_valid_attrib (tei_surviving_elems (convert_heads t)) \<and>
   (\<forall>e \<in> set (xpath_text_body_desc (check_tei t)).
      tag e \<in> set TEI_VALID_TAGS \<and> fst ` set (attrib e) \<subseteq> set TEI_VALID_ATTRS)"
proof -
  let ?t = "convert_heads t"
  have ptext: "(tag ?t = ''text'') = (tag t = ''text'')"
    by (rule convert_heads_tag_facts)
  have a: "nonspace (elem_text (check_tei t)) = nonspace (tei_surviving_text t)"
    using nonspace_check_tei_list [of False "tag t = ''text''" "(etext t, [])" "map convert_heads (children t)"]
    by (simp add: check_tei_def Let_def ptext tei_surviving_text_def ctx_text_def
        tei_kept_text_convert_heads del: convert_heads_simps(1))
  have b: "nonspace (elem_text (check_tei t)) = nonspace (elem_text t)"
    if "\<forall>e \<in> set (xpath_text_body_desc t). tag e \<notin> set TEI_VALID_TAGS \<longrightarrow> children e = []"
  proof -
    have "tei_kept_text False (tag t = ''text'') (children t) = siblings_text (children t)"
      by (rule tei_kept_text_leaves) (use that in \<open>auto simp: xpath_text_body_desc_def\<close>)
    with a show ?thesis by (simp add: tei_surviving_text_def elem_text_eq [of t])
  qed
  have c: "map tag_attrib (xpath_text_body_desc (check_tei t)) =
     map tag_valid_attrib (tei_surviving_elems (convert_heads t))"
    using attribs_check_tei_list [of False "tag t = ''text''" "(etext t, [])" "map convert_heads (children t)"]
    by (simp add: check_tei_def Let_def ptext xpath_text_body_desc_def tei_surviving_elems_def
        del: convert_heads_simps(1))
  have d: "tag e \<in> set TEI_VALID_TAGS \<and> fst ` set (attrib e) \<subseteq> set TEI_VALID_ATTRS"
    if "e \<in> set (xpath_text_body_desc (check_tei t))" for e
  proof -
    from that have "tag_attrib e \<in> set (map tag_attrib (xpath_text_body_desc (check_tei t)))"
      by simp
    then have "tag_attrib e \<in> set (map tag_valid_attrib (tei_surviving_elems (convert_heads t)))"
      unfolding c .
    then obtain k where k: "k \<in> set (tei_surviving_elems (convert_heads t))"
      and e: "tag_attrib e = tag_valid_attrib k" by auto
    from k have "tag k \<in> set TEI_VALID_TAGS"
      unfolding tei_surviving_elems_def by (rule tei_kept_elems_valid)
    with e show ?thesis by (auto simp: tag_attrib_def tag_valid_attrib_def)
  qed
  from a b c d show ?thesis by blast
qed


text \<open>
  The theorem at the TEI tree of a post whose paragraph holds a \<open>ref\<close> element without
  children: the text is the same up to the space join.
\<close>

theorem check_tei_keeps_own_text_witness:
  "nonspace (elem_text (check_tei
      (write_teitree (Element ''teiHeader'' [] None [] None)
         (Element ''body'' [] None
            [Element ''p'' [(''class'', ''x'')] (Some ''a'')
               [Element ''ref'' [] (Some ''b'') [] (Some ''d'')] None] None) None))) =
   nonspace (elem_text
      (write_teitree (Element ''teiHeader'' [] None [] None)
         (Element ''body'' [] None
            [Element ''p'' [(''class'', ''x'')] (Some ''a'')
               [Element ''ref'' [] (Some ''b'') [] (Some ''d'')] None] None) None)) \<and>
   elem_text (check_tei
      (write_teitree (Element ''teiHeader'' [] None [] None)
         (Element ''body'' [] None
            [Element ''p'' [(''class'', ''x'')] (Some ''a'')
               [Element ''ref'' [] (Some ''b'') [] (Some ''d'')] None] None) None)) = ''a b d''"
proof -
  let ?T = "write_teitree (Element ''teiHeader'' [] None [] None)
         (Element ''body'' [] None
            [Element ''p'' [(''class'', ''x'')] (Some ''a'')
               [Element ''ref'' [] (Some ''b'') [] (Some ''d'')] None] None) None"
  have sel: "xpath_text_body_desc ?T =
     [Element ''div'' [(''type'', ''entry'')] None
        [Element ''p'' [] (Some ''a'') [Element ''ref'' [] (Some ''b'') [] (Some ''d'')] None] None,
      Element ''p'' [] (Some ''a'') [Element ''ref'' [] (Some ''b'') [] (Some ''d'')] None,
      Element ''ref'' [] (Some ''b'') [] (Some ''d'')]"
    by code_simp
  have hyp: "\<forall>e \<in> set (xpath_text_body_desc ?T). tag e \<notin> set TEI_VALID_TAGS \<longrightarrow> children e = []"
    unfolding sel by (simp add: TEI_VALID_TAGS_def)
  have ev: "elem_text (check_tei ?T) = ''a b d''"
    by code_simp
  from check_tei_keeps_own_text [of ?T] hyp
  have "nonspace (elem_text (check_tei ?T)) = nonspace (elem_text ?T)" by blast
  with ev show ?thesis by (intro conjI)
qed

text \<open>
  C3 as stated fails: a \<open>ref\<close> element with a \<open>hi\<close> child is removed with the child,
  and the child's text \<open>c\<close> is not in the tree afterwards.
\<close>

theorem check_tei_deletes_text_counterexample:
  "elem_text
      (write_teitree (Element ''teiHeader'' [] None [] None)
         (Element ''body'' [] None
            [Element ''p'' [] (Some ''a'')
               [Element ''ref'' [] (Some ''b'') [Element ''hi'' [] (Some ''c'') [] None] (Some ''d'')]
               None] None) None) = ''abcd'' \<and>
   elem_text (check_tei
      (write_teitree (Element ''teiHeader'' [] None [] None)
         (Element ''body'' [] None
            [Element ''p'' [] (Some ''a'')
               [Element ''ref'' [] (Some ''b'') [Element ''hi'' [] (Some ''c'') [] None] (Some ''d'')]
               None] None) None)) = ''a b d'' \<and>
   ''hi'' \<notin> set (tags_below [check_tei
      (write_teitree (Element ''teiHeader'' [] None [] None)
         (Element ''body'' [] None
            [Element ''p'' [] (Some ''a'')
               [Element ''ref'' [] (Some ''b'') [Element ''hi'' [] (Some ''c'') [] None] (Some ''d'')]
               None] None) None)])"
  by code_simp

section \<open>Step 1 of the arbiter\<close>

lemma rule_applies_iff_arm:
  "rule_applies r lt la p m \<longleftrightarrow> fst (compare_step1 lt la p m) = r"
  by (cases r) (auto simp: rule_applies_def compare_step1_def)

text \<open>
  C1. For all lengths \<open>len_text\<close>, \<open>len_algo\<close>, every custom body (through
  \<open>p_text\<close>) and every threshold: the arm of compare_extraction's chain that runs is
  the first rule of the table, in the order 1 to 6, whose condition holds; the flag is
  that rule's outcome; exactly one rule applies. For \<open>len_text = 50\<close> and
  \<open>len_algo = 40\<close> the default arm runs and the custom extraction is kept, for every
  body with paragraph text and, for a body without, whenever the threshold
  MIN_EXTRACTED_SIZE is at least 40.
\<close>

theorem compare_step1_decision_table:
  "(rule_applies r len_text len_algo p_text m \<longleftrightarrow>
      fst (compare_step1 len_text len_algo p_text m) = r) \<and>
   snd (compare_step1 len_text len_algo p_text m) =
      rule_uses_generic (fst (compare_step1 len_text len_algo p_text m)) \<and>
   (\<exists>!r'. rule_applies r' len_text len_algo p_text m) \<and>
   (p_text \<or> 40 \<le> m \<longrightarrow> compare_step1 50 40 p_text m = (Arm6, False))"
proof -
  have a: "rule_applies r len_text len_algo p_text m \<longleftrightarrow>
      fst (compare_step1 len_text len_algo p_text m) = r"
    by (rule rule_applies_iff_arm)
  have b: "snd (compare_step1 len_text len_algo p_text m) =
      rule_uses_generic (fst (compare_step1 len_text len_algo p_text m))"
    by (simp add: compare_step1_def)
  have c: "\<exists>!r'. rule_applies r' len_text len_algo p_text m"
    by (simp add: rule_applies_iff_arm)
  have d: "p_text \<or> 40 \<le> m \<longrightarrow> compare_step1 50 40 p_text m = (Arm6, False)"
    by (auto simp: compare_step1_def)
  from a b c d show ?thesis by blast
qed

theorem compare_step1_decision_table_witness:
  "rule_applies Arm6 50 40 False 200 \<and> compare_step1 50 40 False 200 = (Arm6, False) \<and>
   rule_applies Arm5 50 40 False 30 \<and> compare_step1 50 40 False 30 = (Arm5, True)"
  using compare_step1_decision_table [of Arm6 50 40 False 200]
    compare_step1_decision_table [of Arm5 50 40 False 30]
  by (simp add: compare_step1_def)

section \<open>strip_tags\<close>

lemma tags_below_append_text [simp]:
  "tags_below (snd (append_text ctx s)) = tags_below (snd ctx)"
proof (cases "snd ctx = []")
  case True
  then show ?thesis by (cases ctx) (simp add: append_text_def)
next
  case False
  then have "tags_below (butlast (snd ctx) @
      [set_tail (opt_append (tail (last (snd ctx))) s) (last (snd ctx))]) = tags_below (snd ctx)"
    by (rule tags_below_snoc_tail)
  with False show ?thesis by (cases ctx) (simp add: append_text_def)
qed

lemma opt_str_opt_append [simp]: "opt_str (opt_append a b) = opt_str a @ opt_str b"
  by (simp add: opt_str_def opt_append_def split: option.splits)

lemma ctx_text_append_text [simp]: "ctx_text (append_text ctx s) = ctx_text ctx @ opt_str s"
proof (cases "snd ctx = []")
  case True
  then show ?thesis by (cases ctx) (simp add: append_text_def ctx_text_def)
next
  case False
  obtain ptext prev where ctx: "ctx = (ptext, prev)" by (cases ctx)
  with False have ne: "prev \<noteq> []" by simp
  from siblings_text_butlast [OF ne] ne ctx show ?thesis
    by (simp add: append_text_def ctx_text_def)
qed

lemma tags_strip_tags_list:
  "tags_below (snd (strip_tags_list tags ctx cs)) =
   tags_below (snd ctx) @ filter (\<lambda>t. t \<notin> set tags) (tags_below cs)"
proof (induction tags ctx cs rule: strip_tags_list.induct)
  case (1 tags ctx)
  then show ?case by simp
next
  case (2 tags ctx c cs)
  show ?case
  proof (cases "tag c \<in> set tags")
    case True
    with 2(1,2) show ?thesis by simp
  next
    case False
    with 2(3,4) show ?thesis by simp
  qed
qed

lemma text_strip_tags_list:
  "ctx_text (strip_tags_list tags ctx cs) = ctx_text ctx @ siblings_text cs"
proof (induction tags ctx cs rule: strip_tags_list.induct)
  case (1 tags ctx)
  then show ?case by simp
next
  case (2 tags ctx c cs)
  show ?case
  proof (cases "tag c \<in> set tags")
    case True
    with 2(1,2) show ?thesis by (simp add: elem_text_eq [of c])
  next
    case False
    with 2(3,4) show ?thesis by (simp add: ctx_text_snoc elem_text_eq [of c] ctx_text_def)
  qed
qed

lemma strip_tags_no_tag:
  "t \<in> set tags \<Longrightarrow> t \<notin> set (tags_below (children (strip_tags tags e)))"
  using tags_strip_tags_list [of tags "(etext e, [])" "children e"]
  by (simp add: strip_tags_def)

lemma strip_tags_text: "elem_text (strip_tags tags e) = elem_text e"
  using text_strip_tags_list [of tags "(etext e, [])" "children e"]
  by (simp add: strip_tags_def ctx_text_def elem_text_eq [of e])

section \<open>bare_extraction\<close>



lemma reach_size_check:
  assumes "c_load_html c (arg_filecontent a) = Some tree"
    and "metadata_step c a tree = Inr docmeta"
  shows "bare_extraction_try c a =
    (case tree_size_check (arg_max_tree_size a) (h_postbody (extraction_step c a tree docmeta)) of
       Inl e \<Rightarrow> Inl e
     | Inr postbody \<Rightarrow> final_checks c a (extraction_step c a tree docmeta) postbody)"
  using assms by (simp add: bare_extraction_try_def Let_def)













lemma bare_extraction_discard_iff:
  "bare_extraction c a = Inr (None, None, None, None) \<longleftrightarrow> bare_extraction_try c a = Inl ValueError"
  by (cases "bare_extraction_try c a") (auto simp: bare_extraction_def split: prod.splits)








lemma final_checks_postbody:
  "final_checks c a h pb = Inr (d, t, p, cb) \<Longrightarrow> p = pb"
  by (simp add: final_checks_def split: if_splits)

lemma bare_extraction_postbody:
  assumes "bare_extraction c a = Inr (d, t, Some p, cb)"
  shows "\<exists>d' t'. bare_extraction_try c a = Inr (d', t', p, cb)"
proof (cases "bare_extraction_try c a")
  case (Inl e)
  with assms show ?thesis by (simp add: bare_extraction_def split: if_splits)
next
  case (Inr res)
  obtain d' t' p' cb' where "res = (d', t', p', cb')" by (cases res)
  with Inr assms show ?thesis by (simp add: bare_extraction_def)
qed

lemma example_reach:
  "c_load_html example_collaborators
     (arg_filecontent (example_arguments (Some example_page) ''txt'' cap)) = Some example_page"
  "metadata_step example_collaborators (example_arguments (Some example_page) ''txt'' cap)
     example_page = Inr (fromkeys [''title'', ''author'', ''url'', ''date''])"
  by (simp_all add: example_collaborators_def example_arguments_def metadata_step_def)

lemma example_harvest:
  "extraction_step example_collaborators (example_arguments (Some example_page) ''txt'' cap)
     example_page d =
   \<lparr> h_docmeta = d,
     h_postbody = Element ''body'' [] None
       [Element ''hi'' [] (Some ''bold'') [] None, Element ''p'' [] (Some ''text'') [] None] None,
     h_temp_text = ''boldtext'', h_len_text = 8,
     h_commentsbody = Some (Element ''body'' [] None [] None),
     h_temp_comments = [], h_len_comments = 0 \<rparr>"
  by (simp add: extraction_step_def example_collaborators_def example_arguments_def
      example_page_def elem_text_def)

lemma example_stripped:
  "strip_tags [''hi''] (Element ''body'' [] None
       [Element ''hi'' [] (Some ''bold'') [] None, Element ''p'' [] (Some ''text'') [] None] None) =
   Element ''body'' [] (Some ''bold'') [Element ''p'' [] (Some ''text'') [] None] None"
  by code_simp


text \<open>
  C7, amended. The size that bare_extraction compares with the cap is \<open>len(postbody)\<close>,
  the number of child elements of the body, not the number of nodes of the tree. In a
  run that reaches the tree size check with the body \<open>h_postbody h\<close>: when a cap is
  given and the number of children exceeds it, the \<open>hi\<close> elements are stripped once and
  the children are counted again; if their number still exceeds the cap the document is
  discarded, and otherwise the checks that follow run on the stripped body, which is also
  the body returned; when no cap is given or the number of children does not exceed it,
  they run on the body as it is. The stripped body has no \<open>hi\<close> element below it and
  the same text.
\<close>

theorem tree_size_cap:
  assumes "c_load_html c (arg_filecontent a) = Some tree"
    and "metadata_step c a tree = Inr docmeta"
    and "h = extraction_step c a tree docmeta"
  shows
   "(arg_max_tree_size a = Some m \<and> int (length (children (h_postbody h))) > m \<and>
       int (length (children (strip_tags [''hi''] (h_postbody h)))) > m \<longrightarrow>
       bare_extraction c a = Inr (None, None, None, None)) \<and>
    (arg_max_tree_size a = Some m \<and> int (length (children (h_postbody h))) > m \<and>
       int (length (children (strip_tags [''hi''] (h_postbody h)))) \<le> m \<longrightarrow>
       bare_extraction_try c a = final_checks c a h (strip_tags [''hi''] (h_postbody h))) \<and>
    (arg_max_tree_size a = None \<or>
       (arg_max_tree_size a = Some m \<and> int (length (children (h_postbody h))) \<le> m) \<longrightarrow>
       bare_extraction_try c a = final_checks c a h (h_postbody h)) \<and>
    (\<forall>d t p cb. bare_extraction c a = Inr (d, t, Some p, cb) \<longrightarrow>
       p = (case arg_max_tree_size a of
              None \<Rightarrow> h_postbody h
            | Some m' \<Rightarrow> if int (length (children (h_postbody h))) > m'
                         then strip_tags [''hi''] (h_postbody h) else h_postbody h)) \<and>
    ''hi'' \<notin> set (tags_below (children (strip_tags [''hi''] (h_postbody h)))) \<and>
    elem_text (strip_tags [''hi''] (h_postbody h)) = elem_text (h_postbody h)"
proof -
  let ?pb = "h_postbody h"
  let ?st = "strip_tags [''hi''] ?pb"
  have reach: "bare_extraction_try c a =
    (case tree_size_check (arg_max_tree_size a) ?pb of
       Inl e \<Rightarrow> Inl e | Inr postbody \<Rightarrow> final_checks c a h postbody)"
    unfolding assms(3) by (rule reach_size_check [OF assms(1,2)])
  have A: "bare_extraction c a = Inr (None, None, None, None)"
    if "arg_max_tree_size a = Some m" "int (length (children ?pb)) > m"
      "int (length (children ?st)) > m"
  proof -
    from that have "tree_size_check (arg_max_tree_size a) ?pb = Inl ValueError"
      by (simp add: tree_size_check_def)
    with reach show ?thesis by (simp add: bare_extraction_discard_iff)
  qed
  have B: "bare_extraction_try c a = final_checks c a h ?st"
    if "arg_max_tree_size a = Some m" "int (length (children ?pb)) > m"
      "int (length (children ?st)) \<le> m"
  proof -
    from that have "tree_size_check (arg_max_tree_size a) ?pb = Inr ?st"
      by (simp add: tree_size_check_def)
    with reach show ?thesis by simp
  qed
  have C: "bare_extraction_try c a = final_checks c a h ?pb"
    if "arg_max_tree_size a = None \<or>
       (arg_max_tree_size a = Some m \<and> int (length (children ?pb)) \<le> m)"
  proof -
    from that have "tree_size_check (arg_max_tree_size a) ?pb = Inr ?pb"
      by (auto simp: tree_size_check_def)
    with reach show ?thesis by simp
  qed
  have D: "p = (case arg_max_tree_size a of
              None \<Rightarrow> ?pb
            | Some m' \<Rightarrow> if int (length (children ?pb)) > m' then ?st else ?pb)"
    if "bare_extraction c a = Inr (d, t, Some p, cb)" for d t p cb
  proof -
    from bare_extraction_postbody [OF that] obtain d' t'
      where attempt: "bare_extraction_try c a = Inr (d', t', p, cb)" by blast
    show ?thesis
    proof (cases "tree_size_check (arg_max_tree_size a) ?pb")
      case (Inl e)
      with reach attempt show ?thesis by simp
    next
      case (Inr pb')
      with reach attempt have "final_checks c a h pb' = Inr (d', t', p, cb)" by simp
      then have "p = pb'" by (rule final_checks_postbody)
      with Inr show ?thesis
        by (cases "arg_max_tree_size a") (auto simp: tree_size_check_def Let_def split: if_splits)
    qed
  qed
  have E: "''hi'' \<notin> set (tags_below (children ?st))"
    by (rule strip_tags_no_tag) simp
  have F: "elem_text ?st = elem_text ?pb"
    by (rule strip_tags_text)
  show ?thesis
    using A B C D E F by (intro conjI impI allI) blast+
qed

text \<open>
  The theorem at a body with a \<open>hi\<close> and a \<open>p\<close> child: with cap 0 the document is
  discarded, with cap 1 the run continues with the stripped body, with cap 2 with the
  body as it is.
\<close>

theorem tree_size_cap_witness:
  "bare_extraction example_collaborators (example_arguments (Some example_page) ''txt'' (Some 0)) =
     Inr (None, None, None, None) \<and>
   bare_extraction_try example_collaborators (example_arguments (Some example_page) ''txt'' (Some 1)) =
     Inr (fromkeys [''title'', ''author'', ''url'', ''date''], ''boldtext'',
          Element ''body'' [] (Some ''bold'') [Element ''p'' [] (Some ''text'') [] None] None,
          Some (Element ''body'' [] None [] None)) \<and>
   bare_extraction_try example_collaborators (example_arguments (Some example_page) ''txt'' (Some 2)) =
     Inr (fromkeys [''title'', ''author'', ''url'', ''date''], ''boldtext'',
          Element ''body'' [] None
            [Element ''hi'' [] (Some ''bold'') [] None, Element ''p'' [] (Some ''text'') [] None] None,
          Some (Element ''body'' [] None [] None))"
proof -
  let ?c = example_collaborators
  let ?d = "fromkeys [''title'', ''author'', ''url'', ''date'']"
  let ?h = "\<lambda>cap. extraction_step ?c (example_arguments (Some example_page) ''txt'' cap) example_page ?d"
  have cap: "arg_max_tree_size (example_arguments (Some example_page) ''txt'' k) = k" for k
    by (simp add: example_arguments_def)
  have fin: "final_checks ?c (example_arguments (Some example_page) ''txt'' k) (?h k) pb =
      Inr (?d, ''boldtext'', pb, Some (Element ''body'' [] None [] None))" for k pb
    unfolding example_harvest
    by (simp add: final_checks_def example_collaborators_def example_arguments_def)
  from tree_size_cap [OF example_reach refl, of "Some 0" 0]
  have a: "bare_extraction ?c (example_arguments (Some example_page) ''txt'' (Some 0)) =
     Inr (None, None, None, None)"
    unfolding example_harvest cap by (simp add: example_stripped)
  from tree_size_cap [OF example_reach refl, of "Some 1" 1]
  have b: "bare_extraction_try ?c (example_arguments (Some example_page) ''txt'' (Some 1)) =
     final_checks ?c (example_arguments (Some example_page) ''txt'' (Some 1)) (?h (Some 1))
       (Element ''body'' [] (Some ''bold'') [Element ''p'' [] (Some ''text'') [] None] None)"
    unfolding example_harvest cap by (simp add: example_stripped)
  from tree_size_cap [OF example_reach refl, of "Some 2" 2]
  have c: "bare_extraction_try ?c (example_arguments (Some example_page) ''txt'' (Some 2)) =
     final_checks ?c (example_arguments (Some example_page) ''txt'' (Some 2)) (?h (Some 2))
       (Element ''body'' [] None
            [Element ''hi'' [] (Some ''bold'') [] None, Element ''p'' [] (Some ''text'') [] None] None)"
    unfolding example_harvest cap by simp
  from a b c show ?thesis unfolding fin by (intro conjI)
qed

text \<open>
  The claim as it is written, on the node count, fails on a body with one paragraph
  that holds three \<open>hi\<close> elements and the cap 2: the tree has five nodes, four of them
  below the body, and the body is returned with its \<open>hi\<close> elements, neither stripped
  nor discarded.
\<close>

theorem node_count_above_cap_counterexample:
  "arg_max_tree_size (example_arguments (Some example_deep_page) ''txt'' (Some 2)) = Some 2 \<and>
   node_count [Element ''body'' [] None
       [Element ''p'' [] None
          [Element ''hi'' [] (Some ''one'') [] None, Element ''hi'' [] (Some ''two'') [] None,
           Element ''hi'' [] (Some ''three'') [] None] None] None] = 5 \<and>
   bare_extraction example_collaborators
       (example_arguments (Some example_deep_page) ''txt'' (Some 2)) =
     Inr (Some (fromkeys [''title'', ''author'', ''url'', ''date'']), Some ''onetwothree'',
          Some (Element ''body'' [] None
            [Element ''p'' [] None
               [Element ''hi'' [] (Some ''one'') [] None, Element ''hi'' [] (Some ''two'') [] None,
                Element ''hi'' [] (Some ''three'') [] None] None] None),
          Some (Element ''body'' [] None [] None))"
  by (simp add: example_arguments_def example_deep_page_def bare_extraction_def
      bare_extraction_try_def example_collaborators_def metadata_step_def extraction_step_def
      tree_size_check_def final_checks_def elem_text_def Let_def)




section \<open>build_json_output\<close>

lemma rename_field_Inr:
  "rename_field d old new = Inr d' \<longleftrightarrow> (\<exists>v. d old = Some v \<and> d' = (d(old := None))(new \<mapsto> v))"
  by (auto simp: rename_field_def dict_pop_def split: option.splits)

lemma join_field_Inr:
  "join_field d k = Inr d' \<longleftrightarrow>
   (\<exists>v s. d k = Some v \<and> py_join '';'' v = Inr s \<and> d' = d(k \<mapsto> PyStr s))"
  by (auto simp: join_field_def split: option.splits sum.splits)

lemma case_sum_Inr_iff:
  "(case s of Inl e \<Rightarrow> Inl e | Inr x \<Rightarrow> f x) = Inr y \<longleftrightarrow> (\<exists>x. s = Inr x \<and> f x = Inr y)"
  by (cases s) auto

lemma rename_and_join_Inr:
  "rename_and_join docmeta = Inr d \<longleftrightarrow> renamed_and_joined docmeta d"
  unfolding rename_and_join_def renamed_and_joined_def case_sum_Inr_iff rename_field_Inr
    join_field_Inr
  by auto


lemma py_join_Inr: "(\<exists>s. py_join sep v = Inr s) \<longleftrightarrow> v \<noteq> PyNone"
  by (cases v) (simp_all add: py_join_def)

lemma build_json_output_Inr:
  "build_json_output sanitize json_dumps docmeta postbody commentsbody = Inr (out, d', pb', cb') \<longleftrightarrow>
   (\<exists>d5 cb. rename_and_join docmeta = Inr d5 \<and> commentsbody = Some cb \<and>
      d' = d5(''text'' \<mapsto> PyStr (fst (xmltotxt sanitize postbody)),
              ''comments'' \<mapsto> PyStr (fst (xmltotxt sanitize cb))) \<and>
      out = json_dumps d' \<and> pb' = snd (xmltotxt sanitize postbody) \<and>
      cb' = snd (xmltotxt sanitize cb))"
  by (cases "rename_and_join docmeta"; cases commentsbody)
     (auto simp: build_json_output_def Let_def split: prod.splits)

text \<open>
  C9. For every metadata record on which build_json_output returns, the record the
  caller holds afterwards has no key url, hostname or description, has their values
  under source, source-hostname and excerpt, and has the ';'-joined strings in place
  of the categories and tags values (for a list, the join of its items); it is not the
  record that was passed, and it is the record that is serialized. The call returns
  exactly when the record has the three keys, its categories and tags are not None, and
  there is a comments tree.
\<close>

theorem build_json_output_mutates_docmeta:
  "(build_json_output sanitize json_dumps docmeta postbody commentsbody = Inr (out, d', pb', cb') \<longrightarrow>
      d' ''url'' = None \<and> d' ''hostname'' = None \<and> d' ''description'' = None \<and>
      d' ''source'' = docmeta ''url'' \<and> d' ''source-hostname'' = docmeta ''hostname'' \<and>
      d' ''excerpt'' = docmeta ''description'' \<and>
      (\<exists>c cs. docmeta ''categories'' = Some c \<and> py_join '';'' c = Inr cs \<and>
         d' ''categories'' = Some (PyStr cs)) \<and>
      (\<exists>t ts. docmeta ''tags'' = Some t \<and> py_join '';'' t = Inr ts \<and>
         d' ''tags'' = Some (PyStr ts)) \<and>
      (\<forall>xs. docmeta ''categories'' = Some (PyList xs) \<longrightarrow>
         d' ''categories'' = Some (PyStr (str_join '';'' xs))) \<and>
      (\<forall>xs. docmeta ''tags'' = Some (PyList xs) \<longrightarrow>
         d' ''tags'' = Some (PyStr (str_join '';'' xs))) \<and>
      d' \<noteq> docmeta \<and> out = json_dumps d') \<and>
   ((\<exists>res. build_json_output sanitize json_dumps docmeta postbody commentsbody = Inr res) \<longleftrightarrow>
      docmeta ''url'' \<noteq> None \<and> docmeta ''hostname'' \<noteq> None \<and> docmeta ''description'' \<noteq> None \<and>
      (\<exists>c. docmeta ''categories'' = Some c \<and> c \<noteq> PyNone) \<and>
      (\<exists>t. docmeta ''tags'' = Some t \<and> t \<noteq> PyNone) \<and> commentsbody \<noteq> None)"
proof -
  have A: "d' ''url'' = None \<and> d' ''hostname'' = None \<and> d' ''description'' = None \<and>
      d' ''source'' = docmeta ''url'' \<and> d' ''source-hostname'' = docmeta ''hostname'' \<and>
      d' ''excerpt'' = docmeta ''description'' \<and>
      (\<exists>c cs. docmeta ''categories'' = Some c \<and> py_join '';'' c = Inr cs \<and>
         d' ''categories'' = Some (PyStr cs)) \<and>
      (\<exists>t ts. docmeta ''tags'' = Some t \<and> py_join '';'' t = Inr ts \<and>
         d' ''tags'' = Some (PyStr ts)) \<and>
      (\<forall>xs. docmeta ''categories'' = Some (PyList xs) \<longrightarrow>
         d' ''categories'' = Some (PyStr (str_join '';'' xs))) \<and>
      (\<forall>xs. docmeta ''tags'' = Some (PyList xs) \<longrightarrow>
         d' ''tags'' = Some (PyStr (str_join '';'' xs))) \<and>
      d' \<noteq> docmeta \<and> out = json_dumps d'"
    if "build_json_output sanitize json_dumps docmeta postbody commentsbody = Inr (out, d', pb', cb')"
  proof -
    from that obtain d5 cb where r: "renamed_and_joined docmeta d5"
      and d': "d' = d5(''text'' \<mapsto> PyStr (fst (xmltotxt sanitize postbody)),
              ''comments'' \<mapsto> PyStr (fst (xmltotxt sanitize cb)))"
      and out: "out = json_dumps d'"
      unfolding build_json_output_Inr rename_and_join_Inr by blast
    from r obtain u h de c t cs ts where
      f: "docmeta ''url'' = Some u" "docmeta ''hostname'' = Some h"
        "docmeta ''description'' = Some de"
        "docmeta ''categories'' = Some c" "py_join '';'' c = Inr cs"
        "docmeta ''tags'' = Some t" "py_join '';'' t = Inr ts"
      and d5: "d5 = docmeta(''url'' := None, ''source'' \<mapsto> u, ''hostname'' := None,
              ''source-hostname'' \<mapsto> h, ''description'' := None, ''excerpt'' \<mapsto> de,
              ''categories'' \<mapsto> PyStr cs, ''tags'' \<mapsto> PyStr ts)"
      unfolding renamed_and_joined_def by blast
    have vals: "d' ''url'' = None" "d' ''hostname'' = None" "d' ''description'' = None"
      "d' ''source'' = Some u" "d' ''source-hostname'' = Some h" "d' ''excerpt'' = Some de"
      "d' ''categories'' = Some (PyStr cs)" "d' ''tags'' = Some (PyStr ts)"
      unfolding d' d5 by simp_all
    have ne: "d' \<noteq> docmeta" using vals(1) f(1) by auto
    have lists: "d' ''categories'' = Some (PyStr (str_join '';'' xs))"
      if "docmeta ''categories'' = Some (PyList xs)" for xs
      using that f(4,5) vals(7) by (simp add: py_join_def)
    have lists': "d' ''tags'' = Some (PyStr (str_join '';'' xs))"
      if "docmeta ''tags'' = Some (PyList xs)" for xs
      using that f(6,7) vals(8) by (simp add: py_join_def)
    from vals f ne out lists lists' show ?thesis by simp
  qed
  have B: "(\<exists>res. build_json_output sanitize json_dumps docmeta postbody commentsbody = Inr res) \<longleftrightarrow>
      docmeta ''url'' \<noteq> None \<and> docmeta ''hostname'' \<noteq> None \<and> docmeta ''description'' \<noteq> None \<and>
      (\<exists>c. docmeta ''categories'' = Some c \<and> c \<noteq> PyNone) \<and>
      (\<exists>t. docmeta ''tags'' = Some t \<and> t \<noteq> PyNone) \<and> commentsbody \<noteq> None"
  proof -
    have "(\<exists>res. build_json_output sanitize json_dumps docmeta postbody commentsbody = Inr res) \<longleftrightarrow>
       (\<exists>d5. renamed_and_joined docmeta d5) \<and> commentsbody \<noteq> None"
      by (auto simp: build_json_output_Inr rename_and_join_Inr)
    also have "(\<exists>d5. renamed_and_joined docmeta d5) \<longleftrightarrow>
      docmeta ''url'' \<noteq> None \<and> docmeta ''hostname'' \<noteq> None \<and> docmeta ''description'' \<noteq> None \<and>
      (\<exists>c. docmeta ''categories'' = Some c \<and> c \<noteq> PyNone) \<and>
      (\<exists>t. docmeta ''tags'' = Some t \<and> t \<noteq> PyNone)"
    proof
      assume "\<exists>d5. renamed_and_joined docmeta d5"
      then obtain u h de c t cs ts where
        "docmeta ''url'' = Some u" "docmeta ''hostname'' = Some h"
        "docmeta ''description'' = Some de"
        "docmeta ''categories'' = Some c" "py_join '';'' c = Inr cs"
        "docmeta ''tags'' = Some t" "py_join '';'' t = Inr ts"
        unfolding renamed_and_joined_def by blast
      moreover from this have "c \<noteq> PyNone" "t \<noteq> PyNone"
        using py_join_Inr [of "'';''" c] py_join_Inr [of "'';''" t] by blast+
      ultimately show "docmeta ''url'' \<noteq> None \<and> docmeta ''hostname'' \<noteq> None \<and>
        docmeta ''description'' \<noteq> None \<and>
        (\<exists>c. docmeta ''categories'' = Some c \<and> c \<noteq> PyNone) \<and>
        (\<exists>t. docmeta ''tags'' = Some t \<and> t \<noteq> PyNone)"
        by simp
    next
      assume "docmeta ''url'' \<noteq> None \<and> docmeta ''hostname'' \<noteq> None \<and>
        docmeta ''description'' \<noteq> None \<and>
        (\<exists>c. docmeta ''categories'' = Some c \<and> c \<noteq> PyNone) \<and>
        (\<exists>t. docmeta ''tags'' = Some t \<and> t \<noteq> PyNone)"
      then obtain u h de c t where
        f: "docmeta ''url'' = Some u" "docmeta ''hostname'' = Some h"
        "docmeta ''description'' = Some de"
        "docmeta ''categories'' = Some c" "c \<noteq> PyNone"
        "docmeta ''tags'' = Some t" "t \<noteq> PyNone"
        by auto
      then obtain cs ts where "py_join '';'' c = Inr cs" "py_join '';'' t = Inr ts"
        using py_join_Inr [of "'';''" c] py_join_Inr [of "'';''" t] by blast
      with f show "\<exists>d5. renamed_and_joined docmeta d5"
        unfolding renamed_and_joined_def by blast
    qed
    finally show ?thesis by blast
  qed
  from A B show ?thesis by blast
qed

text \<open>The theorem at a record with two categories and no tags.\<close>

theorem build_json_output_mutates_docmeta_witness:
  "\<exists>out d' pb' cb'.
     build_json_output (\<lambda>s. s) (\<lambda>d. d) example_docmeta
       (Element ''body'' [] None [Element ''p'' [] (Some ''t'') [] None] None)
       (Some (Element ''body'' [] None [] None)) = Inr (out, d', pb', cb') \<and>
     d' ''url'' = None \<and> d' ''source'' = Some (PyStr ''http://a'') \<and>
     d' ''hostname'' = None \<and> d' ''source-hostname'' = Some (PyStr ''a'') \<and>
     d' ''description'' = None \<and> d' ''excerpt'' = Some PyNone \<and>
     d' ''categories'' = Some (PyStr ''x;y'') \<and> d' ''tags'' = Some (PyStr [])"
proof -
  let ?pb = "Element ''body'' [] None [Element ''p'' [] (Some ''t'') [] None] None"
  let ?cb = "Some (Element ''body'' [] None [] None)"
  note inst = build_json_output_mutates_docmeta [of "\<lambda>s. s" "\<lambda>d. d" example_docmeta ?pb ?cb]
  have pre: "example_docmeta ''url'' \<noteq> None \<and> example_docmeta ''hostname'' \<noteq> None \<and>
      example_docmeta ''description'' \<noteq> None \<and>
      (\<exists>c. example_docmeta ''categories'' = Some c \<and> c \<noteq> PyNone) \<and>
      (\<exists>t. example_docmeta ''tags'' = Some t \<and> t \<noteq> PyNone) \<and> ?cb \<noteq> None"
    by (simp add: example_docmeta_def)
  with inst obtain res where "build_json_output (\<lambda>s. s) (\<lambda>d. d) example_docmeta ?pb ?cb = Inr res"
    by blast
  then obtain out d' pb' cb' where
    res: "build_json_output (\<lambda>s. s) (\<lambda>d. d) example_docmeta ?pb ?cb = Inr (out, d', pb', cb')"
    by (cases res) auto
  have src: "example_docmeta ''url'' = Some (PyStr ''http://a'')"
    "example_docmeta ''hostname'' = Some (PyStr ''a'')"
    "example_docmeta ''description'' = Some PyNone"
    "example_docmeta ''categories'' = Some (PyList [''x'', ''y''])"
    "example_docmeta ''tags'' = Some (PyList [])"
    by (simp_all add: example_docmeta_def)
  from inst [of out d' pb' cb'] res src
  have "d' ''url'' = None \<and> d' ''source'' = Some (PyStr ''http://a'') \<and>
     d' ''hostname'' = None \<and> d' ''source-hostname'' = Some (PyStr ''a'') \<and>
     d' ''description'' = None \<and> d' ''excerpt'' = Some PyNone \<and>
     d' ''categories'' = Some (PyStr ''x;y'') \<and> d' ''tags'' = Some (PyStr [])"
    by simp
  with res show ?thesis by blast
qed


section \<open>Failures of the fallback algorithms\<close>

lemma try_readability_caught:
  "a_readability alg htmlinput u = Inl SerialisationError \<or>
   a_readability alg htmlinput u = Inl Unparseable \<Longrightarrow>
   try_readability alg htmlinput u = Inr (Element ''div'' [] None [] None)"
  by (auto simp: try_readability_def)

lemma try_readability_returns:
  "(\<exists>e. try_readability alg htmlinput u = Inr e) \<longleftrightarrow>
   (\<exists>e. a_readability alg htmlinput u = Inr e) \<or>
   a_readability alg htmlinput u = Inl SerialisationError \<or>
   a_readability alg htmlinput u = Inl Unparseable"
  by (cases "a_readability alg htmlinput u") (auto simp: try_readability_def)

lemma try_justext_caught:
  "a_tostring alg tree = Inr h \<Longrightarrow> justext_stoplist alg lang = Inr sl \<Longrightarrow>
   a_justext alg h sl = Inl ValueError \<Longrightarrow>
   try_justext alg tree u lang = Inr None"
  by (simp add: try_justext_def)

lemma justext_rescue_caught:
  "a_tostring alg tree = Inr h \<Longrightarrow> justext_stoplist alg lang = Inr sl \<Longrightarrow>
   a_justext alg h sl = Inl ValueError \<Longrightarrow>
   justext_rescue alg tree u lang postbody len_text tx = Inr (postbody, tx, len_text, False)"
  by (simp add: justext_rescue_def try_justext_caught)

lemma justext_rescue_passes:
  "try_justext alg tree u lang = Inl ex \<Longrightarrow>
   justext_rescue alg tree u lang postbody len_text tx = Inl ex"
  by (simp add: justext_rescue_def)

lemma justext_rescue_returns:
  assumes "a_tostring alg tree = Inr h" "justext_stoplist alg lang = Inr sl"
    and "(\<exists>ps. a_justext alg h sl = Inr ps) \<or> a_justext alg h sl = Inl ValueError"
  shows "\<exists>res. justext_rescue alg tree u lang postbody len_text tx = Inr res"
proof -
  from assms have "\<exists>r. try_justext alg tree u lang = Inr r"
    by (auto simp: try_justext_def)
  then obtain r where r: "try_justext alg tree u lang = Inr r" ..
  show ?thesis
    by (cases r) (auto simp: justext_rescue_def r Let_def)
qed

lemma case_rescue_returns:
  assumes "\<exists>res. rescue = Inr res"
  shows "\<exists>res. (case rescue of Inl ex \<Rightarrow> Inl ex
          | Inr (body2, text2, len_text2, jt_result) \<Rightarrow> Inr (f body2 text2 len_text2 jt_result)) =
         (Inr res :: pyexn + element \<times> string \<times> nat)"
proof -
  from assms obtain res where "rescue = Inr res" ..
  moreover obtain b t l j where "res = (b, t, l, j)" by (cases res)
  ultimately have "(case rescue of Inl ex \<Rightarrow> Inl ex
          | Inr (body2, text2, len_text2, jt_result) \<Rightarrow> Inr (f body2 text2 len_text2 jt_result)) =
         Inr (f b t l j)" by simp
  then show ?thesis ..
qed

lemma compare_extraction_returns:
  assumes r: "(\<exists>e. a_readability alg backup_tree u = Inr e) \<or>
       a_readability alg backup_tree u = Inl SerialisationError \<or>
       a_readability alg backup_tree u = Inl Unparseable"
    and h: "a_tostring alg tree = Inr h" and sl: "justext_stoplist alg lang = Inr sl"
    and j: "(\<exists>ps. a_justext alg h sl = Inr ps) \<or> a_justext alg h sl = Inl ValueError"
  shows "\<exists>res. compare_extraction alg tree backup_tree u body tx len_text lang fmt = Inr res"
proof -
  from r obtain e where e: "try_readability alg backup_tree u = Inr e"
    unfolding try_readability_returns [symmetric] ..
  note jr = justext_rescue_returns [OF h sl j]
  define algo_text where "algo_text = a_trim alg (str_join '' '' (itertext e))"
  define algo_flag where "algo_flag = snd (compare_step1 len_text (length algo_text)
     (xpath_p_text body \<noteq> []) (a_MIN_EXTRACTED_SIZE alg))"
  define chosen where "chosen = (if algo_flag then (e, algo_text, length algo_text)
     else (body, tx, len_text))"
  obtain b t l where chosen: "chosen = (b, t, l)" by (cases chosen)
  have unfold: "compare_extraction alg tree backup_tree u body tx len_text lang fmt =
    (if xpath_sanitized b \<noteq> []
     then (case justext_rescue alg tree u lang b 0 [] of
             Inl ex \<Rightarrow> Inl ex
           | Inr (body2, text2, len_text2, jt_result) \<Rightarrow>
               Inr (if jt_result then (body2, text2, len_text2)
                    else a_sanitize_tree alg b fmt))
     else if l < a_MIN_EXTRACTED_SIZE alg
     then (case justext_rescue alg tree u lang b l t of
             Inl ex \<Rightarrow> Inl ex
           | Inr (body2, text2, len_text2, jt_result) \<Rightarrow>
               Inr (if \<not> jt_result then a_sanitize_tree alg body2 fmt
                    else (body2, text2, len_text2)))
     else if algo_flag then Inr (a_sanitize_tree alg b fmt)
     else Inr (b, t, l))"
    using chosen
    unfolding compare_extraction_def e chosen_def algo_flag_def algo_text_def
    by (simp add: Let_def split: prod.splits sum.splits cong: if_cong)
  consider (s) "xpath_sanitized b \<noteq> []"
    | (m) "xpath_sanitized b = []" "l < a_MIN_EXTRACTED_SIZE alg"
    | (f) "xpath_sanitized b = []" "\<not> l < a_MIN_EXTRACTED_SIZE alg" "algo_flag"
    | (n) "xpath_sanitized b = []" "\<not> l < a_MIN_EXTRACTED_SIZE alg" "\<not> algo_flag"
    by blast
  then show ?thesis
  proof cases
    case s
    from case_rescue_returns [OF jr [of u b 0 "[]"],
        of "\<lambda>body2 text2 len_text2 jt_result.
              if jt_result then (body2, text2, len_text2) else a_sanitize_tree alg b fmt"]
    show ?thesis unfolding unfold if_P [OF s] .
  next
    case m
    from case_rescue_returns [OF jr [of u b l t],
        of "\<lambda>body2 text2 len_text2 jt_result.
              if \<not> jt_result then a_sanitize_tree alg body2 fmt else (body2, text2, len_text2)"]
    show ?thesis unfolding unfold using m by simp
  next
    case f
    then show ?thesis unfolding unfold by (simp del: split_paired_Ex)
  next
    case n
    then show ?thesis unfolding unfold by simp
  qed
qed

text \<open>
  C8, amended. When the readability step raises SerialisationError or Unparseable,
  try_readability returns an empty \<open>div\<close> element, which has no text. When the tree is
  serialised, the stop list is found and the classifier call raises ValueError,
  try_justext returns None and justext_rescue returns the body, text and length it was
  given with the flag False. When readability returns or fails in these ways, the tree
  is serialised, the stop list is found and the classifier returns or raises
  ValueError, compare_extraction returns. What the serialisation or the stop list lookup
  raises, a ValueError included, and what the classifier raises other than ValueError,
  leaves try_justext and justext_rescue.
\<close>

theorem fallback_failures_are_caught:
  "(a_readability alg backup_tree u = Inl SerialisationError \<or>
    a_readability alg backup_tree u = Inl Unparseable \<longrightarrow>
      try_readability alg backup_tree u = Inr (Element ''div'' [] None [] None) \<and>
      itertext (Element ''div'' [] None [] None) = []) \<and>
   (a_tostring alg tree = Inr h \<and> justext_stoplist alg lang = Inr sl \<and>
    a_justext alg h sl = Inl ValueError \<longrightarrow>
      try_justext alg tree u lang = Inr None \<and>
      justext_rescue alg tree u lang postbody len_text tx = Inr (postbody, tx, len_text, False)) \<and>
   (((\<exists>e. a_readability alg backup_tree u = Inr e) \<or>
     a_readability alg backup_tree u = Inl SerialisationError \<or>
     a_readability alg backup_tree u = Inl Unparseable) \<and>
    a_tostring alg tree = Inr h \<and> justext_stoplist alg lang = Inr sl \<and>
    ((\<exists>ps. a_justext alg h sl = Inr ps) \<or> a_justext alg h sl = Inl ValueError) \<longrightarrow>
      (\<exists>res. compare_extraction alg tree backup_tree u body tx len_text lang fmt = Inr res)) \<and>
   (a_tostring alg tree = Inl ex \<or>
    (a_tostring alg tree = Inr h \<and> justext_stoplist alg lang = Inl ex) \<or>
    (a_tostring alg tree = Inr h \<and> justext_stoplist alg lang = Inr sl \<and>
     a_justext alg h sl = Inl ex \<and> ex \<noteq> ValueError) \<longrightarrow>
      try_justext alg tree u lang = Inl ex \<and>
      justext_rescue alg tree u lang postbody len_text tx = Inl ex)"
proof -
  have A: "try_readability alg backup_tree u = Inr (Element ''div'' [] None [] None) \<and>
      itertext (Element ''div'' [] None [] None) = []"
    if "a_readability alg backup_tree u = Inl SerialisationError \<or>
        a_readability alg backup_tree u = Inl Unparseable"
    using try_readability_caught [OF that] by simp
  have B: "try_justext alg tree u lang = Inr None \<and>
      justext_rescue alg tree u lang postbody len_text tx = Inr (postbody, tx, len_text, False)"
    if "a_tostring alg tree = Inr h" "justext_stoplist alg lang = Inr sl"
      "a_justext alg h sl = Inl ValueError"
    using try_justext_caught [OF that] justext_rescue_caught [OF that] by simp
  have C: "\<exists>res. compare_extraction alg tree backup_tree u body tx len_text lang fmt = Inr res"
    if "(\<exists>e. a_readability alg backup_tree u = Inr e) \<or>
       a_readability alg backup_tree u = Inl SerialisationError \<or>
       a_readability alg backup_tree u = Inl Unparseable"
      "a_tostring alg tree = Inr h" "justext_stoplist alg lang = Inr sl"
      "(\<exists>ps. a_justext alg h sl = Inr ps) \<or> a_justext alg h sl = Inl ValueError"
    using that by (rule compare_extraction_returns)
  have D: "try_justext alg tree u lang = Inl ex \<and>
      justext_rescue alg tree u lang postbody len_text tx = Inl ex"
    if "a_tostring alg tree = Inl ex \<or>
       (a_tostring alg tree = Inr h \<and> justext_stoplist alg lang = Inl ex) \<or>
       (a_tostring alg tree = Inr h \<and> justext_stoplist alg lang = Inr sl \<and>
        a_justext alg h sl = Inl ex \<and> ex \<noteq> ValueError)"
  proof -
    from that have "try_justext alg tree u lang = Inl ex"
      by (auto simp: try_justext_def)
    then show ?thesis by (simp add: justext_rescue_passes)
  qed
  from A B C D show ?thesis by blast
qed

text \<open>
  The theorem where readability and the classifier fail, with no target language: the
  custom extraction of nine characters is what compare_extraction returns. And where
  the stop list lookup for \<open>uk\<close> fails with KeyError: justext_rescue raises it.
\<close>

theorem fallback_failures_are_caught_witness:
  "try_readability (example_algorithms (Inl Unparseable) (Inr ()) (Inl ValueError))
     (Element ''html'' [] None [] None) None = Inr (Element ''div'' [] None [] None) \<and>
   justext_rescue (example_algorithms (Inl Unparseable) (Inr ()) (Inl ValueError))
     (Element ''html'' [] None [] None) None None
     (Element ''body'' [] None [Element ''p'' [] (Some ''some text'') [] None] None) 9 ''some text'' =
     Inr (Element ''body'' [] None [Element ''p'' [] (Some ''some text'') [] None] None,
          ''some text'', 9, False) \<and>
   compare_extraction (example_algorithms (Inl Unparseable) (Inr ()) (Inl ValueError))
     (Element ''html'' [] None [] None) (Element ''html'' [] None [] None) None
     (Element ''body'' [] None [Element ''p'' [] (Some ''some text'') [] None] None) ''some text'' 9
     None False =
     Inr (Element ''body'' [] None [Element ''p'' [] (Some ''some text'') [] None] None,
          ''some text'', 9) \<and>
   justext_rescue (example_algorithms (Inl Unparseable) (Inl KeyError) (Inr []))
     (Element ''html'' [] None [] None) None (Some ''uk'')
     (Element ''body'' [] None [] None) 0 [] = Inl KeyError"
proof -
  let ?alg = "example_algorithms (Inl Unparseable) (Inr ()) (Inl ValueError)"
  let ?alg' = "example_algorithms (Inl Unparseable) (Inl KeyError) (Inr [])"
  let ?t = "Element ''html'' [] None [] None"
  let ?b = "Element ''body'' [] None [Element ''p'' [] (Some ''some text'') [] None] None"
  have r: "a_readability ?alg ?t None = Inl Unparseable"
    and h: "a_tostring ?alg ?t = Inr ?t"
    and sl: "justext_stoplist ?alg None = Inr ()"
    and j: "a_justext ?alg ?t () = Inl ValueError"
    by (simp_all add: example_algorithms_def justext_stoplist_def)
  from fallback_failures_are_caught [where alg = ?alg and backup_tree = ?t and u = None
      and tree = ?t and h = ?t and lang = None and sl = "()" and postbody = ?b and len_text = 9
      and tx = "''some text''"] r h sl j
  have 1: "try_readability ?alg ?t None = Inr (Element ''div'' [] None [] None)"
    and 2: "justext_rescue ?alg ?t None None ?b 9 ''some text'' = Inr (?b, ''some text'', 9, False)"
    by blast+
  have flag: "compare_step1 9 0 True 200 = (Arm1, False)"
    by (simp add: compare_step1_def)
  have 3: "compare_extraction ?alg ?t ?t None ?b ''some text'' 9 None False =
     Inr (?b, ''some text'', 9)"
    unfolding compare_extraction_def 1 2
    by (simp add: example_algorithms_def xpath_p_text_def xpath_sanitized_def
        SANITIZED_XPATH_def flag 2 [unfolded example_algorithms_def])
  have h': "a_tostring ?alg' ?t = Inr ?t"
    and sl': "justext_stoplist ?alg' (Some ''uk'') = Inl KeyError"
    by (simp_all add: example_algorithms_def justext_stoplist_def)
  from fallback_failures_are_caught [where alg = ?alg' and tree = ?t and h = ?t
      and lang = "Some ''uk''" and ex = KeyError and u = None
      and postbody = "Element ''body'' [] None [] None" and len_text = 0 and tx = "[]"] h' sl'
  have 4: "justext_rescue ?alg' ?t None (Some ''uk'') (Element ''body'' [] None [] None) 0 [] =
      Inl KeyError"
    by blast
  from 1 2 3 4 show ?thesis by (intro conjI)
qed

text \<open>
  The claim as it is written fails where the stop list lookup for the target language
  raises ValueError: the custom extraction is too short, justext_rescue is called, and
  the ValueError leaves try_justext, justext_rescue and compare_extraction.
\<close>

theorem stoplist_failure_propagates_counterexample:
  "try_justext (example_algorithms (Inl Unparseable) (Inl ValueError) (Inr []))
     (Element ''html'' [] None [] None) None (Some ''uk'') = Inl ValueError \<and>
   justext_rescue (example_algorithms (Inl Unparseable) (Inl ValueError) (Inr []))
     (Element ''html'' [] None [] None) None (Some ''uk'')
     (Element ''body'' [] None [Element ''p'' [] (Some ''some text'') [] None] None) 9 ''some text'' =
     Inl ValueError \<and>
   compare_extraction (example_algorithms (Inl Unparseable) (Inl ValueError) (Inr []))
     (Element ''html'' [] None [] None) (Element ''html'' [] None [] None) None
     (Element ''body'' [] None [Element ''p'' [] (Some ''some text'') [] None] None) ''some text'' 9
     (Some ''uk'') False = Inl ValueError"
  by (simp add: compare_extraction_def justext_rescue_def try_justext_def try_readability_def
      justext_stoplist_def example_algorithms_def xpath_p_text_def xpath_sanitized_def
      SANITIZED_XPATH_def compare_step1_def)

section \<open>handle_table\<close>

lemma split_at_tr_ne [simp]: "split_at_tr es \<noteq> []"
  by (induction es) simp_all

lemma cells_of_simps [simp]:
  "cells_of pn [] = []"
  "cells_of pn (e # es) = cell_of pn e @ cells_of pn es"
  by (simp_all add: cells_of_def)

lemma cell_of_eq:
  "cell_of pn e =
     (if tag e = ''td'' \<or> tag e = ''th''
      then (case pn e of
              None \<Rightarrow> []
            | Some c \<Rightarrow> if etext c = None \<or> etext c = Some [] then [] else [new_cell e (etext c)])
      else [])"
  by (auto simp: cell_of_def processed_text_def new_cell_def opt_str_def split: option.splits)

lemma table_loop_rows:
  "flush (table_loop pn (Suc i) es (rows, row)) =
   rows @ map new_row (filter (\<lambda>r. r \<noteq> [])
     ((row @ cells_of pn (hd (split_at_tr (takeWhile (\<lambda>e. tag e \<noteq> ''table'') es)))) #
      map (cells_of pn) (tl (split_at_tr (takeWhile (\<lambda>e. tag e \<noteq> ''table'') es)))))"
proof (induction es arbitrary: i rows row)
  case Nil
  then show ?case by (simp add: flush_def)
next
  case (Cons e es)
  obtain s ss where sp: "split_at_tr (takeWhile (\<lambda>e. tag e \<noteq> ''table'') es) = s # ss"
    by (cases "split_at_tr (takeWhile (\<lambda>e. tag e \<noteq> ''table'') es)") simp_all
  note IH = Cons.IH [of "Suc i", unfolded sp list.sel]
  consider (tr) "tag e = ''tr''" | (cell) "tag e = ''td'' \<or> tag e = ''th''"
    | (table) "tag e = ''table''"
    | (other) "tag e \<noteq> ''tr''" "tag e \<noteq> ''td''" "tag e \<noteq> ''th''" "tag e \<noteq> ''table''"
    by blast
  then show ?case
  proof cases
    case tr
    then show ?thesis using IH by (simp add: sp)
  next
    case cell
    then have nt: "tag e \<noteq> ''tr''" "tag e \<noteq> ''table''" by auto
    show ?thesis using cell nt IH
      by (simp add: sp cell_of_eq split: option.splits)
  next
    case table
    then show ?thesis by (simp add: flush_def)
  next
    case other
    then show ?thesis using IH by (simp add: sp cell_of_eq)
  qed
qed

lemma table_loop_first:
  "flush (table_loop pn 0 (e # es) ([], [])) =
   map new_row (table_rows pn (e # takeWhile (\<lambda>e. tag e \<noteq> ''table'') es))"
proof -
  obtain s ss where sp: "split_at_tr (takeWhile (\<lambda>e. tag e \<noteq> ''table'') es) = s # ss"
    by (cases "split_at_tr (takeWhile (\<lambda>e. tag e \<noteq> ''table'') es)") simp_all
  note R = table_loop_rows [of pn 0 es "[]", unfolded sp list.sel]
  consider (tr) "tag e = ''tr''" | (cell) "tag e = ''td'' \<or> tag e = ''th''"
    | (other) "tag e \<noteq> ''tr''" "tag e \<noteq> ''td''" "tag e \<noteq> ''th''"
    by blast
  then show ?thesis
  proof cases
    case tr
    then show ?thesis using R [of "[]"]
      by (simp add: table_rows_def sp)
  next
    case cell
    then have nt: "tag e \<noteq> ''tr''" by auto
    show ?thesis using cell nt R
      by (simp add: cell_of_eq table_rows_def sp split: option.splits)
  next
    case other
    then show ?thesis using R [of "[]"]
      by (simp add: table_rows_def cell_of_eq sp)
  qed
qed

lemma handle_table_rows:
  "handle_table pn t =
     (if table_rows pn (table_scope (strip_tags [''thead'', ''tbody'', ''tfoot''] t)) = [] then None
      else Some (Element ''table'' [] None
             (map new_row (table_rows pn (table_scope (strip_tags [''thead'', ''tbody'', ''tfoot''] t))))
             None))"
proof -
  define s where "s = strip_tags [''thead'', ''tbody'', ''tfoot''] t"
  obtain rows row where l: "table_loop pn 0 (iter s) ([], []) = (rows, row)"
    by (cases "table_loop pn 0 (iter s) ([], [])")
  have fl: "flush (rows, row) = map new_row (table_rows pn (table_scope s))"
    using table_loop_first [of pn s "concat (map iter (children s))"] l
    by (simp add: iter_eq [of s, symmetric] table_scope_def)
  have "handle_table pn t =
      (if flush (rows, row) \<noteq> [] then Some (Element ''table'' [] None (flush (rows, row)) None)
       else None)"
    using l by (simp add: handle_table_def s_def [symmetric] flush_def Let_def)
  then show ?thesis unfolding fl s_def by simp
qed

lemma concat_split_at_tr: "concat (split_at_tr es) = filter (\<lambda>e. tag e \<noteq> ''tr'') es"
proof (induction es)
  case Nil
  then show ?case by simp
next
  case (Cons e es)
  obtain s ss where sp: "split_at_tr es = s # ss" by (cases "split_at_tr es") simp_all
  with Cons show ?case by simp
qed

lemma table_rows_Nil: "table_rows pn es = [] \<longleftrightarrow> (\<forall>e\<in>set es. cell_of pn e = [])"
proof -
  have "concat (split_at_tr es) = filter (\<lambda>e. tag e \<noteq> ''tr'') es"
    by (rule concat_split_at_tr)
  then have "(\<Union>x\<in>set (split_at_tr es). set x) = {e \<in> set es. tag e \<noteq> ''tr''}"
    by (metis set_concat set_filter)
  moreover have "\<And>e. tag e = ''tr'' \<Longrightarrow> cell_of pn e = []" by (simp add: cell_of_def)
  ultimately show ?thesis
    by (auto simp: table_rows_def filter_empty_conv cells_of_def)
qed


lemma table_rows_nonempty: "r \<in> set (table_rows pn es) \<Longrightarrow> r \<noteq> []"
  by (simp add: table_rows_def)

lemma table_rows_cells:
  assumes "r \<in> set (table_rows pn es)" "c \<in> set r"
  shows "\<exists>e\<in>set es. cell_of pn e = [c]"
proof -
  have sub: "set seg \<subseteq> set es" if "seg \<in> set (split_at_tr es)" for seg
  proof -
    from that have "set seg \<subseteq> set (concat (split_at_tr es))" by auto
    then show ?thesis unfolding concat_split_at_tr by auto
  qed
  from assms obtain seg where seg: "seg \<in> set (split_at_tr es)" "c \<in> set (cells_of pn seg)"
    by (auto simp: table_rows_def)
  then obtain e where e: "e \<in> set seg" "c \<in> set (cell_of pn e)"
    by (auto simp: cells_of_def)
  from e(2) have "cell_of pn e = [c]" by (simp add: cell_of_def split: if_splits)
  with e(1) sub [OF seg(1)] show ?thesis by blast
qed

lemma table_scope_no_table:
  "e \<in> set (table_scope s) \<Longrightarrow> e = s \<or> tag e \<noteq> ''table''"
  by (auto simp: table_scope_def dest: set_takeWhileD)

lemma rebuild_leaf: "children e = [] \<Longrightarrow> rebuild e (etext e, []) = e"
  by (cases e) (simp add: rebuild_def)

lemma rebuild_Element: "rebuild (Element t a x cs ta) ctx = Element t a (fst ctx) (snd ctx) ta"
  by (simp add: rebuild_def)

lemma iter_leaf: "children e = [] \<Longrightarrow> iter e = [e]"
  by (cases e) simp

lemma header_scenario:
  assumes h: "tag h1 = ''th''" "children h1 = []" "tag h2 = ''th''" "children h2 = []"
    and d: "tag d1 = ''td''" "children d1 = []" "tag d2 = ''td''" "children d2 = []"
    and hs: "hs = [h1, h2] \<or> hs = [h2, h1]"
    and p: "processed_text pn h1 \<noteq> []" "processed_text pn h2 = []"
       "processed_text pn d1 \<noteq> []" "processed_text pn d2 \<noteq> []"
  shows "handle_table pn
           (Element ''table'' a0 x0
              [Element ''thead'' a1 x1 [Element ''tr'' a2 x2 hs t2] t1,
               Element ''tbody'' a3 x3 [Element ''tr'' a4 x4 [d1, d2] t4] t3] t0) =
         Some (Element ''table'' [] None
           [Element ''row'' [] None
              [Element ''cell'' [(''role'', ''head'')] (Some (processed_text pn h1)) [] None] None,
            Element ''row'' [] None
              [Element ''cell'' [] (Some (processed_text pn d1)) [] None,
               Element ''cell'' [] (Some (processed_text pn d2)) [] None] None] None)"
proof -
  have st: "strip_tags [''thead'', ''tbody'', ''tfoot'']
      (Element ''table'' a0 x0
              [Element ''thead'' a1 x1 [Element ''tr'' a2 x2 hs t2] t1,
               Element ''tbody'' a3 x3 [Element ''tr'' a4 x4 [d1, d2] t4] t3] t0) =
      Element ''table'' a0 (opt_append x0 x1)
        [Element ''tr'' a2 x2 hs (opt_append (opt_append t2 t1) x3),
         Element ''tr'' a4 x4 [d1, d2] (opt_append t4 t3)] t0"
    using hs h d
    by (auto simp: strip_tags_def rebuild_leaf append_text_def set_tail_def rebuild_Element)
  show ?thesis unfolding handle_table_rows st
    using hs h d p
    by (auto simp: table_scope_def iter_leaf table_rows_def cell_of_def new_row_def)
qed

text \<open>
  C6, amended. With \<open>s\<close> the table after \<open>strip_tags\<close>: no \<open>thead\<close>, \<open>tbody\<close> or \<open>tfoot\<close>
  element is left below it. handle_table walks \<open>s\<close> and its descendants in document
  order and stops the whole walk at the first nested table, any \<open>table\<close> element after
  \<open>s\<close> itself, so the elements it processes are those before it. The table returned
  has one row for each stretch between two \<open>tr\<close> elements of that scope that received a
  cell, in order, and is None when there is no such row; every row has a cell, and every
  cell comes from a \<open>td\<close> or \<open>th\<close> element in scope whose processed text is not empty
  (with the role \<open>head\<close> for \<open>th\<close>, by \<open>cell_of\<close>); None is returned exactly when no
  element in scope gives a cell. In particular, a header row of two \<open>th\<close> cells, one of
  them empty after processing, above a data row of two \<open>td\<close> cells gives a table of two
  rows: the one header cell that is not empty, then the two data cells.
\<close>

theorem handle_table_rows_and_cells:
  "(let s = strip_tags [''thead'', ''tbody'', ''tfoot''] t;
        rows = table_rows pn (table_scope s) in
      (\<forall>w\<in>{''thead'', ''tbody'', ''tfoot''}. w \<notin> set (tags_below (children s))) \<and>
      (\<forall>e\<in>set (table_scope s). e = s \<or> tag e \<noteq> ''table'') \<and>
      handle_table pn t =
        (if rows = [] then None else Some (Element ''table'' [] None (map new_row rows) None)) \<and>
      (\<forall>r\<in>set rows. r \<noteq> [] \<and> (\<forall>c\<in>set r. \<exists>e\<in>set (table_scope s). cell_of pn e = [c])) \<and>
      (handle_table pn t = None \<longleftrightarrow> (\<forall>e\<in>set (table_scope s). cell_of pn e = []))) \<and>
   (tag ha = ''th'' \<and> children ha = [] \<and> tag hb = ''th'' \<and> children hb = [] \<and>
    tag da = ''td'' \<and> children da = [] \<and> tag db = ''td'' \<and> children db = [] \<and>
    (hs = [ha, hb] \<or> hs = [hb, ha]) \<and>
    processed_text pn ha \<noteq> [] \<and> processed_text pn hb = [] \<and>
    processed_text pn da \<noteq> [] \<and> processed_text pn db \<noteq> [] \<longrightarrow>
    handle_table pn
      (Element ''table'' a0 x0
         [Element ''thead'' a1 x1 [Element ''tr'' a2 x2 hs t2] t1,
          Element ''tbody'' a3 x3 [Element ''tr'' a4 x4 [da, db] t4] t3] t0) =
    Some (Element ''table'' [] None
      [Element ''row'' [] None
         [Element ''cell'' [(''role'', ''head'')] (Some (processed_text pn ha)) [] None] None,
       Element ''row'' [] None
         [Element ''cell'' [] (Some (processed_text pn da)) [] None,
          Element ''cell'' [] (Some (processed_text pn db)) [] None] None] None))"
proof -
  define s where "s = strip_tags [''thead'', ''tbody'', ''tfoot''] t"
  define rows where "rows = table_rows pn (table_scope s)"
  have 1: "\<forall>w\<in>{''thead'', ''tbody'', ''tfoot''}. w \<notin> set (tags_below (children s))"
    unfolding s_def using strip_tags_no_tag [of _ "[''thead'', ''tbody'', ''tfoot'']" t] by simp
  have 2: "\<forall>e\<in>set (table_scope s). e = s \<or> tag e \<noteq> ''table''"
    using table_scope_no_table by blast
  have 3: "handle_table pn t =
        (if rows = [] then None else Some (Element ''table'' [] None (map new_row rows) None))"
    unfolding rows_def s_def by (rule handle_table_rows)
  have 4: "\<forall>r\<in>set rows. r \<noteq> [] \<and> (\<forall>c\<in>set r. \<exists>e\<in>set (table_scope s). cell_of pn e = [c])"
    unfolding rows_def using table_rows_nonempty table_rows_cells by blast
  have 5: "handle_table pn t = None \<longleftrightarrow> (\<forall>e\<in>set (table_scope s). cell_of pn e = [])"
    unfolding 3 rows_def table_rows_Nil by simp
  have "let s = strip_tags [''thead'', ''tbody'', ''tfoot''] t;
        rows = table_rows pn (table_scope s) in
      (\<forall>w\<in>{''thead'', ''tbody'', ''tfoot''}. w \<notin> set (tags_below (children s))) \<and>
      (\<forall>e\<in>set (table_scope s). e = s \<or> tag e \<noteq> ''table'') \<and>
      handle_table pn t =
        (if rows = [] then None else Some (Element ''table'' [] None (map new_row rows) None)) \<and>
      (\<forall>r\<in>set rows. r \<noteq> [] \<and> (\<forall>c\<in>set r. \<exists>e\<in>set (table_scope s). cell_of pn e = [c])) \<and>
      (handle_table pn t = None \<longleftrightarrow> (\<forall>e\<in>set (table_scope s). cell_of pn e = []))"
    unfolding Let_def s_def [symmetric] rows_def [symmetric] using 1 2 3 4 5 by blast
  then show ?thesis using header_scenario [of ha hb da db hs pn] by blast
qed

text \<open>
  The theorem on the three example tables: the header row keeps \<open>Name\<close> only, the
  rows after a nested table are not visited, and a table with one empty cell gives None.
\<close>

theorem handle_table_rows_and_cells_witness:
  "handle_table example_process_node example_table =
     Some (Element ''table'' [] None
       [Element ''row'' [] None [Element ''cell'' [(''role'', ''head'')] (Some ''Name'') [] None] None,
        Element ''row'' [] None
          [Element ''cell'' [] (Some ''ab'') [] None, Element ''cell'' [] (Some ''12'') [] None] None]
       None) \<and>
   handle_table example_process_node example_nested_table =
     Some (Element ''table'' [] None
       [Element ''row'' [] None [Element ''cell'' [] (Some ''a'') [] None] None] None) \<and>
   handle_table example_process_node example_empty_table = None"
proof (intro conjI)
  let ?ha = "Element ''th'' [] (Some ''Name'') [] None"
  let ?hb = "Element ''th'' [] None [] None"
  let ?da = "Element ''td'' [] (Some ''ab'') [] None"
  let ?db = "Element ''td'' [] (Some ''12'') [] None"
  have pt: "processed_text example_process_node ?ha = ''Name''"
    "processed_text example_process_node ?hb = []"
    "processed_text example_process_node ?da = ''ab''"
    "processed_text example_process_node ?db = ''12''"
    by (simp_all add: processed_text_def example_process_node_def opt_str_def)
  from handle_table_rows_and_cells [where pn = example_process_node and ha = ?ha and hb = ?hb
      and da = ?da and db = ?db and hs = "[?ha, ?hb]" and ?a0.0 = "[]" and ?x0.0 = None
      and ?a1.0 = "[]" and ?x1.0 = None and ?a2.0 = "[]" and ?x2.0 = None and ?t2.0 = None
      and ?t1.0 = None and ?a3.0 = "[]" and ?x3.0 = None and ?a4.0 = "[]" and ?x4.0 = None
      and ?t4.0 = None and ?t3.0 = None and ?t0.0 = None]
  show "handle_table example_process_node example_table =
     Some (Element ''table'' [] None
       [Element ''row'' [] None [Element ''cell'' [(''role'', ''head'')] (Some ''Name'') [] None] None,
        Element ''row'' [] None
          [Element ''cell'' [] (Some ''ab'') [] None, Element ''cell'' [] (Some ''12'') [] None] None]
       None)"
    unfolding pt example_table_def by simp
next
  have st: "strip_tags [''thead'', ''tbody'', ''tfoot''] example_nested_table = example_nested_table"
    by (simp add: strip_tags_def example_nested_table_def rebuild_def)
  have sc: "table_scope example_nested_table =
      [example_nested_table,
       Element ''tr'' [] None
          [Element ''td'' [] (Some ''a'') [] None,
           Element ''td'' [] None
             [Element ''table'' [] None
                [Element ''tr'' [] None [Element ''td'' [] (Some ''b'') [] None] None] None] None]
          None,
       Element ''td'' [] (Some ''a'') [] None,
       Element ''td'' [] None
             [Element ''table'' [] None
                [Element ''tr'' [] None [Element ''td'' [] (Some ''b'') [] None] None] None] None]"
    by (simp add: table_scope_def example_nested_table_def)
  have rows: "table_rows example_process_node (table_scope example_nested_table) =
      [[Element ''cell'' [] (Some ''a'') [] None]]"
    unfolding sc
    by (simp add: table_rows_def cell_of_def processed_text_def example_process_node_def
        opt_str_def example_nested_table_def)
  from handle_table_rows_and_cells [where pn = example_process_node and t = example_nested_table]
  show "handle_table example_process_node example_nested_table =
     Some (Element ''table'' [] None
       [Element ''row'' [] None [Element ''cell'' [] (Some ''a'') [] None] None] None)"
    unfolding Let_def st rows by (simp add: new_row_def)
next
  have st: "strip_tags [''thead'', ''tbody'', ''tfoot''] example_empty_table =
      Element ''table'' [] None [Element ''tr'' [] None [Element ''td'' [] None [] None] None] None"
    by (simp add: strip_tags_def example_empty_table_def rebuild_def append_text_def
        opt_append_def set_tail_def)
  have "\<forall>e\<in>set (table_scope
      (Element ''table'' [] None [Element ''tr'' [] None [Element ''td'' [] None [] None] None] None)).
      cell_of example_process_node e = []"
    by (simp add: table_scope_def cell_of_def processed_text_def example_process_node_def opt_str_def)
  with handle_table_rows_and_cells [where pn = example_process_node and t = example_empty_table]
  show "handle_table example_process_node example_empty_table = None"
    unfolding Let_def st by blast
qed

text \<open>
  The claim as it is written fails on a table with a nested table: the row that follows
  the nested table has a cell and gives no output row, and a table nested before the
  first row makes handle_table return None although two rows have a cell.
\<close>

theorem handle_table_breaks_at_nested_table_counterexample:
  "handle_table example_process_node example_nested_table =
     Some (Element ''table'' [] None
       [Element ''row'' [] None [Element ''cell'' [] (Some ''a'') [] None] None] None) \<and>
   table_as_claimed example_process_node example_nested_table =
     Some (Element ''table'' [] None
       [Element ''row'' [] None [Element ''cell'' [] (Some ''a'') [] None] None,
        Element ''row'' [] None [Element ''cell'' [] (Some ''c'') [] None] None] None) \<and>
   handle_table example_process_node example_caption_table = None \<and>
   table_as_claimed example_process_node example_caption_table =
     Some (Element ''table'' [] None
       [Element ''row'' [] None [Element ''cell'' [] (Some ''x'') [] None] None,
        Element ''row'' [] None [Element ''cell'' [] (Some ''y'') [] None] None] None)"
  by (simp add: handle_table_def table_as_claimed_def example_nested_table_def
      example_caption_table_def example_process_node_def strip_tags_def rebuild_def
      table_rows_def cell_of_def processed_text_def opt_str_def new_row_def new_cell_def)


section \<open>extract_comments\<close>

lemma remove_put: "remove_at loc (put_at loc s t) = remove_at loc t"
proof (induction loc t arbitrary: s rule: remove_at.induct)
  case (1 t)
  then show ?case by simp
next
  case (2 i t)
  then show ?case by simp
next
  case (3 i j l t)
  show ?case
  proof (cases "i < length (children t)")
    case True
    have p: "put_at (i # j # l) s t =
        Element (tag t) (attrib t) (etext t)
          ((children t)[i := put_at (j # l) s (children t ! i)]) (tail t)"
      using True by simp
    show ?thesis unfolding p using True 3 [OF True, of s]
      by (simp del: put_at.simps split: option.splits)
  next
    case False
    then show ?thesis by simp
  qed
qed

lemma located_from_cases:
  "(l, e) \<in> set (located_from i cs) \<Longrightarrow>
   \<exists>n l'. l = (i + n) # l' \<and> n < length cs \<and>
     (l' = [] \<or> (l', e) \<in> set (located_from 0 (children (cs ! n))))"
proof (induction i cs arbitrary: l e rule: located_from.induct)
  case (1 i)
  then show ?case by simp
next
  case (2 i c cs)
  from 2(3) consider (here) "l = [i]"
    | (below) l' where "l = i # l'" "(l', e) \<in> set (located_from 0 (children c))"
    | (later) "(l, e) \<in> set (located_from (Suc i) cs)"
    by auto
  then show ?case
  proof cases
    case here
    then show ?thesis by (intro exI [of _ 0] exI [of _ "[]"]) simp
  next
    case below
    from 2(1) [OF below(2)] below(2) have "l' \<noteq> []" by auto
    with below show ?thesis by (intro exI [of _ 0] exI [of _ l']) simp
  next
    case later
    from 2(2) [OF later] obtain n l' where
      n: "l = (Suc i + n) # l'" "n < length cs"
         "l' = [] \<or> (l', e) \<in> set (located_from 0 (children (cs ! n)))" by blast
    then show ?thesis by (intro exI [of _ "Suc n"] exI [of _ l']) simp
  qed
qed

lemma remove_at_located:
  "(l, e) \<in> set (located_from 0 (children t)) \<Longrightarrow> \<exists>t'. remove_at l t = Some t'"
proof (induction l arbitrary: t)
  case Nil
  from located_from_cases [OF Nil] show ?case by simp
next
  case (Cons i l)
  from located_from_cases [OF Cons.prems] have
    n: "i < length (children t)"
      "l = [] \<or> (l, e) \<in> set (located_from 0 (children (children t ! i)))" by auto
  show ?case
  proof (cases l)
    case Nil
    with n show ?thesis by simp
  next
    case (Cons j l')
    with n(2) have "(l, e) \<in> set (located_from 0 (children (children t ! i)))" by simp
    from Cons.IH [OF this] obtain c where "remove_at l (children t ! i) = Some c" by blast
    with n(1) Cons show ?thesis by simp
  qed
qed

lemma xpath_remove:
  assumes "xpath m expr t = (loc, subtree) # others" "loc \<noteq> []"
  shows "\<exists>t'. remove_at loc t = Some t'"
proof -
  from assms(1) have "(loc, subtree) \<in> set (xpath m expr t)" by simp
  then have "(loc, subtree) \<in> set (located t)" by (simp add: xpath_def)
  with assms(2) have "(loc, subtree) \<in> set (located_from 0 (children t))"
    by (simp add: located_def)
  then show ?thesis by (rule remove_at_located)
qed

lemma comments_of_subtree_eq:
  "comments_of_subtree k d subtree = (found_comments k d subtree, left_subtree k d subtree)"
  by (simp add: comments_of_subtree_def found_comments_def left_subtree_def
      stripped_subtree_def Let_def)

lemma loop_first_hit:
  assumes "xpath (k_matches k) expr t = (loc, subtree) # others"
    and "found_comments k d subtree \<noteq> []"
  shows "comments_loop k d (expr # exprs) [] t =
     (case remove_at loc t of
        None \<Rightarrow> Inl AttributeError
      | Some t' \<Rightarrow> Inr (found_comments k d subtree, t'))"
  using assms by (simp add: comments_of_subtree_eq remove_put split: option.splits)

lemma loop_not_yields:
  assumes "\<not> yields k d expr t"
  shows "comments_loop k d (expr # exprs) [] t =
     comments_loop k d exprs [] (prune_match k d expr t)"
proof (cases "xpath (k_matches k) expr t")
  case Nil
  then show ?thesis by (simp add: prune_match_def)
next
  case (Cons m ms)
  with assms have "found_comments k d (snd m) = []" by (simp add: yields_def)
  with Cons show ?thesis by (simp add: comments_of_subtree_eq prune_match_def)
qed

lemma loop_none_yields:
  "none_yields k d exprs t \<Longrightarrow> comments_loop k d exprs [] t = Inr ([], prune_matches k d exprs t)"
proof (induction exprs arbitrary: t)
  case Nil
  then show ?case by simp
next
  case (Cons expr exprs)
  from Cons.prems have "\<not> yields k d expr t" "none_yields k d exprs (prune_match k d expr t)"
    by simp_all
  with Cons.IH [of "prune_match k d expr t"] loop_not_yields [of k d expr t exprs]
  show ?case by simp
qed

lemma loop_some_yields:
  "\<not> none_yields k d exprs t \<Longrightarrow> comments_loop k d exprs [] t \<noteq> Inr ([], t')"
proof (induction exprs arbitrary: t)
  case Nil
  then show ?case by simp
next
  case (Cons expr exprs)
  show ?case
  proof (cases "yields k d expr t")
    case True
    then obtain m ms where m: "xpath (k_matches k) expr t = (fst m, snd m) # ms"
      and f: "found_comments k d (snd m) \<noteq> []"
      by (auto simp: yields_def split: list.splits)
    from loop_first_hit [OF m f, of exprs] f show ?thesis
      by (simp split: option.splits)
  next
    case False
    with Cons.prems have "\<not> none_yields k d exprs (prune_match k d expr t)" by simp
    from Cons.IH [OF this] loop_not_yields [OF False, of exprs] show ?thesis by simp
  qed
qed

lemma prune_matches_no_match:
  "\<forall>expr\<in>set exprs. xpath (k_matches k) expr t = [] \<Longrightarrow>
   prune_matches k d exprs t = t \<and> none_yields k d exprs t"
  by (induction exprs) (simp_all add: prune_match_def yields_def)

lemma extract_none_yields:
  assumes "none_yields k d (k_COMMENTS_XPATH k) t"
  shows "extract_comments k t d =
     Inr (Element ''body'' [] None [] None, k_trim k [], length (k_trim k []),
          prune_matches k d (k_COMMENTS_XPATH k) t)"
  using loop_none_yields [OF assms] by (simp add: extract_comments_def Let_def)

lemma extract_some_yields:
  assumes "\<not> none_yields k d (k_COMMENTS_XPATH k) t" "extract_comments k t d = Inr r"
  shows "children (fst r) \<noteq> []"
proof -
  from assms(2) obtain elems t' where
    l: "comments_loop k d (k_COMMENTS_XPATH k) [] t = Inr (elems, t')"
    by (auto simp: extract_comments_def split: sum.splits)
  with loop_some_yields [OF assms(1), of t'] have "elems \<noteq> []" by auto
  with assms(2) l show ?thesis by (auto simp: extract_comments_def Let_def)
qed

lemma loop_hit_cases:
  assumes "xpath (k_matches k) expr t = (loc, subtree) # others"
    and "found_comments k d subtree \<noteq> []"
  shows "(loc = [] \<longrightarrow> comments_loop k d (expr # exprs) [] t = Inl AttributeError) \<and>
     (loc \<noteq> [] \<longrightarrow>
       (\<exists>t'. remove_at loc t = Some t' \<and>
          comments_loop k d (expr # exprs) [] t = Inr (found_comments k d subtree, t')))"
proof (cases "loc = []")
  case True
  with loop_first_hit [OF assms, of exprs] show ?thesis by simp
next
  case False
  from xpath_remove [OF assms(1) False] obtain t' where "remove_at loc t = Some t'" ..
  with False loop_first_hit [OF assms, of exprs] show ?thesis by simp
qed

lemma match_without_elements:
  assumes "xpath (k_matches k) expr t = (loc, subtree) # others"
    and "children (stripped_subtree k subtree) = []"
  shows "\<not> yields k d expr t \<and> prune_match k d expr t = put_at loc (stripped_subtree k subtree) t"
  using assms by (simp add: yields_def prune_match_def found_comments_def left_subtree_def)

lemma stripped_subtree_tags:
  "w \<in> {''a'', ''link'', ''span''} \<Longrightarrow> w \<notin> set (tags_below (children (stripped_subtree k subtree)))"
  unfolding stripped_subtree_def by (rule strip_tags_no_tag) auto

lemma stripped_subtree_text:
  "elem_text (stripped_subtree k subtree) = elem_text (k_discard_unwanted_comments k subtree)"
  unfolding stripped_subtree_def by (rule strip_tags_text)

text \<open>
  C4, amended. If no query yields a processed element, extract_comments returns an
  empty comments tree and the document as the queries leave it: unchanged when no query
  matches an element, and otherwise with each matched subtree changed in place. A
  matched subtree is pruned by \<open>discard_unwanted_comments\<close> and stripped of its \<open>a\<close>,
  \<open>link\<close> and \<open>span\<close> tags: no such element is left below it and its text is the text
  of the pruned subtree; when it has no child element then, the query does not yield and
  the document holds the stripped subtree in its place. If some query yields, a call that
  returns gives a comments tree that is not empty. At the first query that yields, the
  matched subtree is removed from the document and the loop ends with the elements of
  that query, whatever the queries after it are; when the match is the root, which has
  no parent, AttributeError is raised. A query that does not yield passes the document
  it leaves to the next one.
\<close>

theorem extract_comments_frame:
  "(none_yields k d (k_COMMENTS_XPATH k) t \<longrightarrow>
      extract_comments k t d =
        Inr (Element ''body'' [] None [] None, k_trim k [], length (k_trim k []),
             prune_matches k d (k_COMMENTS_XPATH k) t)) \<and>
   ((\<forall>expr\<in>set (k_COMMENTS_XPATH k). xpath (k_matches k) expr t = []) \<longrightarrow>
      none_yields k d (k_COMMENTS_XPATH k) t \<and> prune_matches k d (k_COMMENTS_XPATH k) t = t) \<and>
   (\<forall>w\<in>{''a'', ''link'', ''span''}.
      w \<notin> set (tags_below (children (stripped_subtree k subtree)))) \<and>
   elem_text (stripped_subtree k subtree) = elem_text (k_discard_unwanted_comments k subtree) \<and>
   (xpath (k_matches k) expr t = (loc, subtree) # others \<and>
    children (stripped_subtree k subtree) = [] \<longrightarrow>
      \<not> yields k d expr t \<and>
      prune_match k d expr t = put_at loc (stripped_subtree k subtree) t) \<and>
   (\<not> none_yields k d (k_COMMENTS_XPATH k) t \<longrightarrow>
      (\<forall>r. extract_comments k t d = Inr r \<longrightarrow> children (fst r) \<noteq> [])) \<and>
   (xpath (k_matches k) expr t = (loc, subtree) # others \<and>
    found_comments k d subtree \<noteq> [] \<longrightarrow>
      (loc = [] \<longrightarrow> comments_loop k d (expr # exprs) [] t = Inl AttributeError) \<and>
      (loc \<noteq> [] \<longrightarrow>
        (\<exists>t'. remove_at loc t = Some t' \<and>
           comments_loop k d (expr # exprs) [] t = Inr (found_comments k d subtree, t')))) \<and>
   (\<not> yields k d expr t \<longrightarrow>
      comments_loop k d (expr # exprs) [] t =
        comments_loop k d exprs [] (prune_match k d expr t))"
proof -
  note 1 = extract_none_yields [of k d t]
  note 2 = prune_matches_no_match [of "k_COMMENTS_XPATH k" k t d]
  have 3: "\<forall>w\<in>{''a'', ''link'', ''span''}.
      w \<notin> set (tags_below (children (stripped_subtree k subtree)))"
    using stripped_subtree_tags [of _ k subtree] by blast
  note 4 = stripped_subtree_text [of k subtree]
  note 5 = match_without_elements [of k expr t loc subtree others d]
  note 6 = extract_some_yields [of k d t]
  note 7 = loop_hit_cases [of k expr t loc subtree others d exprs]
  note 8 = loop_not_yields [of k d expr t exprs]
  show ?thesis
    apply (intro conjI)
    subgoal using 1 by blast
    subgoal using 2 by blast
    subgoal using 3 .
    subgoal using 4 .
    subgoal using 5 by blast
    subgoal using 6 by blast
    subgoal using 7 by blast
    subgoal using 8 by blast
    done
qed

lemmas example_eval =
  example_comments_steps_def xpath_def located_def has_attr_def stripped_subtree_def
  found_comments_def left_subtree_def strip_tags_def rebuild_def append_text_def opt_append_def
  set_tail_def yields_def prune_match_def

text \<open>
  The theorem on the page without comments section, which is returned unchanged; on
  the page whose comments section holds a form and a notice, which is returned with the
  form pruned and the notice as the text of the section; and on the page with two
  comments sections: the first one is removed with its tail and the second one stays.
\<close>

theorem extract_comments_frame_witness:
  "extract_comments example_comments_steps example_plain_page True =
     Inr (Element ''body'' [] None [] None, [], 0, example_plain_page) \<and>
   extract_comments example_comments_steps example_closed_page True =
     Inr (Element ''body'' [] None [] None, [], 0,
          Element ''html'' [] None
            [Element ''body'' [] None
               [Element ''p'' [] (Some ''Article'') [] None,
                Element ''div'' [(''id'', ''comments'')] (Some ''Comments are closed'') [] None]
               None] None) \<and>
   comments_loop example_comments_steps True
     [(''id'', ''comments''), (''class'', ''comment-list'')] [] example_comments_page =
     Inr ([Element ''p'' [] (Some ''First'') [] None],
          Element ''html'' [] None
            [Element ''body'' [] None
               [Element ''p'' [] (Some ''Article'') [] None,
                Element ''div'' [(''class'', ''comment-list'')] None
                  [Element ''p'' [] (Some ''Second'') [] None] None]
               None] None)"
proof (intro conjI)
  have nm: "\<forall>expr\<in>set (k_COMMENTS_XPATH example_comments_steps).
      xpath (k_matches example_comments_steps) expr example_plain_page = []"
    by (simp add: example_eval example_plain_page_def)
  from extract_comments_frame [where k = example_comments_steps and t = example_plain_page
      and d = True] nm
  have "extract_comments example_comments_steps example_plain_page True =
     Inr (Element ''body'' [] None [] None, k_trim example_comments_steps [],
          length (k_trim example_comments_steps []), example_plain_page)"
    by simp
  then show "extract_comments example_comments_steps example_plain_page True =
     Inr (Element ''body'' [] None [] None, [], 0, example_plain_page)"
    by (simp add: example_comments_steps_def)
next
  have ny: "none_yields example_comments_steps True (k_COMMENTS_XPATH example_comments_steps)
      example_closed_page"
    by (simp add: example_eval example_closed_page_def)
  have pm: "prune_matches example_comments_steps True (k_COMMENTS_XPATH example_comments_steps)
      example_closed_page =
      Element ''html'' [] None
            [Element ''body'' [] None
               [Element ''p'' [] (Some ''Article'') [] None,
                Element ''div'' [(''id'', ''comments'')] (Some ''Comments are closed'') [] None]
               None] None"
    by (simp add: example_eval example_closed_page_def)
  from extract_comments_frame [where k = example_comments_steps and t = example_closed_page
      and d = True] ny
  have "extract_comments example_comments_steps example_closed_page True =
     Inr (Element ''body'' [] None [] None, k_trim example_comments_steps [],
          length (k_trim example_comments_steps []),
          prune_matches example_comments_steps True (k_COMMENTS_XPATH example_comments_steps)
            example_closed_page)"
    by simp
  then show "extract_comments example_comments_steps example_closed_page True =
     Inr (Element ''body'' [] None [] None, [], 0,
          Element ''html'' [] None
            [Element ''body'' [] None
               [Element ''p'' [] (Some ''Article'') [] None,
                Element ''div'' [(''id'', ''comments'')] (Some ''Comments are closed'') [] None]
               None] None)"
    unfolding pm by (simp add: example_comments_steps_def)
next
  let ?div = "Element ''div'' [(''id'', ''comments'')] None
             [Element ''p'' [] (Some ''First'') [] None] (Some ''after'')"
  have x: "xpath (k_matches example_comments_steps) (''id'', ''comments'') example_comments_page =
      ([0, 1], ?div) # []"
    by (simp add: example_eval example_comments_page_def)
  have c: "found_comments example_comments_steps True ?div =
      [Element ''p'' [] (Some ''First'') [] None]"
    by (simp add: example_eval)
  have r: "remove_at [0, 1] example_comments_page =
      Some (Element ''html'' [] None
            [Element ''body'' [] None
               [Element ''p'' [] (Some ''Article'') [] None,
                Element ''div'' [(''class'', ''comment-list'')] None
                  [Element ''p'' [] (Some ''Second'') [] None] None]
               None] None)"
    by (simp add: example_comments_page_def)
  from extract_comments_frame [where k = example_comments_steps and t = example_comments_page
      and d = True and expr = "(''id'', ''comments'')" and loc = "[0, 1]" and subtree = ?div
      and others = "[]" and exprs = "[(''class'', ''comment-list'')]"] x c
  have "\<exists>t'. remove_at [0, 1] example_comments_page = Some t' \<and>
      comments_loop example_comments_steps True
        [(''id'', ''comments''), (''class'', ''comment-list'')] [] example_comments_page =
      Inr ([Element ''p'' [] (Some ''First'') [] None], t')"
    by simp
  with r show "comments_loop example_comments_steps True
     [(''id'', ''comments''), (''class'', ''comment-list'')] [] example_comments_page =
     Inr ([Element ''p'' [] (Some ''First'') [] None],
          Element ''html'' [] None
            [Element ''body'' [] None
               [Element ''p'' [] (Some ''Article'') [] None,
                Element ''div'' [(''class'', ''comment-list'')] None
                  [Element ''p'' [] (Some ''Second'') [] None] None]
               None] None)"
    by auto
qed

text \<open>
  The claim as it is written fails on the page whose comments section holds a link
  only: no query yields, the comments tree is empty, and the document has lost the \<open>a\<close>
  element, whose text is now the text of the section.
\<close>

theorem extract_comments_changes_document_counterexample:
  "none_yields example_comments_steps True (k_COMMENTS_XPATH example_comments_steps)
     example_links_page \<and>
   extract_comments example_comments_steps example_links_page True =
     Inr (Element ''body'' [] None [] None, [], 0,
          Element ''html'' [] None
            [Element ''body'' [] None
               [Element ''p'' [] (Some ''Article'') [] None,
                Element ''div'' [(''id'', ''comments'')] (Some ''Log in to comment'') [] None]
               None] None) \<and>
   Element ''html'' [] None
     [Element ''body'' [] None
        [Element ''p'' [] (Some ''Article'') [] None,
         Element ''div'' [(''id'', ''comments'')] (Some ''Log in to comment'') [] None]
        None] None \<noteq> example_links_page"
  by (simp add: example_eval comments_of_subtree_def example_links_page_def extract_comments_def)

section \<open>extract_content\<close>

lemma remove_trailing_titles_snoc:
  "remove_trailing_titles (es @ [e]) =
     (if tag e = ''head'' \<and> tail e = None then remove_trailing_titles es else Some (es @ [e]))"
  by (subst remove_trailing_titles.simps) simp

lemma remove_trailing_titles_eq:
  "remove_trailing_titles es =
     (if without_trailing_titles es = [] then None else Some (without_trailing_titles es))"
proof (induction es rule: rev_induct)
  case Nil
  show ?case by (subst remove_trailing_titles.simps) (simp add: without_trailing_titles_def)
next
  case (snoc e es)
  then show ?case
    by (simp add: remove_trailing_titles_snoc without_trailing_titles_def)
qed

lemma content_step_candidate:
  "fst (snd (content_step b it d expr [] t)) = candidate_tree b it d expr t \<and>
   (fst (content_step b it d expr [] t) = Fallthrough \<longleftrightarrow> candidate_tree b it d expr t \<noteq> [])"
proof (cases "xpath (b_matches b) expr t")
  case Nil
  then show ?thesis by (simp add: content_step_def candidate_tree_def)
next
  case (Cons m ms)
  define s where "s = pruned_content b it (snd m)"
  define s2 where "s2 = strip_tags [''link'', ''span''] s"
  show ?thesis
  proof (cases "children s = []")
    case True
    with Cons show ?thesis
      by (simp add: content_step_def candidate_tree_def s_def pruned_content_def Let_def)
  next
    case False
    show ?thesis
    proof (cases "children s2 = []")
      case True
      with Cons False show ?thesis
        by (simp add: content_step_def candidate_tree_def s_def s2_def pruned_content_def Let_def
            remove_trailing_titles_eq without_trailing_titles_def)
    next
      case ne: False
      with Cons False show ?thesis
        by (simp add: content_step_def candidate_tree_def s_def s2_def pruned_content_def Let_def
            remove_trailing_titles_eq candidate_tags_def)
    qed
  qed
qed

lemma content_loop_Cons:
  "content_loop b it d (expr # exprs) [] False t =
     (if candidate_tree b it d expr t \<noteq> []
      then (candidate_tree b it d expr t, True, snd (snd (content_step b it d expr [] t)))
      else content_loop b it d exprs [] False (snd (snd (content_step b it d expr [] t))))"
proof -
  obtain fl rb t' where st: "content_step b it d expr [] t = (fl, rb, t')"
    by (cases "content_step b it d expr [] t")
  with content_step_candidate [of b it d expr t]
  have rb: "rb = candidate_tree b it d expr t" and fl: "fl = Fallthrough \<longleftrightarrow> rb \<noteq> []"
    by simp_all
  show ?thesis
  proof (cases fl)
    case Continue
    with fl have "rb = []" by simp
    with Continue st rb show ?thesis by simp
  next
    case Fallthrough
    with fl have "rb \<noteq> []" by simp
    with Fallthrough st rb show ?thesis by simp
  qed
qed

lemma content_loop_flag:
  "content_loop b it d exprs [] False t = (rb, st, t') \<Longrightarrow> st \<longleftrightarrow> rb \<noteq> []"
proof (induction exprs arbitrary: t)
  case Nil
  then show ?case by simp
next
  case (Cons expr exprs)
  show ?case
  proof (cases "candidate_tree b it d expr t = []")
    case True
    with Cons.prems have
      "content_loop b it d exprs [] False (snd (snd (content_step b it d expr [] t))) = (rb, st, t')"
      by (simp add: content_loop_Cons del: content_loop.simps(2))
    then show ?thesis by (rule Cons.IH)
  next
    case False
    with Cons.prems show ?thesis by (auto simp: content_loop_Cons simp del: content_loop.simps(2))
  qed
qed

lemma content_loop_query:
  "content_loop b it d exprs [] False t = (rb, True, t') \<Longrightarrow>
   \<exists>pre expr post t0. exprs = pre @ expr # post \<and>
     content_loop b it d pre [] False t = ([], False, t0) \<and>
     rb = candidate_tree b it d expr t0 \<and> candidate_tree b it d expr t0 \<noteq> []"
proof (induction exprs arbitrary: t)
  case Nil
  then show ?case by simp
next
  case (Cons expr exprs)
  show ?case
  proof (cases "candidate_tree b it d expr t = []")
    case True
    define t1 where "t1 = snd (snd (content_step b it d expr [] t))"
    from True Cons.prems have "content_loop b it d exprs [] False t1 = (rb, True, t')"
      by (simp add: content_loop_Cons t1_def del: content_loop.simps(2))
    from Cons.IH [OF this] obtain pre e post t0 where
      p: "exprs = pre @ e # post" "content_loop b it d pre [] False t1 = ([], False, t0)"
        "rb = candidate_tree b it d e t0" "candidate_tree b it d e t0 \<noteq> []"
      by blast
    from p(2) True have "content_loop b it d (expr # pre) [] False t = ([], False, t0)"
      by (simp add: content_loop_Cons t1_def del: content_loop.simps(2))
    with p(1,3,4) show ?thesis
      by (intro exI [of _ "expr # pre"] exI [of _ e] exI [of _ post] exI [of _ t0]) simp
  next
    case False
    with Cons.prems have "rb = candidate_tree b it d expr t" by (simp add: content_loop_Cons del: content_loop.simps(2))
    with False show ?thesis
      by (intro exI [of _ "[]"] exI [of _ expr] exI [of _ exprs] exI [of _ t]) simp
  qed
qed

lemma extract_content_flag:
  "sure_thing_of (extract_content b t it d) =
   fst (snd (content_loop b it d (b_BODY_XPATH b) [] False t))"
  by (simp add: extract_content_def sure_thing_of_def Let_def split: prod.splits)

lemma extract_content_recovery:
  assumes "fst (content_loop b it d (b_BODY_XPATH b) [] False t) = []"
  shows "extract_content b t it d =
     (strip_tags [''div''] (strip_elements ''done'' (Element ''body'' [] None
          (fst (recover_wild_paragraphs b
             (snd (snd (content_loop b it d (b_BODY_XPATH b) [] False t))) [] d)) None)),
      b_trim b (str_join '' '' (itertext (Element ''body'' [] None
          (fst (recover_wild_paragraphs b
             (snd (snd (content_loop b it d (b_BODY_XPATH b) [] False t))) [] d)) None))),
      length (b_trim b (str_join '' '' (itertext (Element ''body'' [] None
          (fst (recover_wild_paragraphs b
             (snd (snd (content_loop b it d (b_BODY_XPATH b) [] False t))) [] d)) None)))),
      False,
      snd (recover_wild_paragraphs b
             (snd (snd (content_loop b it d (b_BODY_XPATH b) [] False t))) [] d))"
proof -
  obtain rb st t' where l: "content_loop b it d (b_BODY_XPATH b) [] False t = (rb, st, t')"
    by (cases "content_loop b it d (b_BODY_XPATH b) [] False t")
  with assms have rb: "rb = []" by simp
  with content_loop_flag [OF l] have st: "st = False" by simp
  obtain rb' t'' where r: "recover_wild_paragraphs b t' [] d = (rb', t'')"
    by (cases "recover_wild_paragraphs b t' [] d")
  show ?thesis unfolding extract_content_def l rb st by (simp add: r Let_def)
qed
text \<open>
  C5. With the loop over the candidate queries run on the document, an empty body and
  the flag False: the confidence flag that extract_content returns is the flag of the
  loop, and it is True exactly when the loop leaves a body that is not empty. When it
  is True, the body of the loop is the content tree of one query of BODY_XPATH, not
  empty, produced on the document as the queries before it left it, and these gave
  nothing. When the loop leaves an empty body, the content tree returned holds what the
  recovery of wild paragraphs found and nothing else, and the flag is False. The body
  that one query adds to an empty one is \<open>candidate_tree\<close>, and the loop is left at the
  test of line 330 exactly when it is not empty.
\<close>

theorem confidence_flag_from_queries:
  "sure_thing_of (extract_content b t it d) =
     fst (snd (content_loop b it d (b_BODY_XPATH b) [] False t)) \<and>
   (fst (snd (content_loop b it d (b_BODY_XPATH b) [] False t)) \<longleftrightarrow>
      fst (content_loop b it d (b_BODY_XPATH b) [] False t) \<noteq> []) \<and>
   (sure_thing_of (extract_content b t it d) \<longrightarrow>
      (\<exists>pre expr post t0.
         b_BODY_XPATH b = pre @ expr # post \<and>
         content_loop b it d pre [] False t = ([], False, t0) \<and>
         fst (content_loop b it d (b_BODY_XPATH b) [] False t) = candidate_tree b it d expr t0 \<and>
         candidate_tree b it d expr t0 \<noteq> [])) \<and>
   (fst (content_loop b it d (b_BODY_XPATH b) [] False t) = [] \<longrightarrow>
      \<not> sure_thing_of (extract_content b t it d) \<and>
      fst (extract_content b t it d) =
        strip_tags [''div''] (strip_elements ''done'' (Element ''body'' [] None
          (fst (recover_wild_paragraphs b
             (snd (snd (content_loop b it d (b_BODY_XPATH b) [] False t))) [] d)) None))) \<and>
   fst (snd (content_step b it d expr' [] t')) = candidate_tree b it d expr' t' \<and>
   (fst (content_step b it d expr' [] t') = Fallthrough \<longleftrightarrow>
      candidate_tree b it d expr' t' \<noteq> [])"
proof -
  obtain rb st t1 where l: "content_loop b it d (b_BODY_XPATH b) [] False t = (rb, st, t1)"
    by (cases "content_loop b it d (b_BODY_XPATH b) [] False t")
  note flag = extract_content_flag [of b t it d]
  note inv = content_loop_flag [OF l]
  have q: "\<exists>pre expr post t0.
         b_BODY_XPATH b = pre @ expr # post \<and>
         content_loop b it d pre [] False t = ([], False, t0) \<and>
         fst (content_loop b it d (b_BODY_XPATH b) [] False t) = candidate_tree b it d expr t0 \<and>
         candidate_tree b it d expr t0 \<noteq> []"
    if "sure_thing_of (extract_content b t it d)"
  proof -
    from that flag l have "st" by simp
    with l have "content_loop b it d (b_BODY_XPATH b) [] False t = (rb, True, t1)" by simp
    from content_loop_query [OF this] show ?thesis unfolding l by simp
  qed
  have r: "\<not> sure_thing_of (extract_content b t it d) \<and>
      fst (extract_content b t it d) =
        strip_tags [''div''] (strip_elements ''done'' (Element ''body'' [] None
          (fst (recover_wild_paragraphs b
             (snd (snd (content_loop b it d (b_BODY_XPATH b) [] False t))) [] d)) None))"
    if e: "fst (content_loop b it d (b_BODY_XPATH b) [] False t) = []"
  proof -
    from e l inv flag have "\<not> sure_thing_of (extract_content b t it d)" by simp
    moreover from extract_content_recovery [OF e] have "fst (extract_content b t it d) =
        strip_tags [''div''] (strip_elements ''done'' (Element ''body'' [] None
          (fst (recover_wild_paragraphs b
             (snd (snd (content_loop b it d (b_BODY_XPATH b) [] False t))) [] d)) None))"
      by simp
    ultimately show ?thesis ..
  qed
  note c = content_step_candidate [of b it d expr' t']
  show ?thesis
    apply (intro conjI)
    subgoal using flag .
    subgoal using inv l by simp
    subgoal using q by blast
    subgoal using r by blast
    subgoal using c by blast
    subgoal using c by blast
    done
qed

lemmas example_content_eval =
  example_content_steps_def xpath_def located_def has_attr_def content_step_def
  remove_trailing_titles_eq without_trailing_titles_def xpath_p_text_def strip_tags_def
  rebuild_def append_text_def opt_append_def set_tail_def Let_def

text \<open>
  The theorem on the three pages: the article found by the first query gives the flag
  True; the page without section and the page whose section holds a title only give
  the wild paragraph and the flag False.
\<close>

theorem confidence_flag_from_queries_witness:
  "sure_thing_of (extract_content example_content_steps example_article_page False True) \<and>
   \<not> sure_thing_of (extract_content example_content_steps example_wild_page False True) \<and>
   fst (extract_content example_content_steps example_wild_page False True) =
     Element ''body'' [] None [Element ''p'' [] (Some ''Wild text'') [] None] None \<and>
   \<not> sure_thing_of (extract_content example_content_steps example_title_page False True) \<and>
   fst (extract_content example_content_steps example_title_page False True) =
     Element ''body'' [] None [Element ''p'' [] (Some ''Wild text'') [] None] None"
proof -
  let ?b = example_content_steps
  have a: "content_loop ?b False True (b_BODY_XPATH ?b) [] False example_article_page =
      ([Element ''p'' [] (Some ''Main text'') [] None], True, example_article_page)"
    by (simp add: example_content_eval example_article_page_def)
  have w: "content_loop ?b False True (b_BODY_XPATH ?b) [] False example_wild_page =
      ([], False, example_wild_page)"
    by (simp add: example_content_eval example_wild_page_def)
  have h: "content_loop ?b False True (b_BODY_XPATH ?b) [] False example_title_page =
      ([], False, example_title_page)"
    by (simp add: example_content_eval example_title_page_def)
  have rw: "fst (recover_wild_paragraphs ?b example_wild_page [] True) =
      [Element ''p'' [] (Some ''Wild text'') [] None]"
    by (simp add: recover_wild_paragraphs_def example_content_eval example_wild_page_def)
  have rh: "fst (recover_wild_paragraphs ?b example_title_page [] True) =
      [Element ''p'' [] (Some ''Wild text'') [] None]"
    by (simp add: recover_wild_paragraphs_def example_content_eval example_title_page_def)
  have f: "strip_tags [''div''] (strip_elements ''done'' (Element ''body'' [] None
      [Element ''p'' [] (Some ''Wild text'') [] None] None)) =
      Element ''body'' [] None [Element ''p'' [] (Some ''Wild text'') [] None] None"
    by (simp add: strip_tags_def strip_elements_def rebuild_def)
  from confidence_flag_from_queries [where b = ?b and t = example_article_page and it = False
      and d = True]
  have 1: "sure_thing_of (extract_content ?b example_article_page False True)"
    unfolding a by simp
  from confidence_flag_from_queries [where b = ?b and t = example_wild_page and it = False
      and d = True]
  have 2: "\<not> sure_thing_of (extract_content ?b example_wild_page False True) \<and>
      fst (extract_content ?b example_wild_page False True) =
      Element ''body'' [] None [Element ''p'' [] (Some ''Wild text'') [] None] None"
    unfolding w by (simp add: rw f)
  from confidence_flag_from_queries [where b = ?b and t = example_title_page and it = False
      and d = True]
  have 3: "\<not> sure_thing_of (extract_content ?b example_title_page False True) \<and>
      fst (extract_content ?b example_title_page False True) =
      Element ''body'' [] None [Element ''p'' [] (Some ''Wild text'') [] None] None"
    unfolding h by (simp add: rh f)
  from 1 2 3 show ?thesis by blast
qed

end
